theory Spec2Isabelle
  imports Complex_Main
begin

section \<open>JavaScript values\<close>

text \<open>
  The scheduler, the validator and the normalisation layer work on loosely shaped records
  (parsed JSON, or records of a record store). A value is a primitive, a \<open>Date\<close>, an array
  or an object; an object is the list of its own properties, and of two entries with one
  name the first counts.

  Conventions of the model:
  \<^item> numbers are rationals (no rounding, no infinities); a number that may be \<open>NaN\<close> is an
    \<open>int option\<close> or a \<open>rat option\<close>, \<open>None\<close> being \<open>NaN\<close>;
  \<^item> an instant is an integer number of milliseconds; a \<open>Date\<close> holds an instant of at
    most 8640000000000000 ms on either side of the epoch, or \<open>NaN\<close> (an invalid \<open>Date\<close>),
    and a time value beyond that bound is read as \<open>NaN\<close>;
  \<^item> strings are strings of ASCII characters, on which \<open>trim\<close>, \<open>toUpperCase\<close> and
    \<open>toLowerCase\<close> act;
  \<^item> \<open>Map\<close> keys are compared by equality of values, which is what \<open>Map\<close> does for
    primitive keys (identifiers are strings in every caller of this code);
  \<^item> an exception is a value: a function that can raise returns \<open>Inl TypeError\<close>.
\<close>

datatype jsval =
    JUndefined
  | JNull
  | JBool bool
  | JNum rat
  | JStr string
  | JDate "int option"
  | JArr "jsval list"
  | JObj "(string \<times> jsval) list"

datatype error = TypeError

fun truthy :: "jsval \<Rightarrow> bool" where
  "truthy JUndefined = False"
| "truthy JNull = False"
| "truthy (JBool b) = b"
| "truthy (JNum n) = (n \<noteq> 0)"
| "truthy (JStr s) = (s \<noteq> [])"
| "truthy (JDate d) = True"
| "truthy (JArr xs) = True"
| "truthy (JObj fs) = True"

text \<open>\<open>a || b\<close>\<close>

definition js_or :: "jsval \<Rightarrow> jsval \<Rightarrow> jsval" where
  "js_or a b = (if truthy a then a else b)"

text \<open>\<open>Object.prototype.hasOwnProperty.call(v, key)\<close> and \<open>v[key]\<close>, for the property names
  this code uses (none of them is an index or \<open>length\<close>, so only objects have them).\<close>

fun hasOwnProperty :: "jsval \<Rightarrow> string \<Rightarrow> bool" where
  "hasOwnProperty (JObj fs) key = (map_of fs key \<noteq> None)"
| "hasOwnProperty v key = False"

fun get_prop :: "jsval \<Rightarrow> string \<Rightarrow> jsval" where
  "get_prop (JObj fs) key = (case map_of fs key of Some v \<Rightarrow> v | None \<Rightarrow> JUndefined)"
| "get_prop v key = JUndefined"

text \<open>Reading a property of \<open>null\<close> or \<open>undefined\<close> raises.\<close>

definition prop_checked :: "jsval \<Rightarrow> string \<Rightarrow> error + jsval" where
  "prop_checked v key =
     (if v = JNull \<or> v = JUndefined then Inl TypeError else Inr (get_prop v key))"

subsection \<open>The platform\<close>

text \<open>
  The built-in functions of the JavaScript platform that the code calls and whose results
  depend on the engine, the locale or the time zone are parameters of the model.
\<close>

record platform =
  date_parse :: "string \<Rightarrow> int option"
    \<comment> \<open>\<open>Date.parse(s)\<close>; \<open>None\<close> is \<open>NaN\<close>\<close>
  set_hours :: "int \<Rightarrow> int \<Rightarrow> int \<Rightarrow> int option"
    \<comment> \<open>\<open>d.setHours(h, m, 0, 0)\<close> in local time, on a valid date; \<open>None\<close> is \<open>NaN\<close>\<close>
  parse_int :: "string \<Rightarrow> int option"
    \<comment> \<open>\<open>Number.parseInt(s, 10)\<close>; \<open>None\<close> is \<open>NaN\<close>\<close>
  parse_float :: "string \<Rightarrow> rat option"
    \<comment> \<open>\<open>Number.parseFloat(s)\<close> when the result is finite, else \<open>None\<close>\<close>
  num_string :: "rat \<Rightarrow> string"
    \<comment> \<open>\<open>String(n)\<close> for a number\<close>
  to_fixed2 :: "rat \<Rightarrow> string"
    \<comment> \<open>\<open>n.toFixed(2)\<close>\<close>
  date_string :: "int option \<Rightarrow> string"
    \<comment> \<open>\<open>String(d)\<close> for a \<open>Date\<close>\<close>
  locale_compare :: "string \<Rightarrow> string \<Rightarrow> int"
    \<comment> \<open>\<open>a.localeCompare(b)\<close> on strings\<close>

subsection \<open>Loops and callbacks that may raise\<close>

text \<open>A loop whose body may raise (\<open>forEach\<close>, \<open>for ... of\<close>).\<close>

fun forEach :: "('s \<Rightarrow> 'a \<Rightarrow> error + 's) \<Rightarrow> 's \<Rightarrow> 'a list \<Rightarrow> error + 's" where
  "forEach f s [] = Inr s"
| "forEach f s (x # xs) =
     (case f s x of
        Inl e \<Rightarrow> Inl e
      | Inr s' \<Rightarrow> forEach f s' xs)"

text \<open>The results of a list of computations done in order; the first exception ends
  them (\<open>map\<close> with a callback that may raise).\<close>

fun collect :: "(error + 'a) list \<Rightarrow> error + 'a list" where
  "collect [] = Inr []"
| "collect (r # rs) =
     (case r of
        Inl e \<Rightarrow> Inl e
      | Inr x \<Rightarrow> (case collect rs of Inl e \<Rightarrow> Inl e | Inr xs \<Rightarrow> Inr (x # xs)))"

text \<open>\<open>xs.filter(p)\<close> and \<open>xs.some(p)\<close> with a callback that may raise; \<open>some\<close> stops at
  the first element that passes.\<close>

fun filter_checked :: "('a \<Rightarrow> error + bool) \<Rightarrow> 'a list \<Rightarrow> error + 'a list" where
  "filter_checked p [] = Inr []"
| "filter_checked p (x # xs) =
     (case p x of
        Inl e \<Rightarrow> Inl e
      | Inr keep \<Rightarrow>
          (case filter_checked p xs of
             Inl e \<Rightarrow> Inl e
           | Inr ys \<Rightarrow> Inr (if keep then x # ys else ys)))"

fun some_checked :: "('a \<Rightarrow> error + bool) \<Rightarrow> 'a list \<Rightarrow> error + bool" where
  "some_checked p [] = Inr False"
| "some_checked p (x # xs) =
     (case p x of
        Inl e \<Rightarrow> Inl e
      | Inr found \<Rightarrow> if found then Inr True else some_checked p xs)"

subsection \<open>Dates\<close>

text \<open>A \<open>Date\<close> object, by its time value (\<open>None\<close> is \<open>NaN\<close>, the invalid date). \<open>TimeClip\<close>
  keeps the instants a \<open>Date\<close> can hold; \<open>getTime\<close> reads a time value.\<close>

type_synonym date = "int option"

definition MAX_TIME :: int where
  "MAX_TIME = 8640000000000000"

definition time_clip :: "int \<Rightarrow> int option" where
  "time_clip t = (if \<bar>t\<bar> \<le> MAX_TIME then Some t else None)"

definition getTime :: "date \<Rightarrow> int option" where
  "getTime d = (case d of None \<Rightarrow> None | Some t \<Rightarrow> time_clip t)"

text \<open>Comparisons and sums of numbers that may be \<open>NaN\<close>: a comparison with \<open>NaN\<close> is
  false, a sum with \<open>NaN\<close> is \<open>NaN\<close>.\<close>

definition nan_le :: "int option \<Rightarrow> int option \<Rightarrow> bool" where
  "nan_le a b = (case (a, b) of (Some x, Some y) \<Rightarrow> x \<le> y | _ \<Rightarrow> False)"

definition nan_less :: "int option \<Rightarrow> int option \<Rightarrow> bool" where
  "nan_less a b = (case (a, b) of (Some x, Some y) \<Rightarrow> x < y | _ \<Rightarrow> False)"

definition nan_plus :: "int option \<Rightarrow> int \<Rightarrow> int option" where
  "nan_plus a k = (case a of None \<Rightarrow> None | Some x \<Rightarrow> Some (x + k))"

subsection \<open>Conversion to a string\<close>

fun join_comma :: "string list \<Rightarrow> string" where
  "join_comma [] = []"
| "join_comma [s] = s"
| "join_comma (s # t # ss) = s @ '','' @ join_comma (t # ss)"

text \<open>
  \<open>String(v)\<close>, and the conversion of \<open>v\<close> in a template literal or to a property key. An
  array is joined (\<open>null\<close> and \<open>undefined\<close> elements give the empty string). An object
  takes \<open>toString\<close> from \<open>Object.prototype\<close>, unless it has a property of that name of its
  own: the values of the model are data, that property is not a function, \<open>valueOf\<close> gives
  no primitive either, and the conversion raises a \<open>TypeError\<close>.
\<close>

fun js_String :: "platform \<Rightarrow> jsval \<Rightarrow> error + string" where
  "js_String P JUndefined = Inr ''undefined''"
| "js_String P JNull = Inr ''null''"
| "js_String P (JBool b) = Inr (if b then ''true'' else ''false'')"
| "js_String P (JNum n) = Inr (num_string P n)"
| "js_String P (JStr s) = Inr s"
| "js_String P (JDate d) = Inr (date_string P (getTime d))"
| "js_String P (JArr xs) =
     (case collect (map (\<lambda>x. if x = JNull \<or> x = JUndefined then Inr []
                              else js_String P x) xs) of
        Inl e \<Rightarrow> Inl e
      | Inr ss \<Rightarrow> Inr (join_comma ss))"
| "js_String P (JObj fs) =
     (if map_of fs ''toString'' \<noteq> None then Inl TypeError else Inr ''[object Object]'')"

text \<open>A template literal: the pieces are converted from left to right.\<close>

definition template :: "(error + string) list \<Rightarrow> error + string" where
  "template pieces = (case collect pieces of Inl e \<Rightarrow> Inl e | Inr ss \<Rightarrow> Inr (concat ss))"

subsection \<open>Strings\<close>

definition is_space :: "char \<Rightarrow> bool" where
  "is_space c = (c = CHR '' '' \<or> c = CHR 0x09 \<or> c = CHR 0x0A \<or> c = CHR 0x0B
                 \<or> c = CHR 0x0C \<or> c = CHR 0x0D)"

definition trim :: "string \<Rightarrow> string" where
  "trim s = rev (dropWhile is_space (rev (dropWhile is_space s)))"

definition upper_char :: "char \<Rightarrow> char" where
  "upper_char c =
     (if c = CHR ''a'' then CHR ''A'' else if c = CHR ''b'' then CHR ''B''
      else if c = CHR ''c'' then CHR ''C'' else if c = CHR ''d'' then CHR ''D''
      else if c = CHR ''e'' then CHR ''E'' else if c = CHR ''f'' then CHR ''F''
      else if c = CHR ''g'' then CHR ''G'' else if c = CHR ''h'' then CHR ''H''
      else if c = CHR ''i'' then CHR ''I'' else if c = CHR ''j'' then CHR ''J''
      else if c = CHR ''k'' then CHR ''K'' else if c = CHR ''l'' then CHR ''L''
      else if c = CHR ''m'' then CHR ''M'' else if c = CHR ''n'' then CHR ''N''
      else if c = CHR ''o'' then CHR ''O'' else if c = CHR ''p'' then CHR ''P''
      else if c = CHR ''q'' then CHR ''Q'' else if c = CHR ''r'' then CHR ''R''
      else if c = CHR ''s'' then CHR ''S'' else if c = CHR ''t'' then CHR ''T''
      else if c = CHR ''u'' then CHR ''U'' else if c = CHR ''v'' then CHR ''V''
      else if c = CHR ''w'' then CHR ''W'' else if c = CHR ''x'' then CHR ''X''
      else if c = CHR ''y'' then CHR ''Y'' else if c = CHR ''z'' then CHR ''Z''
      else c)"

definition lower_char :: "char \<Rightarrow> char" where
  "lower_char c =
     (if c = CHR ''A'' then CHR ''a'' else if c = CHR ''B'' then CHR ''b''
      else if c = CHR ''C'' then CHR ''c'' else if c = CHR ''D'' then CHR ''d''
      else if c = CHR ''E'' then CHR ''e'' else if c = CHR ''F'' then CHR ''f''
      else if c = CHR ''G'' then CHR ''g'' else if c = CHR ''H'' then CHR ''h''
      else if c = CHR ''I'' then CHR ''i'' else if c = CHR ''J'' then CHR ''j''
      else if c = CHR ''K'' then CHR ''k'' else if c = CHR ''L'' then CHR ''l''
      else if c = CHR ''M'' then CHR ''m'' else if c = CHR ''N'' then CHR ''n''
      else if c = CHR ''O'' then CHR ''o'' else if c = CHR ''P'' then CHR ''p''
      else if c = CHR ''Q'' then CHR ''q'' else if c = CHR ''R'' then CHR ''r''
      else if c = CHR ''S'' then CHR ''s'' else if c = CHR ''T'' then CHR ''t''
      else if c = CHR ''U'' then CHR ''u'' else if c = CHR ''V'' then CHR ''v''
      else if c = CHR ''W'' then CHR ''w'' else if c = CHR ''X'' then CHR ''x''
      else if c = CHR ''Y'' then CHR ''y'' else if c = CHR ''Z'' then CHR ''z''
      else c)"

definition toUpperCase :: "string \<Rightarrow> string" where
  "toUpperCase s = map upper_char s"

definition toLowerCase :: "string \<Rightarrow> string" where
  "toLowerCase s = map lower_char s"

text \<open>\<open>s.split(sep)\<close> for a one-character separator: never the empty list.\<close>

fun split_on :: "char \<Rightarrow> string \<Rightarrow> string list" where
  "split_on sep [] = [[]]"
| "split_on sep (c # cs) =
     (if c = sep then [] # split_on sep cs
      else (case split_on sep cs of
              p # ps \<Rightarrow> (c # p) # ps
            | [] \<Rightarrow> [[c]]))"

section \<open>TimeMath (\<open>server/utils/time.js\<close>)\<close>

definition MS_IN_HOUR :: int where
  "MS_IN_HOUR = 60 * 60 * 1000"

definition MS_IN_DAY :: int where
  "MS_IN_DAY = 24 * MS_IN_HOUR"

definition js_trunc :: "rat \<Rightarrow> int" where
  "js_trunc n = (if 0 \<le> n then \<lfloor>n\<rfloor> else \<lceil>n\<rceil>)"

text \<open>The time value of \<open>new Date(value)\<close> for one argument: a \<open>Date\<close> is copied, a string
  is parsed, an array or an object is converted to a string (which may raise) and
  parsed, anything else is taken as a number of milliseconds (\<open>TimeClip\<close> refuses a
  number beyond the range and cuts the fraction of one within it).\<close>

fun new_Date :: "platform \<Rightarrow> jsval \<Rightarrow> error + date" where
  "new_Date P (JDate d) = Inr (getTime d)"
| "new_Date P (JStr s) = Inr (getTime (date_parse P s))"
| "new_Date P (JNum n) =
     Inr (if \<bar>n\<bar> \<le> of_int MAX_TIME then Some (js_trunc n) else None)"
| "new_Date P (JBool b) = Inr (Some (if b then 1 else 0))"
| "new_Date P JNull = Inr (Some 0)"
| "new_Date P JUndefined = Inr None"
| "new_Date P (JArr xs) =
     (case js_String P (JArr xs) of
        Inl e \<Rightarrow> Inl e
      | Inr s \<Rightarrow> Inr (getTime (date_parse P s)))"
| "new_Date P (JObj fs) =
     (case js_String P (JObj fs) of
        Inl e \<Rightarrow> Inl e
      | Inr s \<Rightarrow> Inr (getTime (date_parse P s)))"

text \<open>\<open>toDate\<close> returns \<open>null\<close> (\<open>None\<close>) or a valid \<open>Date\<close> (its time in milliseconds).\<close>

definition toDate :: "platform \<Rightarrow> jsval \<Rightarrow> error + int option" where
  "toDate P v =
     (if \<not> truthy v then Inr None
      else (case v of JDate d \<Rightarrow> Inr (getTime d) | _ \<Rightarrow> new_Date P v))"

text \<open>A \<open>Date\<close> or \<open>null\<close> as a value.\<close>

definition date_val :: "date option \<Rightarrow> jsval" where
  "date_val d = (case d of None \<Rightarrow> JNull | Some t \<Rightarrow> JDate t)"

text \<open>What \<open>toDate\<close> returns, as a \<open>Date\<close> or \<open>null\<close>.\<close>

definition valid_date :: "int option \<Rightarrow> date option" where
  "valid_date r = (case r of None \<Rightarrow> None | Some t \<Rightarrow> Some (Some t))"

definition parse_int_or_0 :: "platform \<Rightarrow> string \<Rightarrow> int" where
  "parse_int_or_0 P s = (case parse_int P s of None \<Rightarrow> 0 | Some n \<Rightarrow> n)"

text \<open>\<open>combineDateTime\<close> returns \<open>null\<close> or a \<open>Date\<close>, which is invalid when \<open>setHours\<close>
  leaves the range of \<open>Date\<close>.\<close>

definition combineDateTime :: "platform \<Rightarrow> jsval \<Rightarrow> jsval \<Rightarrow> error + date option" where
  "combineDateTime P dateValue timeValue =
     (if \<not> truthy dateValue \<and> \<not> truthy timeValue then Inr None
      else if (case timeValue of JStr s \<Rightarrow> s \<noteq> [] \<and> CHR ''T'' \<in> set s | _ \<Rightarrow> False)
        then (case toDate P timeValue of Inl e \<Rightarrow> Inl e | Inr r \<Rightarrow> Inr (valid_date r))
      else (case toDate P dateValue of
              Inl e \<Rightarrow> Inl e
            | Inr None \<Rightarrow>
                (case toDate P timeValue of Inl e \<Rightarrow> Inl e | Inr r \<Rightarrow> Inr (valid_date r))
            | Inr (Some baseDate) \<Rightarrow>
                if \<not> truthy timeValue then Inr (Some (Some baseDate))
                else
                  let timeString = (case timeValue of JStr s \<Rightarrow> s | _ \<Rightarrow> []);
                      parts = split_on CHR '':'' timeString;
                      hours = (case parts of h # _ \<Rightarrow> h | [] \<Rightarrow> ''0'');
                      minutes = (case parts of _ # m # _ \<Rightarrow> m | _ \<Rightarrow> ''0'')
                  in Inr (Some (getTime (set_hours P baseDate (parse_int_or_0 P hours)
                                                             (parse_int_or_0 P minutes))))))"

text \<open>A range: each end is \<open>null\<close> or a \<open>Date\<close>.\<close>

record range =
  r_start :: "date option"
  r_end :: "date option"

definition normalizeRange :: "platform \<Rightarrow> jsval \<Rightarrow> jsval \<Rightarrow> error + range" where
  "normalizeRange P start end' =
     (case toDate P start of
        Inl e \<Rightarrow> Inl e
      | Inr startDate \<Rightarrow>
          (case toDate P end' of
             Inl e \<Rightarrow> Inl e
           | Inr endDate \<Rightarrow>
               (case (startDate, endDate) of
                  (Some s, Some e) \<Rightarrow>
                    if e \<le> s
                    then Inr \<lparr>r_start = Some (Some s), r_end = Some (time_clip (e + MS_IN_DAY))\<rparr>
                    else Inr \<lparr>r_start = Some (Some s), r_end = Some (Some e)\<rparr>
                | _ \<Rightarrow> Inr \<lparr>r_start = None, r_end = None\<rparr>)))"

text \<open>\<open>hoursBetween\<close>: the difference is \<open>NaN\<close>, and the result 0, when an end of the
  range is an invalid \<open>Date\<close>.\<close>

definition hoursBetween :: "platform \<Rightarrow> jsval \<Rightarrow> jsval \<Rightarrow> error + rat" where
  "hoursBetween P start end' =
     (case normalizeRange P start end' of
        Inl e \<Rightarrow> Inl e
      | Inr normalized \<Rightarrow>
          (case (r_start normalized, r_end normalized) of
             (Some s, Some e) \<Rightarrow>
               (case (getTime s, getTime e) of
                  (Some startMs, Some endMs) \<Rightarrow>
                    Inr (of_int (endMs - startMs) / of_int MS_IN_HOUR)
                | _ \<Rightarrow> Inr 0)
           | _ \<Rightarrow> Inr 0))"

text \<open>A block as \<open>overlaps\<close> reads it: an object with a \<open>start\<close> and an \<open>end\<close>, which
  are any values.\<close>

record span =
  sp_start :: jsval
  sp_end :: jsval

text \<open>One round of the callback of \<open>blocks.some\<close>, for a candidate whose normalised range
  has the time values \<open>startB\<close> and \<open>endB\<close>.\<close>

definition block_overlaps :: "platform \<Rightarrow> int option \<Rightarrow> int option \<Rightarrow> span \<Rightarrow> error + bool" where
  "block_overlaps P startB endB blk =
     (case normalizeRange P (sp_start blk) (sp_end blk) of
        Inl e \<Rightarrow> Inl e
      | Inr normalized \<Rightarrow>
          (case (r_start normalized, r_end normalized) of
             (Some dateA, Some dateA') \<Rightarrow>
               let startA = getTime dateA;
                   endA = getTime dateA';
                   endB' = (if nan_le endB startB then nan_plus endB MS_IN_DAY else endB)
               in
               if nan_le endA startA then Inr False
               else Inr (nan_less startA endB' \<and> nan_less startB endA)
           | _ \<Rightarrow> Inr False))"

text \<open>\<open>blocks\<close> is \<open>None\<close> when the caller passes \<open>undefined\<close> (no entry in its \<open>Map\<close>).\<close>

definition overlaps :: "platform \<Rightarrow> span list option \<Rightarrow> jsval \<Rightarrow> jsval \<Rightarrow> error + bool" where
  "overlaps P blocks start end' =
     (case blocks of
        None \<Rightarrow> Inr False
      | Some bs \<Rightarrow>
          if bs = [] then Inr False
          else
            (case normalizeRange P start end' of
               Inl e \<Rightarrow> Inl e
             | Inr candidate \<Rightarrow>
                 (case (r_start candidate, r_end candidate) of
                    (Some dateB, Some dateB') \<Rightarrow>
                      some_checked (block_overlaps P (getTime dateB) (getTime dateB')) bs
                  | _ \<Rightarrow> Inr False)))"

section \<open>Normalizer (\<open>server/utils/data.js\<close>)\<close>

subsection \<open>\<open>Map\<close>: an insertion-ordered association list\<close>

definition map_get :: "('k \<times> 'v) list \<Rightarrow> 'k \<Rightarrow> 'v option" where
  "map_get m k = map_of m k"

text \<open>\<open>m.set(k, v)\<close>: a key that is present keeps its place.\<close>

fun map_set :: "('k \<times> 'v) list \<Rightarrow> 'k \<Rightarrow> 'v \<Rightarrow> ('k \<times> 'v) list" where
  "map_set [] k v = [(k, v)]"
| "map_set ((k', v') # m) k v =
     (if k' = k then (k, v) # m else (k', v') # map_set m k v)"

subsection \<open>Reading a field under several names\<close>

definition DEFAULT_WEEKLY_CAP :: rat where
  "DEFAULT_WEEKLY_CAP = 40"

fun first_own :: "jsval \<Rightarrow> string list \<Rightarrow> jsval option" where
  "first_own obj [] = None"
| "first_own obj (key # keys) =
     (if hasOwnProperty obj key then Some (get_prop obj key) else first_own obj keys)"

definition readField :: "jsval \<Rightarrow> string list \<Rightarrow> jsval" where
  "readField record keys =
     (case (if truthy record then first_own record keys else None) of
        Some v \<Rightarrow> v
      | None \<Rightarrow>
          let fields = (if truthy record then get_prop record ''fields'' else record) in
          if \<not> truthy fields then JUndefined
          else (case first_own fields keys of Some v \<Rightarrow> v | None \<Rightarrow> JUndefined))"

text \<open>\<open>record && record.fields ? record.fields : record\<close>\<close>

definition fields_of :: "jsval \<Rightarrow> jsval" where
  "fields_of record =
     (if truthy record \<and> truthy (get_prop record ''fields'')
      then get_prop record ''fields'' else record)"

subsection \<open>Employees\<close>

record employee =
  e_id :: jsval
  e_name :: jsval
  e_role :: string
  e_status :: string
  e_weeklyCap :: rat

text \<open>\<open>Number.parseFloat(v)\<close> converts \<open>v\<close> to a string first (which may raise); a number
  survives the round trip.\<close>

definition js_parseFloat :: "platform \<Rightarrow> jsval \<Rightarrow> error + rat option" where
  "js_parseFloat P v =
     (case js_String P v of
        Inl e \<Rightarrow> Inl e
      | Inr s \<Rightarrow> Inr (case v of JNum n \<Rightarrow> Some n | _ \<Rightarrow> parse_float P s))"

text \<open>The object that \<open>normalizeEmployees\<close> stores for a record, under its identifier.\<close>

definition employee_of :: "platform \<Rightarrow> jsval \<Rightarrow> jsval \<Rightarrow> error + employee" where
  "employee_of P record employeeId =
     (case js_String P (js_or (readField record [''role'']) (JStr [])) of
        Inl e \<Rightarrow> Inl e
      | Inr roleString \<Rightarrow>
     (case js_String P (js_or (readField record [''status'']) (JStr ''Active'')) of
        Inl e \<Rightarrow> Inl e
      | Inr statusString \<Rightarrow>
     (case js_parseFloat P (readField record [''weekly_cap'', ''weeklyCap'', ''Weekly Cap'']) of
        Inl e \<Rightarrow> Inl e
      | Inr weeklyCapNumber \<Rightarrow>
          Inr \<lparr>e_id = employeeId,
               e_name = js_or (readField record [''name'', ''Name'']) (JStr []),
               e_role = toUpperCase (trim roleString),
               e_status = toLowerCase (trim statusString),
               e_weeklyCap = (case weeklyCapNumber of
                                Some n \<Rightarrow> if n > 0 then n else DEFAULT_WEEKLY_CAP
                              | None \<Rightarrow> DEFAULT_WEEKLY_CAP)\<rparr>)))"

text \<open>The body of \<open>records.forEach\<close>.\<close>

definition add_employee ::
  "platform \<Rightarrow> (jsval \<times> employee) list \<Rightarrow> jsval \<Rightarrow> error + (jsval \<times> employee) list" where
  "add_employee P m record =
     (let id = readField record [''id'', ''employee_id'', ''employeeId''] in
      if \<not> truthy id then Inr m
      else (case employee_of P record id of
              Inl e \<Rightarrow> Inl e
            | Inr employee \<Rightarrow> Inr (map_set m id employee)))"

definition normalizeEmployees ::
  "platform \<Rightarrow> jsval list \<Rightarrow> error + (jsval \<times> employee) list" where
  "normalizeEmployees P records = forEach (add_employee P) [] records"

subsection \<open>Availability windows\<close>

record window =
  w_start :: "date option"
  w_end :: "date option"
  w_preferred :: bool
  w_recordId :: jsval

definition windows_of :: "(jsval \<times> window list) list \<Rightarrow> jsval \<Rightarrow> window list" where
  "windows_of availability employeeId =
     (case map_get availability employeeId of None \<Rightarrow> [] | Some ws \<Rightarrow> ws)"

text \<open>The body of \<open>records.forEach\<close>. A range is kept when both its ends are \<open>Date\<close>
  objects, which an invalid \<open>Date\<close> is too.\<close>

definition add_availability ::
  "platform \<Rightarrow> (jsval \<times> window list) list \<Rightarrow> jsval
     \<Rightarrow> error + (jsval \<times> window list) list" where
  "add_availability P availability record =
     (let fields = fields_of record;
          employeeField = readField fields
            [''employee_id'', ''employee'', ''Employee'', ''employees'', ''Employee ID''];
          employeeIds = (case employeeField of
                           JArr xs \<Rightarrow> filter truthy xs
                         | _ \<Rightarrow> if truthy employeeField then [employeeField] else [])
      in
      if employeeIds = [] then Inr availability
      else
        (case js_String P (js_or (readField fields [''type'', ''Type'']) (JStr ''Available'')) of
           Inl e \<Rightarrow> Inl e
         | Inr typeString \<Rightarrow>
             let type = toLowerCase (trim typeString) in
             if type = ''unavailable'' then Inr availability
             else
               let dateValue = readField fields [''date'', ''Date''];
                   startValue = readField fields [''start_time'', ''start'', ''Start''];
                   endValue = readField fields [''end_time'', ''end'', ''End'']
               in
               (case combineDateTime P dateValue startValue of
                  Inl e \<Rightarrow> Inl e
                | Inr start \<Rightarrow>
               (case combineDateTime P dateValue endValue of
                  Inl e \<Rightarrow> Inl e
                | Inr end' \<Rightarrow>
               (case normalizeRange P (date_val start) (date_val end') of
                  Inl e \<Rightarrow> Inl e
                | Inr normalized \<Rightarrow>
                    if r_start normalized = None \<or> r_end normalized = None
                    then Inr availability
                    else
                      Inr (foldl (\<lambda>av employeeId.
                                    map_set av employeeId
                                      (windows_of av employeeId @
                                       [\<lparr>w_start = r_start normalized,
                                         w_end = r_end normalized,
                                         w_preferred = (type = ''preferred''),
                                         w_recordId =
                                           js_or (get_prop record ''id'')
                                             (js_or (get_prop record ''availability_id'')
                                                    (get_prop record ''availabilityId''))\<rparr>]))
                                 availability employeeIds))))))"

definition normalizeAvailability ::
  "platform \<Rightarrow> jsval list \<Rightarrow> error + (jsval \<times> window list) list" where
  "normalizeAvailability P records = forEach (add_availability P) [] records"

subsection \<open>Shifts\<close>

text \<open>The canonical shift; the \<open>fields\<close> bag it also carries is read by nobody and
  left out.\<close>

record shift =
  s_id :: jsval
  s_roleNeeded :: string
  s_start :: "date option"
  s_end :: "date option"
  s_hours :: rat

text \<open>The callback of \<open>records.map\<close>; \<open>None\<close> is the \<open>null\<close> that \<open>filter(Boolean)\<close>
  removes.\<close>

definition shift_of :: "platform \<Rightarrow> jsval \<Rightarrow> error + shift option" where
  "shift_of P record =
     (let fields = fields_of record;
          id = readField record [''id'', ''shift_id'', ''Shift Id'', ''shiftId'']
      in
      if \<not> truthy id then Inr None
      else
        (case js_String P (js_or (readField fields [''role_needed'', ''role'', ''Role''])
                                 (JStr ''Either'')) of
           Inl e \<Rightarrow> Inl e
         | Inr roleString \<Rightarrow>
             let roleUpper = toUpperCase (trim roleString);
                 roleNeeded = (if roleUpper = ''EITHER'' then [] else roleUpper);
                 dateValue = readField fields [''date'', ''Date''];
                 startValue = readField fields [''start_time'', ''start'', ''Start''];
                 endValue = readField fields [''end_time'', ''end'', ''End'']
             in
             (case combineDateTime P dateValue startValue of
                Inl e \<Rightarrow> Inl e
              | Inr start \<Rightarrow>
             (case combineDateTime P dateValue endValue of
                Inl e \<Rightarrow> Inl e
              | Inr end' \<Rightarrow>
             (case normalizeRange P (date_val start) (date_val end') of
                Inl e \<Rightarrow> Inl e
              | Inr normalized \<Rightarrow>
             (case hoursBetween P (date_val (r_start normalized))
                                  (date_val (r_end normalized)) of
                Inl e \<Rightarrow> Inl e
              | Inr hours \<Rightarrow>
                  Inr (Some \<lparr>s_id = id,
                             s_roleNeeded = roleNeeded,
                             s_start = r_start normalized,
                             s_end = r_end normalized,
                             s_hours = hours\<rparr>)))))))"

definition normalizeShiftRecords :: "platform \<Rightarrow> jsval list \<Rightarrow> error + shift list" where
  "normalizeShiftRecords P records =
     (case collect (map (shift_of P) records) of
        Inl e \<Rightarrow> Inl e
      | Inr found \<Rightarrow> Inr (List.map_filter (\<lambda>s. s) found))"

text \<open>The role matcher that \<open>data.js\<close> exports (``used by scheduler and validator'',
  its comment says; neither calls it).\<close>

definition roleMatches :: "platform \<Rightarrow> jsval \<Rightarrow> jsval \<Rightarrow> error + bool" where
  "roleMatches P empRole roleNeeded =
     (case js_String P (js_or empRole (JStr [])) of
        Inl e \<Rightarrow> Inl e
      | Inr empString \<Rightarrow>
     (case js_String P (js_or roleNeeded (JStr [])) of
        Inl e \<Rightarrow> Inl e
      | Inr neededString \<Rightarrow>
          let e = toUpperCase (trim empString);
              r = toUpperCase (trim neededString)
          in Inr (if r = [] then True
                  else if e = r then True
                  else if r = ''CNA_OR_CMA'' then e = ''CNA'' \<or> e = ''CMA''
                  else False)))"

subsection \<open>Existing assignments\<close>

text \<open>\<open>Object.entries\<close>: every own property once (the order plays no role below).\<close>

function obj_entries :: "(string \<times> jsval) list \<Rightarrow> (string \<times> jsval) list" where
  "obj_entries [] = []"
| "obj_entries ((k, v) # fs) = (k, v) # obj_entries (filter (\<lambda>p. fst p \<noteq> k) fs)"
  by pat_completeness auto
termination
  by (relation "measure length") (auto simp: less_Suc_eq_le)

definition normalizeAssignments :: "jsval \<Rightarrow> (jsval \<times> jsval) list" where
  "normalizeAssignments records =
     (case records of
        JArr rs \<Rightarrow>
          foldl (\<lambda>m record.
                   let shiftId = readField record [''shift_id'', ''shiftId'', ''id''];
                       employeeId = readField record
                                      [''employee_id'', ''employeeId'', ''assigned_employee'']
                   in if truthy shiftId \<and> truthy employeeId
                      then map_set m shiftId employeeId else m)
                [] rs
      | JObj fs \<Rightarrow>
          foldl (\<lambda>m (shiftId, employeeId).
                   if shiftId \<noteq> [] \<and> truthy employeeId
                   then map_set m (JStr shiftId) employeeId else m)
                [] (obj_entries fs)
      | _ \<Rightarrow> [])"

section \<open>Scheduler (\<open>server/scheduler.js\<close>)\<close>

subsection \<open>Role helpers\<close>

definition norm :: "platform \<Rightarrow> jsval \<Rightarrow> error + string" where
  "norm P s =
     (case js_String P (js_or s (JStr [])) of
        Inl e \<Rightarrow> Inl e
      | Inr str \<Rightarrow> Inr (toUpperCase (trim str)))"

definition accepts :: "platform \<Rightarrow> jsval \<Rightarrow> jsval \<Rightarrow> error + bool" where
  "accepts P empRole roleNeeded =
     (case norm P empRole of
        Inl e \<Rightarrow> Inl e
      | Inr e \<Rightarrow>
     (case norm P roleNeeded of
        Inl e' \<Rightarrow> Inl e'
      | Inr r \<Rightarrow>
          Inr (if e = r then True
               else if r = ''CNA_OR_CMA'' then e = ''CNA'' \<or> e = ''CMA''
               else False)))"

subsection \<open>Coverage\<close>

record coverage =
  c_available :: bool
  c_preferred :: bool

text \<open>The test in the callback of \<open>windows.forEach\<close>, for a shift whose start and end
  are \<open>Date\<close> objects.\<close>

definition window_covers :: "window \<Rightarrow> date \<Rightarrow> date \<Rightarrow> bool" where
  "window_covers w shiftStart shiftEnd =
     (case (w_start w, w_end w) of
        (Some windowStart, Some windowEnd) \<Rightarrow>
          let start = getTime windowStart;
              end' = getTime windowEnd;
              shiftStartMs = getTime shiftStart;
              shiftEndMs0 = getTime shiftEnd;
              shiftEndMs = (if nan_le shiftEndMs0 shiftStartMs
                            then nan_plus shiftEndMs0 (24 * 60 * 60 * 1000) else shiftEndMs0)
          in nan_le start shiftStartMs \<and> nan_le shiftEndMs end'
      | _ \<Rightarrow> False)"

definition coverageForShift :: "window list \<Rightarrow> date option \<Rightarrow> date option \<Rightarrow> coverage" where
  "coverageForShift windows shiftStart shiftEnd =
     (case (shiftStart, shiftEnd) of
        (Some start, Some end') \<Rightarrow>
          foldl (\<lambda>c w.
                   if window_covers w start end'
                   then \<lparr>c_available = True,
                        c_preferred = (if w_preferred w then True else c_preferred c)\<rparr>
                   else c)
                \<lparr>c_available = False, c_preferred = False\<rparr> windows
      | _ \<Rightarrow> \<lparr>c_available = False, c_preferred = False\<rparr>)"

subsection \<open>The running state of one pass\<close>

record assignment =
  a_shiftId :: jsval
  a_employeeId :: jsval
  a_reason :: "string option"

record issue =
  i_shiftId :: jsval
  i_employeeId :: "jsval option"
  i_reason :: string

text \<open>A block of the scheduler or the validator: the start and the end of a shift, and
  its identifier.\<close>

record block =
  b_start :: "date option"
  b_end :: "date option"
  b_shiftId :: jsval

text \<open>The block as \<open>overlaps\<close> reads it.\<close>

definition block_span :: "block \<Rightarrow> span" where
  "block_span b = \<lparr>sp_start = date_val (b_start b), sp_end = date_val (b_end b)\<rparr>"

record sched_state =
  st_assignments :: "assignment list"
  st_issues :: "issue list"
  st_totals :: "(jsval \<times> rat) list"
  st_blocks :: "(jsval \<times> block list) list"

definition empty_state :: sched_state where
  "empty_state = \<lparr>st_assignments = [], st_issues = [], st_totals = [], st_blocks = []\<rparr>"

text \<open>\<open>totals.get(id) || 0\<close> and \<open>blocks.get(id) || []\<close>\<close>

definition total_of :: "(jsval \<times> rat) list \<Rightarrow> jsval \<Rightarrow> rat" where
  "total_of totals employeeId =
     (case map_get totals employeeId of None \<Rightarrow> 0 | Some h \<Rightarrow> h)"

definition blocks_of :: "(jsval \<times> block list) list \<Rightarrow> jsval \<Rightarrow> block list" where
  "blocks_of blocks employeeId =
     (case map_get blocks employeeId of None \<Rightarrow> [] | Some bs \<Rightarrow> bs)"

definition trackAssignment :: "jsval \<Rightarrow> shift \<Rightarrow> sched_state \<Rightarrow> sched_state" where
  "trackAssignment employeeId shift st =
     (let hours = s_hours shift in
      st\<lparr>st_totals := map_set (st_totals st) employeeId
                          (total_of (st_totals st) employeeId + hours),
         st_blocks := map_set (st_blocks st) employeeId
                          (blocks_of (st_blocks st) employeeId @
                           [\<lparr>b_start = s_start shift,
                             b_end = s_end shift,
                             b_shiftId = s_id shift\<rparr>])\<rparr>)"

text \<open>\<open>assignments.push({shiftId, employeeId: null, reason}); issues.push({shiftId, reason})\<close>\<close>

definition unfilled :: "sched_state \<Rightarrow> shift \<Rightarrow> string \<Rightarrow> sched_state" where
  "unfilled st shift reason =
     st\<lparr>st_assignments := st_assignments st @
          [\<lparr>a_shiftId = s_id shift, a_employeeId = JNull, a_reason = Some reason\<rparr>],
        st_issues := st_issues st @
          [\<lparr>i_shiftId = s_id shift, i_employeeId = None, i_reason = reason\<rparr>]\<rparr>"

text \<open>\<open>assignments.push({shiftId, employeeId}); trackAssignment(employeeId, shift)\<close>\<close>

definition commit :: "sched_state \<Rightarrow> jsval \<Rightarrow> shift \<Rightarrow> sched_state" where
  "commit st employeeId shift =
     trackAssignment employeeId shift
       (st\<lparr>st_assignments := st_assignments st @
             [\<lparr>a_shiftId = s_id shift, a_employeeId = employeeId, a_reason = None\<rparr>]\<rparr>)"

definition reason_missing_time :: string where
  "reason_missing_time = ''Shift is missing start or end time.''"

definition reason_released :: string where
  "reason_released = ''Existing assignment violates scheduling rules and was released.''"

definition reason_no_role :: "string \<Rightarrow> string" where
  "reason_no_role needed =
     ''No employees available for role '' @ (if needed = [] then ''Either'' else needed) @ ''.''"

definition reason_no_window :: string where
  "reason_no_window = ''No employees are available during the shift window.''"

definition reason_cap :: string where
  "reason_cap = ''All available employees would exceed their weekly cap.''"

definition reason_conflict :: string where
  "reason_conflict = ''All available employees have conflicting assignments.''"

subsection \<open>Keeping an existing assignment\<close>

text \<open>The conjunction \<open>canAssign\<close>, which stops at its first false operand.\<close>

definition canAssign ::
  "platform \<Rightarrow> (jsval \<times> employee) list \<Rightarrow> (jsval \<times> window list) list \<Rightarrow> sched_state
     \<Rightarrow> jsval \<Rightarrow> shift \<Rightarrow> string \<Rightarrow> error + bool" where
  "canAssign P employeeMap availabilityMap st existingEmployeeId shift needed =
     (case map_get employeeMap existingEmployeeId of
        None \<Rightarrow> Inr False
      | Some employee \<Rightarrow>
          let coverage = windows_of availabilityMap existingEmployeeId;
              coverageResult = coverageForShift coverage (s_start shift) (s_end shift);
              currentHours = total_of (st_totals st) existingEmployeeId
          in
          if e_status employee \<noteq> ''active'' then Inr False
          else
            (case accepts P (JStr (e_role employee)) (JStr needed) of
               Inl e \<Rightarrow> Inl e
             | Inr roleOk \<Rightarrow>
                 if \<not> roleOk then Inr False
                 else if \<not> c_available coverageResult then Inr False
                 else if \<not> currentHours + s_hours shift \<le> e_weeklyCap employee then Inr False
                 else
                   (case overlaps P
                           (map_option (map block_span)
                              (map_get (st_blocks st) existingEmployeeId))
                           (date_val (s_start shift)) (date_val (s_end shift)) of
                      Inl e \<Rightarrow> Inl e
                    | Inr conflict \<Rightarrow> Inr (\<not> conflict))))"

subsection \<open>A fresh assignment\<close>

record entry =
  c_employee :: employee
  c_coverage :: coverage

definition activeEmployees ::
  "platform \<Rightarrow> (jsval \<times> employee) list \<Rightarrow> string \<Rightarrow> error + employee list" where
  "activeEmployees P employeeMap needed =
     filter_checked
       (\<lambda>employee. if e_status employee = ''active''
                    then accepts P (JStr (e_role employee)) (JStr needed)
                    else Inr False)
       (map snd employeeMap)"

definition availabilityCandidates ::
  "(jsval \<times> window list) list \<Rightarrow> shift \<Rightarrow> employee list \<Rightarrow> entry list" where
  "availabilityCandidates availabilityMap shift active =
     filter (\<lambda>entry. c_available (c_coverage entry))
       (map (\<lambda>employee.
               \<lparr>c_employee = employee,
                c_coverage = coverageForShift (windows_of availabilityMap (e_id employee))
                               (s_start shift) (s_end shift)\<rparr>)
            active)"

definition withinCap :: "sched_state \<Rightarrow> shift \<Rightarrow> entry list \<Rightarrow> entry list" where
  "withinCap st shift candidates =
     filter (\<lambda>entry.
               let hoursSoFar = total_of (st_totals st) (e_id (c_employee entry))
               in hoursSoFar + s_hours shift \<le> e_weeklyCap (c_employee entry))
            candidates"

definition withoutConflicts ::
  "platform \<Rightarrow> sched_state \<Rightarrow> shift \<Rightarrow> entry list \<Rightarrow> error + entry list" where
  "withoutConflicts P st shift candidates =
     filter_checked
       (\<lambda>entry.
          let employeeBlocks = blocks_of (st_blocks st) (e_id (c_employee entry))
          in (case overlaps P (Some (map block_span employeeBlocks))
                     (date_val (s_start shift)) (date_val (s_end shift)) of
                Inl e \<Rightarrow> Inl e
              | Inr conflict \<Rightarrow> Inr (\<not> conflict)))
       candidates"

text \<open>
  The comparator of the tie-break. \<open>localeCompare\<close> exists on strings only: for a name
  that is truthy and not a string the call raises. It converts its argument to a string.
\<close>

definition compareCandidates ::
  "platform \<Rightarrow> sched_state \<Rightarrow> entry \<Rightarrow> entry \<Rightarrow> error + rat" where
  "compareCandidates P st a b =
     (if c_preferred (c_coverage a) \<noteq> c_preferred (c_coverage b)
      then Inr (if c_preferred (c_coverage a) then - 1 else 1)
      else
        let hoursA = total_of (st_totals st) (e_id (c_employee a));
            hoursB = total_of (st_totals st) (e_id (c_employee b))
        in
        if hoursA \<noteq> hoursB then Inr (hoursA - hoursB)
        else
          let assignsA = length (blocks_of (st_blocks st) (e_id (c_employee a)));
              assignsB = length (blocks_of (st_blocks st) (e_id (c_employee b)))
          in
          if assignsA \<noteq> assignsB then Inr (of_nat assignsA - of_nat assignsB)
          else
            (case js_or (e_name (c_employee a)) (JStr []) of
               JStr nameA \<Rightarrow>
                 (case js_String P (js_or (e_name (c_employee b)) (JStr [])) of
                    Inl e \<Rightarrow> Inl e
                  | Inr nameB \<Rightarrow> Inr (of_int (locale_compare P nameA nameB)))
             | _ \<Rightarrow> Inl TypeError))"

text \<open>
  \<open>Array.prototype.sort\<close> is stable. It is modelled as an insertion sort that moves each
  element in front of the first one it compares below; an exception of the comparator
  ends the sort. Which pairs an engine compares is its own choice: the result is the same
  for every choice when the comparator is an ordering and does not raise.
\<close>

fun insert_sorted :: "('a \<Rightarrow> 'a \<Rightarrow> error + rat) \<Rightarrow> 'a \<Rightarrow> 'a list \<Rightarrow> error + 'a list" where
  "insert_sorted cmp x [] = Inr [x]"
| "insert_sorted cmp x (y # ys) =
     (case cmp x y of
        Inl e \<Rightarrow> Inl e
      | Inr c \<Rightarrow>
          if c < 0 then Inr (x # y # ys)
          else (case insert_sorted cmp x ys of
                  Inl e \<Rightarrow> Inl e
                | Inr zs \<Rightarrow> Inr (y # zs)))"

definition js_sort :: "('a \<Rightarrow> 'a \<Rightarrow> error + rat) \<Rightarrow> 'a list \<Rightarrow> error + 'a list" where
  "js_sort cmp xs = forEach (\<lambda>sorted x. insert_sorted cmp x sorted) [] xs"

definition assignFresh ::
  "platform \<Rightarrow> (jsval \<times> employee) list \<Rightarrow> (jsval \<times> window list) list \<Rightarrow> sched_state
     \<Rightarrow> shift \<Rightarrow> string \<Rightarrow> error + sched_state" where
  "assignFresh P employeeMap availabilityMap st shift needed =
     (case activeEmployees P employeeMap needed of
        Inl e \<Rightarrow> Inl e
      | Inr active \<Rightarrow>
          if active = [] then Inr (unfilled st shift (reason_no_role needed))
          else
            let candidates = availabilityCandidates availabilityMap shift active in
            if candidates = [] then Inr (unfilled st shift reason_no_window)
            else
              let capped = withinCap st shift candidates in
              if capped = [] then Inr (unfilled st shift reason_cap)
              else
                (case withoutConflicts P st shift capped of
                   Inl e \<Rightarrow> Inl e
                 | Inr free \<Rightarrow>
                     if free = [] then Inr (unfilled st shift reason_conflict)
                     else
                       (case js_sort (compareCandidates P st) free of
                          Inl e \<Rightarrow> Inl e
                        | Inr [] \<Rightarrow> Inl TypeError
                        | Inr (first # _) \<Rightarrow>
                            Inr (commit st (e_id (c_employee first)) shift))))"

subsection \<open>One shift, and the pass\<close>

text \<open>\<open>norm(shift.roleNeeded || shift.role_needed || "")\<close>: a canonical shift has no
  property \<open>role_needed\<close>.\<close>

definition needed_role :: "platform \<Rightarrow> shift \<Rightarrow> error + string" where
  "needed_role P shift =
     norm P (js_or (js_or (JStr (s_roleNeeded shift)) JUndefined) (JStr []))"

definition process_shift ::
  "platform \<Rightarrow> (jsval \<times> employee) list \<Rightarrow> (jsval \<times> window list) list
     \<Rightarrow> (jsval \<times> jsval) list \<Rightarrow> sched_state \<Rightarrow> shift \<Rightarrow> error + sched_state" where
  "process_shift P employeeMap availabilityMap existing st shift =
     (let existingEmployeeId = (case map_get existing (s_id shift) of
                                  None \<Rightarrow> JUndefined | Some e \<Rightarrow> e)
      in
      if s_start shift = None \<or> s_end shift = None
      then Inr (unfilled st shift reason_missing_time)
      else
        (case needed_role P shift of
           Inl e \<Rightarrow> Inl e
         | Inr needed \<Rightarrow>
             if truthy existingEmployeeId
             then
               (case canAssign P employeeMap availabilityMap st existingEmployeeId shift
                       needed of
                  Inl e \<Rightarrow> Inl e
                | Inr ok \<Rightarrow>
                    if ok then Inr (commit st existingEmployeeId shift)
                    else
                      assignFresh P employeeMap availabilityMap
                        (st\<lparr>st_issues := st_issues st @
                              [\<lparr>i_shiftId = s_id shift,
                                i_employeeId = Some existingEmployeeId,
                                i_reason = reason_released\<rparr>]\<rparr>)
                        shift needed)
             else assignFresh P employeeMap availabilityMap st shift needed))"

text \<open>\<open>shifts.forEach\<close>, from the empty state.\<close>

definition schedule_pass ::
  "platform \<Rightarrow> (jsval \<times> employee) list \<Rightarrow> (jsval \<times> window list) list
     \<Rightarrow> (jsval \<times> jsval) list \<Rightarrow> shift list \<Rightarrow> error + sched_state" where
  "schedule_pass P employeeMap availabilityMap existing shifts =
     forEach (process_shift P employeeMap availabilityMap existing) empty_state shifts"

record summary =
  t_employeeId :: jsval
  t_name :: jsval
  t_role :: string
  t_weeklyCap :: rat
  t_hours :: rat
  t_assignments :: nat

text \<open>\<open>Number(x.toFixed(2))\<close>\<close>

definition round2 :: "rat \<Rightarrow> rat" where
  "round2 x = (if 0 \<le> x then of_int \<lfloor>x * 100 + 1 / 2\<rfloor> / 100
               else - (of_int \<lfloor>- x * 100 + 1 / 2\<rfloor> / 100))"

text \<open>The summary object, as the list of its properties in the order in which they are
  set. The identifier is converted to a property key, which may raise; setting
  \<open>__proto__\<close> adds no property.\<close>

definition summarizeTotals ::
  "platform \<Rightarrow> (jsval \<times> employee) list \<Rightarrow> (jsval \<times> rat) list \<Rightarrow> (jsval \<times> block list) list
     \<Rightarrow> error + (string \<times> summary) list" where
  "summarizeTotals P employeeMap totals blocks =
     forEach (\<lambda>summary (id, employee).
                case js_String P id of
                  Inl e \<Rightarrow> Inl e
                | Inr key \<Rightarrow>
                    Inr (if key = ''__proto__'' then summary
                         else map_set summary key
                                \<lparr>t_employeeId = id,
                                 t_name = e_name employee,
                                 t_role = e_role employee,
                                 t_weeklyCap = e_weeklyCap employee,
                                 t_hours = round2 (total_of totals id),
                                 t_assignments = length (blocks_of blocks id)\<rparr>))
             [] employeeMap"

record schedule_result =
  assignments :: "assignment list"
  issues :: "issue list"
  totalsByEmployee :: "(string \<times> summary) list"

definition schedule ::
  "platform \<Rightarrow> jsval list \<Rightarrow> jsval list \<Rightarrow> jsval list \<Rightarrow> jsval \<Rightarrow> error + schedule_result" where
  "schedule P shiftTemplate employees availability existingAssignments =
     (case normalizeEmployees P employees of
        Inl e \<Rightarrow> Inl e
      | Inr employeeMap \<Rightarrow>
     (case normalizeAvailability P availability of
        Inl e \<Rightarrow> Inl e
      | Inr availabilityMap \<Rightarrow>
     (case normalizeShiftRecords P shiftTemplate of
        Inl e \<Rightarrow> Inl e
      | Inr shifts \<Rightarrow>
          let existing = normalizeAssignments existingAssignments in
          (case schedule_pass P employeeMap availabilityMap existing shifts of
             Inl e \<Rightarrow> Inl e
           | Inr st \<Rightarrow>
               (case summarizeTotals P employeeMap (st_totals st) (st_blocks st) of
                  Inl e \<Rightarrow> Inl e
                | Inr totals \<Rightarrow>
                    Inr \<lparr>assignments = st_assignments st,
                         issues = st_issues st,
                         totalsByEmployee = totals\<rparr>)))))"

section \<open>Validator (\<open>server/validator.js\<close>)\<close>

datatype error_type =
    missing_shift
  | missing_employee
  | inactive_employee
  | role_mismatch
  | availability
  | weekly_cap
  | overlap

text \<open>A validation error; \<open>v_shiftId\<close> is \<open>JUndefined\<close> where the error has no shift.\<close>

record verror =
  v_type :: error_type
  v_shiftId :: jsval
  v_employeeId :: jsval
  v_message :: string

record vstate =
  v_errors :: "verror list"
  hoursByEmployee :: "(jsval \<times> rat) list"
  blocksByEmployee :: "(jsval \<times> block list) list"

text \<open>The test in the callback of \<open>windows.some\<close>.\<close>

definition window_covers_shift :: "window \<Rightarrow> shift \<Rightarrow> bool" where
  "window_covers_shift w shift =
     (case (w_start w, w_end w, s_start shift, s_end shift) of
        (Some windowStart, Some windowEnd, Some shiftStartDate, Some shiftEndDate) \<Rightarrow>
          let start = getTime windowStart;
              end' = getTime windowEnd;
              shiftStart = getTime shiftStartDate;
              shiftEnd0 = getTime shiftEndDate;
              shiftEnd = (if nan_le shiftEnd0 shiftStart
                          then nan_plus shiftEnd0 (24 * 60 * 60 * 1000) else shiftEnd0)
          in nan_le start shiftStart \<and> nan_le shiftEnd end'
      | _ \<Rightarrow> False)"

text \<open>An error, once its message has been built: the template literal of the message
  converts the values in it to strings, which may raise.\<close>

definition report ::
  "error_type \<Rightarrow> jsval \<Rightarrow> jsval \<Rightarrow> (error + string) list \<Rightarrow> error + verror list" where
  "report type shiftId employeeId pieces =
     (case template pieces of
        Inl e \<Rightarrow> Inl e
      | Inr message \<Rightarrow>
          Inr [\<lparr>v_type = type, v_shiftId = shiftId, v_employeeId = employeeId,
                v_message = message\<rparr>])"

text \<open>The body of \<open>assignments.forEach\<close>. The assignment is read as it is given: when it
  is \<open>null\<close> or \<open>undefined\<close>, reading its \<open>shiftId\<close> raises.\<close>

definition check_assignment ::
  "platform \<Rightarrow> (jsval \<times> employee) list \<Rightarrow> (jsval \<times> window list) list
     \<Rightarrow> (jsval \<times> shift) list \<Rightarrow> vstate \<Rightarrow> jsval \<Rightarrow> error + vstate" where
  "check_assignment P employeeMap availabilityMap shiftMap vs assignment =
     (case prop_checked assignment ''shiftId'' of
        Inl e \<Rightarrow> Inl e
      | Inr shiftId0 \<Rightarrow>
          let shiftId = js_or shiftId0 (get_prop assignment ''shift_id'');
              employeeId = js_or (get_prop assignment ''employeeId'')
                                 (get_prop assignment ''employee_id'')
          in
          if \<not> truthy shiftId \<or> \<not> truthy employeeId then Inr vs
          else
            (case map_get shiftMap shiftId of
               None \<Rightarrow>
                 (case report missing_shift shiftId employeeId
                         [Inr ''Shift '', js_String P shiftId,
                          Inr '' referenced by assignment was not provided.''] of
                    Inl e \<Rightarrow> Inl e
                  | Inr errs \<Rightarrow> Inr (vs\<lparr>v_errors := v_errors vs @ errs\<rparr>))
             | Some shift \<Rightarrow>
                 (case map_get employeeMap employeeId of
                    None \<Rightarrow>
                      (case report missing_employee shiftId employeeId
                              [Inr ''Employee '', js_String P employeeId,
                               Inr '' referenced by assignment was not provided.''] of
                         Inl e \<Rightarrow> Inl e
                       | Inr errs \<Rightarrow> Inr (vs\<lparr>v_errors := v_errors vs @ errs\<rparr>))
                  | Some employee \<Rightarrow>
                      let who = js_String P (js_or (e_name employee) employeeId);
                          windows = windows_of availabilityMap employeeId;
                          hasCoverage = list_ex (\<lambda>w. window_covers_shift w shift) windows;
                          hours = s_hours shift
                      in
                      (case (if e_status employee \<noteq> ''active''
                             then report inactive_employee shiftId employeeId
                                    [who, Inr '' is not active.'']
                             else Inr []) of
                         Inl e \<Rightarrow> Inl e
                       | Inr inactive \<Rightarrow>
                      (case (if s_roleNeeded shift \<noteq> ''EITHER''
                                \<and> e_role employee \<noteq> s_roleNeeded shift
                             then report role_mismatch shiftId employeeId
                                    [who, Inr '' does not match required role '',
                                     Inr (s_roleNeeded shift), Inr ''.'']
                             else Inr []) of
                         Inl e \<Rightarrow> Inl e
                       | Inr mismatch \<Rightarrow>
                      (case (if \<not> hasCoverage
                             then report availability shiftId employeeId
                                    [who, Inr '' is not available for shift '',
                                     js_String P shiftId, Inr ''.'']
                             else Inr []) of
                         Inl e \<Rightarrow> Inl e
                       | Inr uncovered \<Rightarrow>
                           Inr \<lparr>v_errors = v_errors vs @ inactive @ mismatch @ uncovered,
                                hoursByEmployee =
                                  map_set (hoursByEmployee vs) employeeId
                                    (total_of (hoursByEmployee vs) employeeId + hours),
                                blocksByEmployee =
                                  map_set (blocksByEmployee vs) employeeId
                                    (blocks_of (blocksByEmployee vs) employeeId @
                                     [\<lparr>b_start = s_start shift,
                                       b_end = s_end shift,
                                       b_shiftId = shiftId\<rparr>])\<rparr>))))))"

text \<open>The loop over \<open>hoursByEmployee.entries()\<close>.\<close>

definition cap_errors ::
  "platform \<Rightarrow> (jsval \<times> employee) list \<Rightarrow> (jsval \<times> rat) list \<Rightarrow> error + verror list" where
  "cap_errors P employeeMap hours_by =
     (case collect
        (map (\<lambda>(employeeId, hours).
                case map_get employeeMap employeeId of
                  None \<Rightarrow> Inr []
                | Some employee \<Rightarrow>
                    if hours > e_weeklyCap employee
                    then report weekly_cap JUndefined employeeId
                           [js_String P (js_or (e_name employee) employeeId),
                            Inr '' exceeds weekly cap ('', Inr (to_fixed2 P hours),
                            Inr '' > '', Inr (num_string P (e_weeklyCap employee)),
                            Inr '').'']
                    else Inr [])
             hours_by) of
        Inl e \<Rightarrow> Inl e
      | Inr errs \<Rightarrow> Inr (concat errs))"

text \<open>The pairs \<open>(blocks[i], blocks[j])\<close> with \<open>i < j\<close>, in the order of the two loops.\<close>

fun block_pairs :: "'a list \<Rightarrow> ('a \<times> 'a) list" where
  "block_pairs [] = []"
| "block_pairs (x # xs) = map (Pair x) xs @ block_pairs xs"

text \<open>The error for two blocks that overlap: its \<open>shiftId\<close> is a template literal too.\<close>

definition overlap_report ::
  "platform \<Rightarrow> employee option \<Rightarrow> jsval \<Rightarrow> block \<Rightarrow> block \<Rightarrow> error + verror list" where
  "overlap_report P employee employeeId bi bj =
     (case template [js_String P (b_shiftId bi), Inr '','', js_String P (b_shiftId bj)] of
        Inl e \<Rightarrow> Inl e
      | Inr shiftIds \<Rightarrow>
          report overlap (JStr shiftIds) employeeId
            [js_String P (case employee of Some e \<Rightarrow> e_name e | None \<Rightarrow> employeeId),
             Inr '' has overlapping shifts '', js_String P (b_shiftId bi),
             Inr '' and '', js_String P (b_shiftId bj), Inr ''.''])"

text \<open>The loop over \<open>blocksByEmployee.entries()\<close>.\<close>

definition overlap_errors ::
  "platform \<Rightarrow> (jsval \<times> employee) list \<Rightarrow> (jsval \<times> block list) list
     \<Rightarrow> error + verror list" where
  "overlap_errors P employeeMap blocks_by =
     (case collect
        (map (\<lambda>(employeeId, blocks).
                case collect
                  (map (\<lambda>(bi, bj).
                          case overlaps P (Some [block_span bi])
                                 (date_val (b_start bj)) (date_val (b_end bj)) of
                            Inl e \<Rightarrow> Inl e
                          | Inr conflict \<Rightarrow>
                              if conflict
                              then overlap_report P (map_get employeeMap employeeId)
                                     employeeId bi bj
                              else Inr [])
                       (block_pairs blocks)) of
                  Inl e \<Rightarrow> Inl e
                | Inr errs \<Rightarrow> Inr (concat errs))
             blocks_by) of
        Inl e \<Rightarrow> Inl e
      | Inr errs \<Rightarrow> Inr (concat errs))"

definition validate ::
  "platform \<Rightarrow> jsval list \<Rightarrow> jsval list \<Rightarrow> jsval list \<Rightarrow> jsval list \<Rightarrow> error + verror list" where
  "validate P assignments' shifts employees availability' =
     (case normalizeEmployees P employees of
        Inl e \<Rightarrow> Inl e
      | Inr employeeMap \<Rightarrow>
     (case normalizeAvailability P availability' of
        Inl e \<Rightarrow> Inl e
      | Inr availabilityMap \<Rightarrow>
     (case normalizeShiftRecords P shifts of
        Inl e \<Rightarrow> Inl e
      | Inr canonical \<Rightarrow>
          let shiftMap = foldl (\<lambda>m shift. map_set m (s_id shift) shift) [] canonical in
          (case forEach (check_assignment P employeeMap availabilityMap shiftMap)
                  \<lparr>v_errors = [], hoursByEmployee = [], blocksByEmployee = []\<rparr>
                  assignments' of
             Inl e \<Rightarrow> Inl e
           | Inr vs \<Rightarrow>
               (case cap_errors P employeeMap (hoursByEmployee vs) of
                  Inl e \<Rightarrow> Inl e
                | Inr capped \<Rightarrow>
                    (case overlap_errors P employeeMap (blocksByEmployee vs) of
                       Inl e \<Rightarrow> Inl e
                     | Inr overlapping \<Rightarrow>
                         Inr (v_errors vs @ capped @ overlapping)))))))"

text \<open>The assignment objects of the scheduler, as the validator receives them.\<close>

definition assignment_object :: "assignment \<Rightarrow> jsval" where
  "assignment_object a =
     JObj ([(''shiftId'', a_shiftId a), (''employeeId'', a_employeeId a)] @
           (case a_reason a of None \<Rightarrow> [] | Some r \<Rightarrow> [(''reason'', JStr r)]))"

section \<open>Notions of the specification\<close>

text \<open>The value of a computation that does not raise (and a default where it does).\<close>

definition result_or :: "'a \<Rightarrow> error + 'a \<Rightarrow> 'a" where
  "result_or d r = (case r of Inl e \<Rightarrow> d | Inr x \<Rightarrow> x)"

text \<open>A value that \<open>toDate\<close> converts without raising.\<close>

definition dateable :: "platform \<Rightarrow> jsval \<Rightarrow> bool" where
  "dateable P v = (case toDate P v of Inl e \<Rightarrow> False | Inr d \<Rightarrow> True)"

subsection \<open>Intervals\<close>

text \<open>The normalised range of two values.\<close>

definition the_range :: "platform \<Rightarrow> jsval \<Rightarrow> jsval \<Rightarrow> range" where
  "the_range P start end' =
     result_or \<lparr>r_start = None, r_end = None\<rparr> (normalizeRange P start end')"

text \<open>The two time values of a range whose ends are \<open>Date\<close> objects; a time value is
  \<open>NaN\<close> (\<open>None\<close>) for an invalid \<open>Date\<close>.\<close>

type_synonym times = "int option \<times> int option"

definition range_times :: "range \<Rightarrow> times option" where
  "range_times r =
     (case (r_start r, r_end r) of
        (Some s, Some e) \<Rightarrow> Some (getTime s, getTime e)
      | _ \<Rightarrow> None)"

text \<open>The end is after the start.\<close>

definition in_order :: "times \<Rightarrow> bool" where
  "in_order t = nan_less (fst t) (snd t)"

text \<open>A range whose two ends are there and in order.\<close>

definition well_formed :: "range \<Rightarrow> bool" where
  "well_formed r = (case range_times r of Some t \<Rightarrow> in_order t | None \<Rightarrow> False)"

text \<open>The half-open intersection test of the specification,
  \<open>startA < endB && startB < endA\<close>.\<close>

definition intersects :: "times \<Rightarrow> times \<Rightarrow> bool" where
  "intersects a b = (nan_less (fst a) (snd b) \<and> nan_less (fst b) (snd a))"

text \<open>A block with the times \<open>a\<close>, neither unparsable nor malformed, intersects the
  candidate with the times \<open>b\<close>.\<close>

definition hits :: "times option \<Rightarrow> times option \<Rightarrow> bool" where
  "hits a b =
     (case (a, b) of
        (Some blockTimes, Some candidateTimes) \<Rightarrow>
          in_order blockTimes \<and> intersects blockTimes candidateTimes
      | _ \<Rightarrow> False)"

text \<open>\<open>overlaps\<close> in the words of the specification: the candidate's normalised range
  intersects the normalised range of some block that is neither unparsable nor
  malformed.\<close>

definition overlaps_spec :: "platform \<Rightarrow> span list \<Rightarrow> jsval \<Rightarrow> jsval \<Rightarrow> bool" where
  "overlaps_spec P bs start end' =
     list_ex (\<lambda>blk. hits (range_times (the_range P (sp_start blk) (sp_end blk)))
                          (range_times (the_range P start end')))
             bs"

text \<open>The candidate's times as \<open>overlaps\<close> compares them: the end is moved by a further
  24 hours when it is still not after the start.\<close>

definition extended :: "times \<Rightarrow> times" where
  "extended t = (fst t, if nan_le (snd t) (fst t) then nan_plus (snd t) 86400000 else snd t)"

text \<open>The instants of a range, as a half-open interval.\<close>

definition instants :: "range \<Rightarrow> int set" where
  "instants r =
     (case range_times r of
        Some (Some s, Some e) \<Rightarrow> {s..<e}
      | _ \<Rightarrow> {})"

text \<open>The overnight-normalised interval of a shift.\<close>

definition shift_interval :: "platform \<Rightarrow> shift \<Rightarrow> int set" where
  "shift_interval P s = instants (the_range P (date_val (s_start s)) (date_val (s_end s)))"

subsection \<open>Role compatibility\<close>

text \<open>Role compatibility in the words of the specification, on normalised role tokens:
  the empty requirement admits every role, the composite requirement exactly the two
  roles it names, any other requirement exactly itself.\<close>

definition role_compatible_spec :: "string \<Rightarrow> string \<Rightarrow> bool" where
  "role_compatible_spec e r =
     (if r = [] then True
      else if r = ''CNA_OR_CMA'' then e = ''CNA'' \<or> e = ''CMA''
      else e = r)"

subsection \<open>Committed shifts\<close>

text \<open>The shifts of a pass that were committed to an employee: the pass produces one
  assignment for each shift, in order.\<close>

definition committed_to :: "shift list \<Rightarrow> assignment list \<Rightarrow> jsval \<Rightarrow> shift list" where
  "committed_to shifts asgs employeeId =
     map fst (filter (\<lambda>(s, a). a_employeeId a = employeeId) (zip shifts asgs))"

definition committed_hours :: "shift list \<Rightarrow> assignment list \<Rightarrow> jsval \<Rightarrow> rat" where
  "committed_hours shifts asgs employeeId =
     sum_list (map s_hours (committed_to shifts asgs employeeId))"

subsection \<open>The steps of the scheduler on one shift\<close>

text \<open>On canonical data the role helpers, the overlap test and the filters of the
  scheduler raise nothing (their arguments are strings and dates), and they are used
  through their results: the role that a shift needs, whether a role is accepted for
  it, whether the blocks of an employee clash with a shift, whether an existing
  assignment can be kept, and the lists that the filters return.\<close>

definition needed_token :: "platform \<Rightarrow> shift \<Rightarrow> string" where
  "needed_token P shift = result_or [] (needed_role P shift)"

definition role_accepted :: "platform \<Rightarrow> string \<Rightarrow> string \<Rightarrow> bool" where
  "role_accepted P role needed = (accepts P (JStr role) (JStr needed) = Inr True)"

definition clashes ::
  "platform \<Rightarrow> block list option \<Rightarrow> date option \<Rightarrow> date option \<Rightarrow> bool" where
  "clashes P blocks start end' =
     (overlaps P (map_option (map block_span) blocks) (date_val start) (date_val end')
        = Inr True)"

definition can_keep ::
  "platform \<Rightarrow> (jsval \<times> employee) list \<Rightarrow> (jsval \<times> window list) list \<Rightarrow> sched_state
     \<Rightarrow> jsval \<Rightarrow> shift \<Rightarrow> string \<Rightarrow> bool" where
  "can_keep P employeeMap availabilityMap st employeeId shift needed =
     (canAssign P employeeMap availabilityMap st employeeId shift needed = Inr True)"

definition active_pool ::
  "platform \<Rightarrow> (jsval \<times> employee) list \<Rightarrow> string \<Rightarrow> employee list" where
  "active_pool P employeeMap needed =
     result_or [] (activeEmployees P employeeMap needed)"

definition free_pool ::
  "platform \<Rightarrow> sched_state \<Rightarrow> shift \<Rightarrow> entry list \<Rightarrow> entry list" where
  "free_pool P st shift candidates = result_or [] (withoutConflicts P st shift candidates)"

text \<open>The scheduler keeps the existing assignment of the shift.\<close>

definition keeps_existing ::
  "platform \<Rightarrow> (jsval \<times> employee) list \<Rightarrow> (jsval \<times> window list) list
     \<Rightarrow> (jsval \<times> jsval) list \<Rightarrow> sched_state \<Rightarrow> shift \<Rightarrow> bool" where
  "keeps_existing P employeeMap availabilityMap existing st shift =
     (case map_get existing (s_id shift) of
        None \<Rightarrow> False
      | Some employeeId \<Rightarrow>
          truthy employeeId
          \<and> can_keep P employeeMap availabilityMap st employeeId shift
                (needed_token P shift))"

text \<open>The candidates with a compatible role and a covering window, and those of them
  that survive the cap filter and the conflict filter.\<close>

definition covered_candidates ::
  "platform \<Rightarrow> (jsval \<times> employee) list \<Rightarrow> (jsval \<times> window list) list
     \<Rightarrow> shift \<Rightarrow> entry list" where
  "covered_candidates P employeeMap availabilityMap shift =
     availabilityCandidates availabilityMap shift
       (active_pool P employeeMap (needed_token P shift))"

definition survivors ::
  "platform \<Rightarrow> (jsval \<times> employee) list \<Rightarrow> (jsval \<times> window list) list
     \<Rightarrow> sched_state \<Rightarrow> shift \<Rightarrow> entry list" where
  "survivors P employeeMap availabilityMap st shift =
     free_pool P st shift
       (withinCap st shift (covered_candidates P employeeMap availabilityMap shift))"

text \<open>The block that a committed shift occupies.\<close>

definition block_of :: "shift \<Rightarrow> block" where
  "block_of shift =
     \<lparr>b_start = s_start shift, b_end = s_end shift, b_shiftId = s_id shift\<rparr>"

subsection \<open>The order of the tie-break\<close>

text \<open>A window covers a shift, in the words of the specification: both have their
  instants, the window starts no later than the shift, and it ends no earlier than the
  shift, whose end counts 24 hours later when it is not after its start.\<close>

definition covers_spec :: "window \<Rightarrow> shift \<Rightarrow> bool" where
  "covers_spec w shift =
     (case (w_start w, w_end w, s_start shift, s_end shift) of
        (Some (Some windowStart), Some (Some windowEnd),
         Some (Some shiftStart), Some (Some shiftEnd)) \<Rightarrow>
          \<bar>windowStart\<bar> \<le> MAX_TIME \<and> \<bar>windowEnd\<bar> \<le> MAX_TIME
          \<and> \<bar>shiftStart\<bar> \<le> MAX_TIME \<and> \<bar>shiftEnd\<bar> \<le> MAX_TIME
          \<and> windowStart \<le> shiftStart
          \<and> (if shiftEnd \<le> shiftStart then shiftEnd + 86400000 else shiftEnd) \<le> windowEnd
      | _ \<Rightarrow> False)"

text \<open>The employee has a window marked as preferred that covers the shift.\<close>

definition prefers :: "(jsval \<times> window list) list \<Rightarrow> shift \<Rightarrow> employee \<Rightarrow> bool" where
  "prefers availabilityMap shift employee =
     list_ex (\<lambda>w. w_preferred w \<and> covers_spec w shift)
       (windows_of availabilityMap (e_id employee))"

text \<open>The name of an employee as the comparator reads it: the empty string for a name
  that is missing, and what the name converts to.\<close>

definition name_of :: "platform \<Rightarrow> employee \<Rightarrow> string" where
  "name_of P employee = result_or [] (js_String P (js_or (e_name employee) (JStr [])))"

text \<open>
  Employee \<open>a\<close> comes strictly before employee \<open>b\<close> for a shift: a preferred covering
  window first, then fewer cumulative hours, then fewer committed assignments, then the
  name that \<open>earlier\<close> puts first.
\<close>

definition precedes ::
  "(string \<Rightarrow> string \<Rightarrow> bool) \<Rightarrow> platform \<Rightarrow> (jsval \<times> window list) list \<Rightarrow> sched_state
     \<Rightarrow> shift \<Rightarrow> employee \<Rightarrow> employee \<Rightarrow> bool" where
  "precedes earlier P availabilityMap st shift a b =
     (let prefA = prefers availabilityMap shift a;
          prefB = prefers availabilityMap shift b;
          hoursA = total_of (st_totals st) (e_id a);
          hoursB = total_of (st_totals st) (e_id b);
          assignsA = length (blocks_of (st_blocks st) (e_id a));
          assignsB = length (blocks_of (st_blocks st) (e_id b))
      in if prefA \<noteq> prefB then prefA
         else if hoursA \<noteq> hoursB then hoursA < hoursB
         else if assignsA \<noteq> assignsB then assignsA < assignsB
         else earlier (name_of P a) (name_of P b))"

text \<open>The order of names that the code uses, the collation of the platform, and the
  order of the specification: a string is lexicographically smaller than another when
  it is a proper prefix of it or has the smaller character code at the first place where
  the two differ.\<close>

definition collates_before :: "platform \<Rightarrow> string \<Rightarrow> string \<Rightarrow> bool" where
  "collates_before P a b = (locale_compare P a b < 0)"

fun lexicographically_smaller :: "string \<Rightarrow> string \<Rightarrow> bool" where
  "lexicographically_smaller [] [] = False"
| "lexicographically_smaller [] (y # ys) = True"
| "lexicographically_smaller (x # xs) [] = False"
| "lexicographically_smaller (x # xs) (y # ys) =
     ((of_char x :: nat) < of_char y
      \<or> ((of_char x :: nat) = of_char y \<and> lexicographically_smaller xs ys))"

text \<open>The same order on the entries that the scheduler sorts, read off the coverage
  that each entry carries.\<close>

definition name_string :: "platform \<Rightarrow> entry \<Rightarrow> string" where
  "name_string P a = name_of P (c_employee a)"

definition candidate_before :: "platform \<Rightarrow> sched_state \<Rightarrow> entry \<Rightarrow> entry \<Rightarrow> bool" where
  "candidate_before P st a b =
     (let prefA = c_preferred (c_coverage a);
          prefB = c_preferred (c_coverage b);
          hoursA = total_of (st_totals st) (e_id (c_employee a));
          hoursB = total_of (st_totals st) (e_id (c_employee b));
          assignsA = length (blocks_of (st_blocks st) (e_id (c_employee a)));
          assignsB = length (blocks_of (st_blocks st) (e_id (c_employee b)))
      in if prefA \<noteq> prefB then prefA
         else if hoursA \<noteq> hoursB then hoursA < hoursB
         else if assignsA \<noteq> assignsB then assignsA < assignsB
         else locale_compare P (name_string P a) (name_string P b) < 0)"

text \<open>What is asked of \<open>localeCompare\<close>: it orders the strings (``not after'' is
  total and transitive).\<close>

definition collation :: "platform \<Rightarrow> bool" where
  "collation P =
     ((\<forall>a b. locale_compare P a b < 0 \<longrightarrow> \<not> locale_compare P b a < 0)
      \<and> (\<forall>a b c. \<not> locale_compare P b a < 0 \<longrightarrow> \<not> locale_compare P c b < 0
              \<longrightarrow> \<not> locale_compare P c a < 0))"

text \<open>A name on which \<open>localeCompare\<close> can be called: a string, or a falsy value (which
  the comparator replaces by the empty string).\<close>

definition string_name :: "jsval \<Rightarrow> bool" where
  "string_name v = (case js_or v (JStr []) of JStr s \<Rightarrow> True | _ \<Rightarrow> False)"

subsection \<open>Values that convert to strings\<close>

text \<open>No object in the value has a property named \<open>toString\<close>: such a value, and every
  value read from it, converts to a string and to a date without raising.\<close>

fun plain :: "jsval \<Rightarrow> bool" where
  "plain (JArr xs) = list_all plain xs"
| "plain (JObj fs) = (map_of fs ''toString'' = None \<and> list_all plain (map snd fs))"
| "plain v = True"

text \<open>The identifiers that the validator holds in its maps and blocks convert to
  strings.\<close>

definition plain_state :: "vstate \<Rightarrow> bool" where
  "plain_state vs =
     ((\<forall>(k, h) \<in> set (hoursByEmployee vs). plain k)
      \<and> (\<forall>(k, bs) \<in> set (blocksByEmployee vs).
            plain k \<and> (\<forall>b \<in> set bs. plain (b_shiftId b))))"

subsection \<open>Well-formed canonical data\<close>

text \<open>What the normalisation establishes: an employee is stored under its own
  identifier, identifiers are truthy and occur once, role tokens are trimmed upper-case
  strings, caps are positive.\<close>

definition normal_token :: "string \<Rightarrow> bool" where
  "normal_token r = (toUpperCase (trim r) = r)"

definition wf_employees :: "(jsval \<times> employee) list \<Rightarrow> bool" where
  "wf_employees m =
     (distinct (map fst m)
      \<and> (\<forall>(k, e) \<in> set m. e_id e = k \<and> truthy k \<and> normal_token (e_role e)
                            \<and> 0 < e_weeklyCap e))"

definition wf_shift :: "shift \<Rightarrow> bool" where
  "wf_shift s = (truthy (s_id s) \<and> normal_token (s_roleNeeded s))"

text \<open>Every window kept by the normalisation has a start that is a valid \<open>Date\<close> and an
  end that is a \<open>Date\<close>.\<close>

definition parsed_windows :: "(jsval \<times> window list) list \<Rightarrow> bool" where
  "parsed_windows m =
     (\<forall>(k, ws) \<in> set m. \<forall>w \<in> set ws.
        (case w_start w of Some d \<Rightarrow> getTime d \<noteq> None | None \<Rightarrow> False) \<and> w_end w \<noteq> None)"

text \<open>The combined start and the combined end of an availability record both parse:
  \<open>combineDateTime\<close> gives a valid \<open>Date\<close> for each.\<close>

definition parses :: "error + date option \<Rightarrow> bool" where
  "parses r = (case r of Inr (Some d) \<Rightarrow> getTime d \<noteq> None | _ \<Rightarrow> False)"

definition window_parses :: "platform \<Rightarrow> jsval \<Rightarrow> bool" where
  "window_parses P record =
     (parses (combineDateTime P (readField (fields_of record) [''date'', ''Date''])
                (readField (fields_of record) [''start_time'', ''start'', ''Start'']))
      \<and> parses (combineDateTime P (readField (fields_of record) [''date'', ''Date''])
                  (readField (fields_of record) [''end_time'', ''end'', ''End''])))"

subsection \<open>What a pass keeps\<close>

text \<open>The running state records the shifts committed so far: one assignment for each
  shift that the pass has been through, and for each employee the hours and the blocks
  of the shifts committed to that employee.\<close>

definition tracked :: "shift list \<Rightarrow> sched_state \<Rightarrow> bool" where
  "tracked seen st =
     (length (st_assignments st) = length seen
      \<and> distinct (map fst (st_totals st))
      \<and> distinct (map fst (st_blocks st))
      \<and> (\<forall>a \<in> set (st_assignments st). a_employeeId a = JNull \<or> truthy (a_employeeId a))
      \<and> (\<forall>e. truthy e \<longrightarrow>
             total_of (st_totals st) e = committed_hours seen (st_assignments st) e)
      \<and> (\<forall>e. truthy e \<longrightarrow>
             blocks_of (st_blocks st) e
               = map block_of (committed_to seen (st_assignments st) e)))"

text \<open>No running total is above the cap of its employee.\<close>

definition within_caps :: "(jsval \<times> employee) list \<Rightarrow> sched_state \<Rightarrow> bool" where
  "within_caps employeeMap st =
     (\<forall>k h. map_get (st_totals st) k = Some h \<longrightarrow>
        (\<exists>employee. map_get employeeMap k = Some employee \<and> h \<le> e_weeklyCap employee))"

text \<open>No block of an employee overlaps an earlier block of the same employee, in the
  sense of \<open>overlaps\<close>.\<close>

definition conflict_free :: "platform \<Rightarrow> (jsval \<times> block list) list \<Rightarrow> bool" where
  "conflict_free P blocks =
     (\<forall>k bs. map_get blocks k = Some bs \<longrightarrow>
        (\<forall>(bi, bj) \<in> set (block_pairs bs).
           \<not> clashes P (Some [bi]) (b_start bj) (b_end bj)))"

section \<open>Examples\<close>

text \<open>A platform for the examples. Its parsers accept nothing (the examples give their
  instants as \<open>Date\<close> values and their caps as numbers); its collation compares character
  codes.\<close>

fun str_compare :: "string \<Rightarrow> string \<Rightarrow> int" where
  "str_compare [] [] = 0"
| "str_compare [] (y # ys) = - 1"
| "str_compare (x # xs) [] = 1"
| "str_compare (x # xs) (y # ys) =
     (if (of_char x :: nat) < of_char y then - 1
      else if (of_char y :: nat) < of_char x then 1
      else str_compare xs ys)"

definition example_platform :: platform where
  "example_platform =
     \<lparr>date_parse = (\<lambda>s. None),
      set_hours = (\<lambda>d h m. None),
      parse_int = (\<lambda>s. None),
      parse_float = (\<lambda>s. None),
      num_string = (\<lambda>n. ''0''),
      to_fixed2 = (\<lambda>n. ''0.00''),
      date_string = (\<lambda>d. ''Invalid Date''),
      locale_compare = str_compare\<rparr>"

definition at_hour :: "int \<Rightarrow> jsval" where
  "at_hour n = JDate (Some (n * 3600000))"

definition example_shift :: "string \<Rightarrow> string \<Rightarrow> int \<Rightarrow> int \<Rightarrow> jsval" where
  "example_shift shiftId role from to =
     JObj [(''id'', JStr shiftId), (''role_needed'', JStr role),
           (''start_time'', at_hour from), (''end_time'', at_hour to)]"

definition example_employee :: "string \<Rightarrow> jsval \<Rightarrow> string \<Rightarrow> jsval" where
  "example_employee employeeId name role =
     JObj [(''id'', JStr employeeId), (''name'', name), (''role'', JStr role),
           (''status'', JStr ''Active''), (''weekly_cap'', JNum 40)]"

definition example_window :: "string \<Rightarrow> string \<Rightarrow> int \<Rightarrow> int \<Rightarrow> jsval" where
  "example_window employeeId type from to =
     JObj [(''employee_id'', JStr employeeId), (''type'', JStr type),
           (''start_time'', at_hour from), (''end_time'', at_hour to)]"

text \<open>Canonical data for the examples: two aides with the same role and the same
  availability, and a day shift.\<close>

definition example_staff :: "(jsval \<times> employee) list" where
  "example_staff =
     [(JStr ''e1'', \<lparr>e_id = JStr ''e1'', e_name = JStr ''Bob'', e_role = ''CNA'',
                     e_status = ''active'', e_weeklyCap = 40\<rparr>),
      (JStr ''e2'', \<lparr>e_id = JStr ''e2'', e_name = JStr ''Ann'', e_role = ''CNA'',
                     e_status = ''active'', e_weeklyCap = 40\<rparr>)]"

definition example_cover :: "(jsval \<times> window list) list" where
  "example_cover =
     [(JStr ''e1'', [\<lparr>w_start = Some (Some 0), w_end = Some (Some 172800000), w_preferred = False,
                      w_recordId = JUndefined\<rparr>]),
      (JStr ''e2'', [\<lparr>w_start = Some (Some 0), w_end = Some (Some 172800000), w_preferred = False,
                      w_recordId = JUndefined\<rparr>])]"

definition example_day_shift :: "string \<Rightarrow> int \<Rightarrow> shift" where
  "example_day_shift shiftId day =
     \<lparr>s_id = JStr shiftId, s_roleNeeded = ''CNA'',
      s_start = Some (Some (day * 86400000 + 25200000)),
      s_end = Some (Some (day * 86400000 + 68400000)),
      s_hours = 12\<rparr>"

text \<open>Raw records for the examples: four day shifts of twelve hours on consecutive
  days, one aide with a cap of 40 hours who is available throughout.\<close>

definition example_week :: "jsval list" where
  "example_week =
     [example_shift ''s1'' ''CNA'' 7 19, example_shift ''s2'' ''CNA'' 31 43,
      example_shift ''s3'' ''CNA'' 55 67, example_shift ''s4'' ''CNA'' 79 91]"

definition example_aide :: "jsval list" where
  "example_aide = [example_employee ''e1'' (JStr ''Ann'') ''CNA'']"

definition example_free_week :: "jsval list" where
  "example_free_week = [example_window ''e1'' ''Available'' 0 96]"

text \<open>The state of the pass over that week after its first three shifts.\<close>

definition example_three_days :: sched_state where
  "example_three_days =
     \<lparr>st_assignments =
        [\<lparr>a_shiftId = JStr ''s1'', a_employeeId = JStr ''e1'', a_reason = None\<rparr>,
         \<lparr>a_shiftId = JStr ''s2'', a_employeeId = JStr ''e1'', a_reason = None\<rparr>,
         \<lparr>a_shiftId = JStr ''s3'', a_employeeId = JStr ''e1'', a_reason = None\<rparr>],
      st_issues = [],
      st_totals = [(JStr ''e1'', 36)],
      st_blocks =
        [(JStr ''e1'',
          [\<lparr>b_start = Some (Some 25200000), b_end = Some (Some 68400000),
            b_shiftId = JStr ''s1''\<rparr>,
           \<lparr>b_start = Some (Some 111600000), b_end = Some (Some 154800000),
            b_shiftId = JStr ''s2''\<rparr>,
           \<lparr>b_start = Some (Some 198000000), b_end = Some (Some 241200000),
            b_shiftId = JStr ''s3''\<rparr>])]\<rparr>"

text \<open>The same two aides, of whom the first has marked the window as preferred.\<close>

definition example_cover_preferred :: "(jsval \<times> window list) list" where
  "example_cover_preferred =
     [(JStr ''e1'', [\<lparr>w_start = Some (Some 0), w_end = Some (Some 172800000),
                      w_preferred = True, w_recordId = JUndefined\<rparr>]),
      (JStr ''e2'', [\<lparr>w_start = Some (Some 0), w_end = Some (Some 172800000),
                      w_preferred = False, w_recordId = JUndefined\<rparr>])]"

text \<open>States of a pass in which the second aide has twelve hours and the first none,
  and in which both have twelve hours, the first in one block and the second in two.\<close>

definition example_ann_busy :: sched_state where
  "example_ann_busy =
     \<lparr>st_assignments = [], st_issues = [],
      st_totals = [(JStr ''e2'', 12)],
      st_blocks =
        [(JStr ''e2'',
          [\<lparr>b_start = Some (Some 284400000), b_end = Some (Some 327600000),
            b_shiftId = JStr ''s8''\<rparr>])]\<rparr>"

definition example_same_hours :: sched_state where
  "example_same_hours =
     \<lparr>st_assignments = [], st_issues = [],
      st_totals = [(JStr ''e1'', 12), (JStr ''e2'', 12)],
      st_blocks =
        [(JStr ''e1'',
          [\<lparr>b_start = Some (Some 284400000), b_end = Some (Some 327600000),
            b_shiftId = JStr ''s8''\<rparr>]),
         (JStr ''e2'',
          [\<lparr>b_start = Some (Some 284400000), b_end = Some (Some 306000000),
            b_shiftId = JStr ''s6''\<rparr>,
           \<lparr>b_start = Some (Some 306000000), b_end = Some (Some 327600000),
            b_shiftId = JStr ''s7''\<rparr>])]\<rparr>"

text \<open>A platform whose collation is that of a dictionary, as \<open>localeCompare\<close> is in the
  common locales: two strings are compared without regard to case first, and a lower-case
  letter comes before its capital. Two aides named \<open>Bob\<close> and \<open>adam\<close>.\<close>

definition dictionary_compare :: "string \<Rightarrow> string \<Rightarrow> int" where
  "dictionary_compare a b =
     (let c = str_compare (toLowerCase a) (toLowerCase b)
      in if c \<noteq> 0 then c else str_compare b a)"

definition dictionary_platform :: platform where
  "dictionary_platform = example_platform\<lparr>locale_compare := dictionary_compare\<rparr>"

definition example_bob :: employee where
  "example_bob = \<lparr>e_id = JStr ''e1'', e_name = JStr ''Bob'', e_role = ''CNA'',
                  e_status = ''active'', e_weeklyCap = 40\<rparr>"

definition example_adam :: employee where
  "example_adam = \<lparr>e_id = JStr ''e2'', e_name = JStr ''adam'', e_role = ''CNA'',
                   e_status = ''active'', e_weeklyCap = 40\<rparr>"

section \<open>Computations that raise nothing\<close>

lemma result_or_Inr [simp]: "result_or d (Inr x) = x"
  by (simp add: result_or_def)

lemma result_or_Inl [simp]: "result_or d (Inl e) = d"
  by (simp add: result_or_def)

lemma error_cases: "(e :: error) = TypeError"
  by (cases e) simp

lemma not_Inr_Inl: "(\<forall>x. r \<noteq> Inr x) \<longleftrightarrow> r = Inl TypeError"
  by (cases r) (simp_all add: error_cases)

lemma collect_Inr:
  "(\<And>x. x \<in> set xs \<Longrightarrow> f x = Inr (g x)) \<Longrightarrow> collect (map f xs) = Inr (map g xs)"
  by (induction xs) simp_all

lemma filter_checked_Inr:
  "(\<And>x. x \<in> set xs \<Longrightarrow> p x = Inr (q x)) \<Longrightarrow> filter_checked p xs = Inr (filter q xs)"
  by (induction xs) simp_all

lemma some_checked_Inr:
  "(\<And>x. x \<in> set xs \<Longrightarrow> p x = Inr (q x)) \<Longrightarrow> some_checked p xs = Inr (list_ex q xs)"
  by (induction xs) simp_all

lemma template_Inr: "template (map Inr ss) = Inr (concat ss)"
  using collect_Inr [of ss Inr "\<lambda>s. s"] by (simp add: template_def)

section \<open>TimeMath: dates within the range of \<open>Date\<close>\<close>

lemma MS_IN_DAY_eq: "MS_IN_DAY = 86400000"
  by (simp add: MS_IN_DAY_def MS_IN_HOUR_def)

lemma getTime_None [simp]: "getTime None = None"
  by (simp add: getTime_def)

lemma getTime_Some: "getTime (Some t) = time_clip t"
  by (simp add: getTime_def)

lemma time_clip_eq_Some: "time_clip t = Some u \<longleftrightarrow> u = t \<and> \<bar>t\<bar> \<le> MAX_TIME"
  by (auto simp: time_clip_def)

lemma getTime_eq_Some: "getTime d = Some t \<longleftrightarrow> d = Some t \<and> \<bar>t\<bar> \<le> MAX_TIME"
  by (cases d) (auto simp: getTime_Some time_clip_eq_Some)

lemma getTime_getTime [simp]: "getTime (getTime d) = getTime d"
  by (cases d) (simp_all add: getTime_Some time_clip_def)

lemma getTime_time_clip [simp]: "getTime (time_clip t) = time_clip t"
  by (simp add: time_clip_def getTime_Some)

text \<open>\<open>toDate\<close> returns \<open>null\<close> or a valid \<open>Date\<close>.\<close>

lemma js_trunc_bound: "\<bar>n\<bar> \<le> of_int m \<Longrightarrow> \<bar>js_trunc n\<bar> \<le> m"
  unfolding js_trunc_def by (auto simp: abs_le_iff le_floor_iff ceiling_le_iff) linarith+

lemma new_Date_valid: "new_Date P v = Inr d \<Longrightarrow> getTime d = d"
proof (cases v)
  case (JNum n)
  assume "new_Date P v = Inr d"
  with JNum js_trunc_bound [of n MAX_TIME] show ?thesis
    by (auto simp: getTime_def time_clip_def split: if_splits)
qed (auto simp: getTime_Some time_clip_def MAX_TIME_def split: sum.splits)

lemma toDate_valid: "toDate P v = Inr (Some t) \<Longrightarrow> \<bar>t\<bar> \<le> MAX_TIME"
proof -
  assume run: "toDate P v = Inr (Some t)"
  have "getTime (Some t) = Some t"
  proof (cases v)
    case (JDate d)
    with run have "getTime d = Some t" by (simp add: toDate_def)
    then show ?thesis by (simp add: getTime_eq_Some getTime_Some time_clip_def)
  qed (use run new_Date_valid [of P v "Some t"] in \<open>auto simp: toDate_def split: if_splits\<close>)
  then show ?thesis
    by (simp add: getTime_eq_Some)
qed

lemma toDate_date_val:
  "toDate P (date_val d) = Inr (case d of None \<Rightarrow> None | Some x \<Rightarrow> getTime x)"
  by (cases d) (simp_all add: toDate_def date_val_def)

lemma toDate_at_hour: "\<bar>n\<bar> \<le> 2400000000 \<Longrightarrow> toDate P (at_hour n) = Inr (Some (n * 3600000))"
  by (simp add: toDate_def at_hour_def getTime_Some time_clip_def MAX_TIME_def abs_mult)

lemma dateable_date_val [simp]: "dateable P (date_val d)"
  by (simp add: dateable_def toDate_date_val)

lemma dateable_iff: "dateable P v \<longleftrightarrow> toDate P v \<noteq> Inl TypeError"
  by (cases "toDate P v") (simp_all add: dateable_def error_cases)

lemma normalizeRange_dateable:
  "dateable P start \<Longrightarrow> dateable P end'
     \<Longrightarrow> normalizeRange P start end' = Inr (the_range P start end')"
  by (cases "toDate P start"; cases "toDate P end'")
     (simp_all add: dateable_def the_range_def normalizeRange_def split: option.splits)

lemma normalizeRange_raises:
  "\<not> dateable P start \<or> \<not> dateable P end' \<Longrightarrow> normalizeRange P start end' = Inl TypeError"
  by (cases "toDate P start"; cases "toDate P end'")
     (auto simp: dateable_def normalizeRange_def error_cases)

text \<open>
  C7, as the code has it. \<open>normalizeRange\<close> raises when the conversion of an endpoint
  raises, and returns \<open>{null, null}\<close> when an endpoint fails to parse. When both parse
  and the end is not after the start, it returns the start together with the end moved
  forward by exactly 24 hours (86400000 ms), provided that instant is within the range
  of \<open>Date\<close> (at most 8640000000000000 ms after the epoch), and with an invalid \<open>Date\<close>
  otherwise. When the end is after the start it returns both endpoints unchanged.
\<close>

theorem normalizeRange_cases:
  "(toDate P start = Inl TypeError \<or> toDate P end' = Inl TypeError
      \<longrightarrow> normalizeRange P start end' = Inl TypeError)
   \<and> (\<forall>a b. toDate P start = Inr a \<and> toDate P end' = Inr b \<and> (a = None \<or> b = None)
      \<longrightarrow> normalizeRange P start end' = Inr \<lparr>r_start = None, r_end = None\<rparr>)
   \<and> (\<forall>s e. toDate P start = Inr (Some s) \<and> toDate P end' = Inr (Some e) \<and> e \<le> s
      \<longrightarrow> normalizeRange P start end'
            = Inr \<lparr>r_start = Some (Some s),
                   r_end = Some (if e + 86400000 \<le> 8640000000000000
                                 then Some (e + 86400000) else None)\<rparr>)
   \<and> (\<forall>s e. toDate P start = Inr (Some s) \<and> toDate P end' = Inr (Some e) \<and> s < e
      \<longrightarrow> normalizeRange P start end' = Inr \<lparr>r_start = Some (Some s), r_end = Some (Some e)\<rparr>)"
proof -
  have clip: "time_clip (e + 86400000)
      = (if e + 86400000 \<le> 8640000000000000 then Some (e + 86400000) else None)"
    if "toDate P end' = Inr (Some e)" for e
    using toDate_valid [OF that] by (auto simp: time_clip_def MAX_TIME_def)
  show ?thesis
    using clip
    by (cases "toDate P start"; cases "toDate P end'")
       (auto simp: normalizeRange_def MS_IN_DAY_eq error_cases split: option.splits)
qed

theorem normalizeRange_cases_witness:
  "normalizeRange example_platform (JObj [(''toString'', JNum 1)]) (at_hour 6) = Inl TypeError
   \<and> normalizeRange example_platform (JStr ''soon'') (at_hour 6)
       = Inr \<lparr>r_start = None, r_end = None\<rparr>
   \<and> normalizeRange example_platform (at_hour 22) (at_hour 6)
       = Inr \<lparr>r_start = Some (Some 79200000), r_end = Some (Some (21600000 + 86400000))\<rparr>
   \<and> normalizeRange example_platform (at_hour 7) (at_hour 19)
       = Inr \<lparr>r_start = Some (Some 25200000), r_end = Some (Some 68400000)\<rparr>"
proof -
  have raising: "toDate example_platform (JObj [(''toString'', JNum 1)]) = Inl TypeError"
    by (simp add: toDate_def)
  have unparsable: "toDate example_platform (JStr ''soon'') = Inr None"
    by (simp add: toDate_def example_platform_def)
  have hours: "toDate example_platform (at_hour 6) = Inr (Some 21600000)"
    "toDate example_platform (at_hour 22) = Inr (Some 79200000)"
    "toDate example_platform (at_hour 7) = Inr (Some 25200000)"
    "toDate example_platform (at_hour 19) = Inr (Some 68400000)"
    by (simp_all add: toDate_at_hour)
  note claim = normalizeRange_cases [of example_platform]
  from claim [of "JObj [(''toString'', JNum 1)]" "at_hour 6"] raising
  have first: "normalizeRange example_platform (JObj [(''toString'', JNum 1)]) (at_hour 6)
      = Inl TypeError"
    by blast
  from claim [of "JStr ''soon''" "at_hour 6"] unparsable hours(1)
  have second: "normalizeRange example_platform (JStr ''soon'') (at_hour 6)
      = Inr \<lparr>r_start = None, r_end = None\<rparr>"
    by blast
  from claim [of "at_hour 22" "at_hour 6"] hours(1,2)
  have third: "normalizeRange example_platform (at_hour 22) (at_hour 6)
      = Inr \<lparr>r_start = Some (Some 79200000), r_end = Some (Some (21600000 + 86400000))\<rparr>"
    by simp
  from claim [of "at_hour 7" "at_hour 19"] hours(3,4)
  have fourth: "normalizeRange example_platform (at_hour 7) (at_hour 19)
      = Inr \<lparr>r_start = Some (Some 25200000), r_end = Some (Some 68400000)\<rparr>"
    by simp
  from first second third fourth show ?thesis by blast
qed

text \<open>
  C7, as the claim states it, fails at the end of the range of \<open>Date\<close>: for a start at
  8640000000000000 ms and an end one second earlier, both endpoints parse and the end is
  not after the start, and the end of the result is not the end moved by 24 hours but an
  invalid \<open>Date\<close>. It fails too for an endpoint that does not convert to a primitive
  value (an object with a property \<open>toString\<close> that is no function): \<open>normalizeRange\<close>
  returns nothing and raises.
\<close>

theorem normalizeRange_counterexample:
  "toDate example_platform (JDate (Some 8640000000000000)) = Inr (Some 8640000000000000)
   \<and> toDate example_platform (JDate (Some 8639999999999000)) = Inr (Some 8639999999999000)
   \<and> normalizeRange example_platform
       (JDate (Some 8640000000000000)) (JDate (Some 8639999999999000))
       = Inr \<lparr>r_start = Some (Some 8640000000000000), r_end = Some None\<rparr>
   \<and> normalizeRange example_platform (JObj [(''toString'', JNum 1)]) (at_hour 6)
       = Inl TypeError"
  by code_simp

section \<open>TimeMath: the overlap test\<close>

lemma block_overlaps_hits:
  assumes "dateable P (sp_start blk)" and "dateable P (sp_end blk)"
  shows "block_overlaps P startB endB blk
     = Inr (hits (range_times (the_range P (sp_start blk) (sp_end blk)))
                 (Some (extended (startB, endB))))"
proof -
  let ?A = "the_range P (sp_start blk) (sp_end blk)"
  have run: "normalizeRange P (sp_start blk) (sp_end blk) = Inr ?A"
    using assms by (rule normalizeRange_dateable)
  show ?thesis
  proof (cases "range_times ?A")
    case None
    then show ?thesis
      by (auto simp: block_overlaps_def run hits_def range_times_def split: option.splits)
  next
    case (Some t)
    then obtain dateA dateA' where ends: "r_start ?A = Some dateA" "r_end ?A = Some dateA'"
      and t: "t = (getTime dateA, getTime dateA')"
      by (auto simp: range_times_def split: option.splits)
    show ?thesis
      by (cases "getTime dateA"; cases "getTime dateA'"; cases startB; cases endB)
         (auto simp: block_overlaps_def run ends Some t hits_def in_order_def intersects_def
            extended_def nan_le_def nan_less_def nan_plus_def MS_IN_DAY_eq Let_def)
  qed
qed

lemma overlaps_None [simp]: "overlaps P None start end' = Inr False"
  by (simp add: overlaps_def)

lemma overlaps_Nil [simp]: "overlaps P (Some []) start end' = Inr False"
  by (simp add: overlaps_def)

lemma hits_None [simp]: "hits a None = False"
  by (simp add: hits_def split: option.splits)

lemma overlaps_list_ex:
  assumes candidate: "dateable P start" "dateable P end'"
    and blocks: "\<forall>blk \<in> set bs. dateable P (sp_start blk) \<and> dateable P (sp_end blk)"
  shows "overlaps P (Some bs) start end'
     = Inr (list_ex (\<lambda>blk. hits (range_times (the_range P (sp_start blk) (sp_end blk)))
                              (map_option extended (range_times (the_range P start end'))))
                    bs)"
proof -
  let ?B = "the_range P start end'"
  have run: "normalizeRange P start end' = Inr ?B"
    using candidate by (rule normalizeRange_dateable)
  show ?thesis
  proof (cases "range_times ?B")
    case None
    then have "r_start ?B = None \<or> r_end ?B = None"
      by (auto simp: range_times_def split: option.splits)
    with None show ?thesis
      by (auto simp: overlaps_def run list_ex_iff split: option.splits)
  next
    case (Some t)
    then obtain dateB dateB' where ends: "r_start ?B = Some dateB" "r_end ?B = Some dateB'"
      and t: "t = (getTime dateB, getTime dateB')"
      by (auto simp: range_times_def split: option.splits)
    have "some_checked (block_overlaps P (getTime dateB) (getTime dateB')) bs
        = Inr (list_ex (\<lambda>blk. hits (range_times (the_range P (sp_start blk) (sp_end blk)))
                                 (Some (extended (getTime dateB, getTime dateB')))) bs)"
      by (rule some_checked_Inr) (use blocks in \<open>simp add: block_overlaps_hits\<close>)
    then show ?thesis
      by (cases "bs = []") (simp_all add: overlaps_def run ends Some t)
  qed
qed

lemma well_formed_extended:
  "well_formed r \<Longrightarrow> map_option extended (range_times r) = range_times r"
  by (cases "range_times r")
     (auto simp: well_formed_def extended_def in_order_def nan_le_def nan_less_def
        split: option.splits)

lemma the_range_unparsable:
  "toDate P start = Inr None \<or> toDate P end' = Inr None
     \<Longrightarrow> range_times (the_range P start end') = None"
  by (cases "toDate P start"; cases "toDate P end'")
     (auto simp: the_range_def normalizeRange_def range_times_def split: option.splits)

text \<open>
  C8, as the code has it. Without a block list, or with an empty one, \<open>overlaps\<close> is
  false. When the conversion of the candidate's start or end raises, \<open>overlaps\<close> raises.
  When no start and no end, of the candidate or of a block, raises in its conversion,
  \<open>overlaps\<close> is true iff some block, whose normalised range is neither unparsable nor
  malformed, intersects the candidate's normalised range \<^emph>\<open>with its end moved by a
  further 24 hours when that end is still not after its start\<close>; it is false for an
  unparsable candidate; and when the candidate's normalised range is in order, it is the
  test of the specification.
\<close>

theorem overlaps_extended:
  "overlaps P None start end' = Inr False
   \<and> overlaps P (Some []) start end' = Inr False
   \<and> (bs \<noteq> [] \<and> (\<not> dateable P start \<or> \<not> dateable P end')
        \<longrightarrow> overlaps P (Some bs) start end' = Inl TypeError)
   \<and> (dateable P start \<and> dateable P end'
      \<and> (\<forall>blk \<in> set bs. dateable P (sp_start blk) \<and> dateable P (sp_end blk))
      \<longrightarrow> overlaps P (Some bs) start end'
            = Inr (list_ex
                     (\<lambda>blk. hits (range_times (the_range P (sp_start blk) (sp_end blk)))
                               (map_option extended (range_times (the_range P start end'))))
                     bs)
          \<and> (toDate P start = Inr None \<or> toDate P end' = Inr None
               \<longrightarrow> overlaps P (Some bs) start end' = Inr False)
          \<and> (well_formed (the_range P start end')
               \<longrightarrow> overlaps P (Some bs) start end' = Inr (overlaps_spec P bs start end')))"
proof -
  have raising: "overlaps P (Some bs) start end' = Inl TypeError"
    if "bs \<noteq> []" and "\<not> dateable P start \<or> \<not> dateable P end'"
    using that normalizeRange_raises [of P start end'] by (simp add: overlaps_def)
  have main: "overlaps P (Some bs) start end'
            = Inr (list_ex
                     (\<lambda>blk. hits (range_times (the_range P (sp_start blk) (sp_end blk)))
                               (map_option extended (range_times (the_range P start end'))))
                     bs)"
    if "dateable P start" "dateable P end'"
      "\<forall>blk \<in> set bs. dateable P (sp_start blk) \<and> dateable P (sp_end blk)"
    using that by (rule overlaps_list_ex)
  have unparsable: "overlaps P (Some bs) start end' = Inr False"
    if "dateable P start" "dateable P end'"
      "\<forall>blk \<in> set bs. dateable P (sp_start blk) \<and> dateable P (sp_end blk)"
      "toDate P start = Inr None \<or> toDate P end' = Inr None"
    using main [OF that(1-3)] the_range_unparsable [OF that(4)] by (simp add: list_ex_iff)
  have in_order: "overlaps P (Some bs) start end' = Inr (overlaps_spec P bs start end')"
    if "dateable P start" "dateable P end'"
      "\<forall>blk \<in> set bs. dateable P (sp_start blk) \<and> dateable P (sp_end blk)"
      "well_formed (the_range P start end')"
    using main [OF that(1-3)] well_formed_extended [OF that(4)] by (simp add: overlaps_spec_def)
  show ?thesis
    using raising main unparsable in_order by (intro conjI impI) simp_all
qed

theorem overlaps_extended_witness:
  "overlaps example_platform
     (Some [\<lparr>sp_start = at_hour 7, sp_end = at_hour 19\<rparr>]) (at_hour 13) (at_hour 21)
     = Inr True
   \<and> well_formed (the_range example_platform (at_hour 13) (at_hour 21))
   \<and> overlaps_spec example_platform
       [\<lparr>sp_start = at_hour 7, sp_end = at_hour 19\<rparr>] (at_hour 13) (at_hour 21)
   \<and> overlaps example_platform
       (Some [\<lparr>sp_start = at_hour 7, sp_end = at_hour 19\<rparr>]) JNull (at_hour 21)
     = Inr False
   \<and> overlaps example_platform
       (Some [\<lparr>sp_start = at_hour 7, sp_end = at_hour 19\<rparr>])
       (JObj [(''toString'', JNum 1)]) (at_hour 21)
     = Inl TypeError"
proof -
  let ?bs = "[\<lparr>sp_start = at_hour 7, sp_end = at_hour 19\<rparr>]"
  have dates: "dateable example_platform (at_hour 13)" "dateable example_platform (at_hour 21)"
    "dateable example_platform JNull"
    "\<forall>blk \<in> set ?bs. dateable example_platform (sp_start blk)
        \<and> dateable example_platform (sp_end blk)"
    by code_simp+
  have order: "well_formed (the_range example_platform (at_hour 13) (at_hour 21))"
    by code_simp
  have spec: "overlaps_spec example_platform ?bs (at_hour 13) (at_hour 21)"
    by code_simp
  have null: "toDate example_platform JNull = Inr None"
    by (simp add: toDate_def)
  have raising: "\<not> dateable example_platform (JObj [(''toString'', JNum 1)])"
    by code_simp
  have "overlaps example_platform (Some ?bs) (at_hour 13) (at_hour 21)
      = Inr (overlaps_spec example_platform ?bs (at_hour 13) (at_hour 21))"
    using dates order
      overlaps_extended [of example_platform "at_hour 13" "at_hour 21" ?bs]
    by blast
  with spec have yes: "overlaps example_platform (Some ?bs) (at_hour 13) (at_hour 21)
      = Inr True"
    by simp
  have no: "overlaps example_platform (Some ?bs) JNull (at_hour 21) = Inr False"
    using dates null overlaps_extended [of example_platform JNull "at_hour 21" ?bs]
    by blast
  have raises: "overlaps example_platform (Some ?bs) (JObj [(''toString'', JNum 1)])
      (at_hour 21) = Inl TypeError"
    using raising
      overlaps_extended [of example_platform "JObj [(''toString'', JNum 1)]" "at_hour 21" ?bs]
    by blast
  show ?thesis
    using order spec yes no raises by blast
qed

text \<open>
  C8, as the claim states it, fails for a candidate whose end lies more than 24 hours
  before its start: from hour 100 to hour 60 the normalised range ends at hour 84, a
  block from hour 101 to hour 105 does not intersect it, and \<open>overlaps\<close> is true. It
  fails too for a candidate whose start does not convert to a primitive value (an object
  with a property \<open>toString\<close> that is no function): against a block, \<open>overlaps\<close> is not
  false but raises.
\<close>

theorem overlaps_spec_counterexample:
  "overlaps example_platform
     (Some [\<lparr>sp_start = at_hour 101, sp_end = at_hour 105\<rparr>])
     (at_hour 100) (at_hour 60)
     = Inr True
   \<and> \<not> overlaps_spec example_platform
         [\<lparr>sp_start = at_hour 101, sp_end = at_hour 105\<rparr>]
         (at_hour 100) (at_hour 60)
   \<and> overlaps example_platform
       (Some [\<lparr>sp_start = at_hour 101, sp_end = at_hour 105\<rparr>])
       (JObj [(''toString'', JNum 1)]) (at_hour 60)
     = Inl TypeError"
  by code_simp

section \<open>The scheduler on canonical data\<close>

text \<open>The roles of canonical employees and shifts are strings, and the blocks of the
  running state hold dates: the role helpers and the overlap test raise nothing there.\<close>

lemma norm_JStr [simp]: "norm P (JStr r) = Inr (toUpperCase (trim r))"
  by (simp add: norm_def js_or_def)

lemma needed_role_eq: "needed_role P shift = Inr (toUpperCase (trim (s_roleNeeded shift)))"
  by (simp add: needed_role_def norm_def js_or_def)

lemma needed_token_eq [simp]: "needed_token P shift = toUpperCase (trim (s_roleNeeded shift))"
  by (simp add: needed_token_def needed_role_eq)

lemma needed_role_token: "needed_role P shift = Inr (needed_token P shift)"
  by (simp add: needed_role_eq)

lemma role_accepted_iff:
  "role_accepted P role needed
     \<longleftrightarrow> toUpperCase (trim role) = toUpperCase (trim needed)
         \<or> (toUpperCase (trim needed) = ''CNA_OR_CMA''
            \<and> (toUpperCase (trim role) = ''CNA'' \<or> toUpperCase (trim role) = ''CMA''))"
  by (auto simp: role_accepted_def accepts_def)

lemma accepts_JStr: "accepts P (JStr role) (JStr needed) = Inr (role_accepted P role needed)"
  by (simp add: role_accepted_def accepts_def)

lemma overlaps_dated:
  "overlaps P (map_option (map block_span) blocks) (date_val start) (date_val end')
     = Inr (clashes P blocks start end')"
proof (cases blocks)
  case None
  then show ?thesis by (simp add: clashes_def)
next
  case (Some bs)
  have "\<forall>blk \<in> set (map block_span bs). dateable P (sp_start blk) \<and> dateable P (sp_end blk)"
    by (simp add: block_span_def)
  from overlaps_list_ex [OF dateable_date_val dateable_date_val this] Some
  show ?thesis
    by (simp add: clashes_def)
qed

lemma overlaps_dated_Some:
  "overlaps P (Some (map block_span bs)) (date_val start) (date_val end')
     = Inr (clashes P (Some bs) start end')"
  using overlaps_dated [of P "Some bs" start end'] by simp

lemma clashes_None [simp]: "clashes P None start end' = False"
  by (simp add: clashes_def)

lemma clashes_Nil [simp]: "clashes P (Some []) start end' = False"
  by (simp add: clashes_def)

lemma clashes_eq:
  "clashes P (Some bs) start end'
     = list_ex (\<lambda>b. hits (range_times (the_range P (date_val (b_start b)) (date_val (b_end b))))
                       (map_option extended
                          (range_times (the_range P (date_val start) (date_val end')))))
               bs"
proof -
  have "\<forall>blk \<in> set (map block_span bs). dateable P (sp_start blk) \<and> dateable P (sp_end blk)"
    by (simp add: block_span_def)
  from overlaps_list_ex [OF dateable_date_val dateable_date_val this, of start end']
  show ?thesis
    by (simp add: clashes_def list_ex_iff block_span_def)
qed

lemma can_keep_eq:
  "can_keep P employeeMap availabilityMap st employeeId shift needed
     = (case map_get employeeMap employeeId of
          None \<Rightarrow> False
        | Some employee \<Rightarrow>
            e_status employee = ''active''
            \<and> role_accepted P (e_role employee) needed
            \<and> c_available (coverageForShift (windows_of availabilityMap employeeId)
                             (s_start shift) (s_end shift))
            \<and> total_of (st_totals st) employeeId + s_hours shift \<le> e_weeklyCap employee
            \<and> \<not> clashes P (map_get (st_blocks st) employeeId) (s_start shift) (s_end shift))"
  by (auto simp: can_keep_def canAssign_def accepts_JStr overlaps_dated Let_def
        split: option.splits)

lemma canAssign_eq:
  "canAssign P employeeMap availabilityMap st employeeId shift needed
     = Inr (can_keep P employeeMap availabilityMap st employeeId shift needed)"
  by (auto simp: can_keep_def canAssign_def accepts_JStr overlaps_dated Let_def
        split: option.splits)

lemma activeEmployees_filter:
  "activeEmployees P employeeMap needed
     = Inr (filter (\<lambda>employee. e_status employee = ''active''
                                \<and> role_accepted P (e_role employee) needed)
                   (map snd employeeMap))"
  unfolding activeEmployees_def
  by (rule filter_checked_Inr) (simp add: accepts_JStr)

lemma active_pool_eq:
  "active_pool P employeeMap needed
     = filter (\<lambda>employee. e_status employee = ''active''
                           \<and> role_accepted P (e_role employee) needed)
              (map snd employeeMap)"
  by (simp add: active_pool_def activeEmployees_filter)

lemma activeEmployees_eq:
  "activeEmployees P employeeMap needed = Inr (active_pool P employeeMap needed)"
  by (simp add: active_pool_eq activeEmployees_filter)

lemma withoutConflicts_filter:
  "withoutConflicts P st shift candidates
     = Inr (filter (\<lambda>entry. \<not> clashes P (Some (blocks_of (st_blocks st)
                                                  (e_id (c_employee entry))))
                                 (s_start shift) (s_end shift))
                   candidates)"
  unfolding withoutConflicts_def
  by (rule filter_checked_Inr) (simp add: overlaps_dated_Some Let_def)

lemma free_pool_eq:
  "free_pool P st shift candidates
     = filter (\<lambda>entry. \<not> clashes P (Some (blocks_of (st_blocks st) (e_id (c_employee entry))))
                            (s_start shift) (s_end shift))
              candidates"
  by (simp add: free_pool_def withoutConflicts_filter)

lemma withoutConflicts_eq:
  "withoutConflicts P st shift candidates = Inr (free_pool P st shift candidates)"
  by (simp add: free_pool_eq withoutConflicts_filter)

text \<open>The two functions of the scheduler, with the results of the filters in them.\<close>

lemma assignFresh_eq:
  "assignFresh P employeeMap availabilityMap st shift needed =
     (let active = active_pool P employeeMap needed in
      if active = [] then Inr (unfilled st shift (reason_no_role needed))
      else
        let candidates = availabilityCandidates availabilityMap shift active in
        if candidates = [] then Inr (unfilled st shift reason_no_window)
        else
          let capped = withinCap st shift candidates in
          if capped = [] then Inr (unfilled st shift reason_cap)
          else
            let free = free_pool P st shift capped in
            if free = [] then Inr (unfilled st shift reason_conflict)
            else
              (case js_sort (compareCandidates P st) free of
                 Inl e \<Rightarrow> Inl e
               | Inr [] \<Rightarrow> Inl TypeError
               | Inr (first # _) \<Rightarrow> Inr (commit st (e_id (c_employee first)) shift)))"
  by (simp add: assignFresh_def activeEmployees_eq withoutConflicts_eq Let_def)

lemma process_shift_eq:
  "process_shift P employeeMap availabilityMap existing st shift =
     (let existingEmployeeId = (case map_get existing (s_id shift) of
                                  None \<Rightarrow> JUndefined | Some e \<Rightarrow> e)
      in
      if s_start shift = None \<or> s_end shift = None
      then Inr (unfilled st shift reason_missing_time)
      else
        let needed = needed_token P shift
        in
        if truthy existingEmployeeId
        then
          if can_keep P employeeMap availabilityMap st existingEmployeeId shift needed
          then Inr (commit st existingEmployeeId shift)
          else
            assignFresh P employeeMap availabilityMap
              (st\<lparr>st_issues := st_issues st @
                    [\<lparr>i_shiftId = s_id shift,
                      i_employeeId = Some existingEmployeeId,
                      i_reason = reason_released\<rparr>]\<rparr>)
              shift needed
        else assignFresh P employeeMap availabilityMap st shift needed)"
  by (simp add: process_shift_def needed_role_token canAssign_eq Let_def
        del: needed_token_eq)

section \<open>Role compatibility\<close>

lemma composite_token [simp]: "toUpperCase (trim ''CNA_OR_CMA'') = ''CNA_OR_CMA''"
  by code_simp

text \<open>
  C2, as the code has it by design. For a shift that requires the composite role
  \<open>CNA_OR_CMA\<close>, the candidate pool of the scheduler holds exactly the active employees
  whose normalised role is \<open>CNA\<close>, \<open>CMA\<close> or \<open>CNA_OR_CMA\<close> itself: a role that equals the
  requirement is accepted before the composite is looked at.
\<close>

theorem accepts_composite:
  "accepts P (JStr role) (JStr ''CNA_OR_CMA'')
     = Inr (toUpperCase (trim role) = ''CNA'' \<or> toUpperCase (trim role) = ''CMA''
            \<or> toUpperCase (trim role) = ''CNA_OR_CMA'')
   \<and> (s_roleNeeded shift = ''CNA_OR_CMA'' \<longrightarrow>
        (\<exists>pool. needed_role P shift = Inr ''CNA_OR_CMA''
           \<and> activeEmployees P employeeMap ''CNA_OR_CMA'' = Inr pool
           \<and> set pool
               = {e \<in> snd ` set employeeMap.
                    e_status e = ''active''
                    \<and> (toUpperCase (trim (e_role e)) = ''CNA''
                       \<or> toUpperCase (trim (e_role e)) = ''CMA''
                       \<or> toUpperCase (trim (e_role e)) = ''CNA_OR_CMA'')}))"
proof -
  have first: "accepts P (JStr role) (JStr ''CNA_OR_CMA'')
     = Inr (toUpperCase (trim role) = ''CNA'' \<or> toUpperCase (trim role) = ''CMA''
            \<or> toUpperCase (trim role) = ''CNA_OR_CMA'')"
    by (auto simp: accepts_def)
  have pool: "set (filter (\<lambda>employee. e_status employee = ''active''
                              \<and> role_accepted P (e_role employee) ''CNA_OR_CMA'')
                     (map snd employeeMap))
      = {e \<in> snd ` set employeeMap.
           e_status e = ''active''
           \<and> (toUpperCase (trim (e_role e)) = ''CNA''
              \<or> toUpperCase (trim (e_role e)) = ''CMA''
              \<or> toUpperCase (trim (e_role e)) = ''CNA_OR_CMA'')}"
    by (auto simp: role_accepted_iff)
  show ?thesis
    using first pool by (simp add: needed_role_eq activeEmployees_filter)
qed

theorem accepts_composite_witness:
  "accepts example_platform (JStr ''cna'') (JStr ''CNA_OR_CMA'') = Inr True
   \<and> accepts example_platform (JStr ''RN'') (JStr ''CNA_OR_CMA'') = Inr False
   \<and> (\<exists>pool.
        needed_role example_platform
          \<lparr>s_id = JStr ''s1'', s_roleNeeded = ''CNA_OR_CMA'', s_start = Some (Some 0),
           s_end = Some (Some 3600000), s_hours = 1\<rparr>
          = Inr ''CNA_OR_CMA''
        \<and> activeEmployees example_platform
            [(JStr ''e1'', \<lparr>e_id = JStr ''e1'', e_name = JStr ''Ann'', e_role = ''CMA'',
                            e_status = ''active'', e_weeklyCap = 40\<rparr>)]
            ''CNA_OR_CMA''
          = Inr pool
        \<and> set pool = {\<lparr>e_id = JStr ''e1'', e_name = JStr ''Ann'', e_role = ''CMA'',
                         e_status = ''active'', e_weeklyCap = 40\<rparr>})"
proof -
  have cna: "toUpperCase (trim ''cna'') = ''CNA''" by code_simp
  have rn: "toUpperCase (trim ''RN'') = ''RN''" by code_simp
  have cma: "toUpperCase (trim ''CMA'') = ''CMA''" by code_simp
  show ?thesis
    using cna rn cma
      accepts_composite [of example_platform "''cna''"]
      accepts_composite [of example_platform "''RN''"]
      accepts_composite [of example_platform "''CMA''"
        "\<lparr>s_id = JStr ''s1'', s_roleNeeded = ''CNA_OR_CMA'', s_start = Some (Some 0),
          s_end = Some (Some 3600000), s_hours = 1\<rparr>"
        "[(JStr ''e1'', \<lparr>e_id = JStr ''e1'', e_name = JStr ''Ann'', e_role = ''CMA'',
                         e_status = ''active'', e_weeklyCap = 40\<rparr>)]"]
    by auto
qed

text \<open>
  C2, as the claim states it, fails for an employee whose own role token is
  \<open>CNA_OR_CMA\<close>: the scheduler accepts it for a shift that requires \<open>CNA_OR_CMA\<close>,
  and the role is neither \<open>CNA\<close> nor \<open>CMA\<close>.
\<close>

theorem accepts_composite_counterexample:
  "accepts example_platform (JStr ''CNA_OR_CMA'') (JStr ''CNA_OR_CMA'') = Inr True
   \<and> \<not> role_compatible_spec ''CNA_OR_CMA'' ''CNA_OR_CMA''"
  by code_simp

text \<open>
  The empty requirement. \<open>accepts\<close> has no case for it (\<open>roleMatches\<close> has one): a shift
  that requires no specific role is offered only to employees whose own role is empty.
\<close>

lemma accepts_any_role:
  "accepts P (JStr role) (JStr []) = Inr (toUpperCase (trim role) = [])"
proof -
  have "toUpperCase (trim []) = []" by code_simp
  moreover have "[] \<noteq> ''CNA_OR_CMA''" by simp
  ultimately show ?thesis
    by (simp add: accepts_def)
qed

lemma roleMatches_any_role: "roleMatches P (JStr role) (JStr []) = Inr True"
proof -
  have "toUpperCase (trim []) = []" by code_simp
  then show ?thesis
    by (simp add: roleMatches_def js_or_def Let_def)
qed

lemma scheduler_either_unfilled:
  "schedule example_platform
     [example_shift ''s1'' ''Either'' 7 19]
     [example_employee ''e1'' (JStr ''Ann'') ''CNA'']
     [example_window ''e1'' ''Available'' 0 24]
     JUndefined
   = Inr \<lparr>assignments =
            [\<lparr>a_shiftId = JStr ''s1'', a_employeeId = JNull,
              a_reason = Some ''No employees available for role Either.''\<rparr>],
          issues =
            [\<lparr>i_shiftId = JStr ''s1'', i_employeeId = None,
              i_reason = ''No employees available for role Either.''\<rparr>],
          totalsByEmployee =
            [(''e1'', \<lparr>t_employeeId = JStr ''e1'', t_name = JStr ''Ann'', t_role = ''CNA'',
                       t_weeklyCap = 40, t_hours = 0, t_assignments = 0\<rparr>)]\<rparr>"
  by code_simp

text \<open>
  C3. The validator tests the requirement against the token \<open>EITHER\<close>, which the
  normalisation has already replaced by the empty marker: for a shift given as
  \<open>Either\<close> and an employee of role \<open>CNA\<close> it reports a role mismatch.
\<close>

theorem validate_either_role_mismatch:
  "validate example_platform
     [JObj [(''shiftId'', JStr ''s1''), (''employeeId'', JStr ''e1'')]]
     [example_shift ''s1'' ''Either'' 7 19]
     [example_employee ''e1'' (JStr ''Ann'') ''CNA'']
     [example_window ''e1'' ''Available'' 0 24]
   = Inr [\<lparr>v_type = role_mismatch, v_shiftId = JStr ''s1'', v_employeeId = JStr ''e1'',
           v_message = ''Ann does not match required role .''\<rparr>]"
  by code_simp

section \<open>A shift without a start or an end\<close>

text \<open>
  C10. For a shift whose normalised start or end is \<open>null\<close>, the scheduler adds the
  unfilled assignment and the issue with the missing-time reason and nothing else,
  whatever the map of existing assignments holds for the shift: the pairing is neither
  kept nor reported as released, and the running totals and blocks stay as they are.
\<close>

theorem missing_time_first:
  assumes "s_start shift = None \<or> s_end shift = None"
    and "map_get existing (s_id shift) = Some employeeId"
  shows "process_shift P employeeMap availabilityMap existing st shift
     = Inr (st\<lparr>st_assignments := st_assignments st @
                 [\<lparr>a_shiftId = s_id shift, a_employeeId = JNull,
                   a_reason = Some ''Shift is missing start or end time.''\<rparr>],
               st_issues := st_issues st @
                 [\<lparr>i_shiftId = s_id shift, i_employeeId = None,
                   i_reason = ''Shift is missing start or end time.''\<rparr>]\<rparr>)"
  using assms by (auto simp: process_shift_def unfilled_def reason_missing_time_def)

theorem missing_time_first_witness:
  "process_shift example_platform
     [(JStr ''e1'', \<lparr>e_id = JStr ''e1'', e_name = JStr ''Ann'', e_role = ''CNA'',
                     e_status = ''active'', e_weeklyCap = 40\<rparr>)]
     [(JStr ''e1'', [\<lparr>w_start = Some (Some 0), w_end = Some (Some 86400000),
                      w_preferred = False, w_recordId = JUndefined\<rparr>])]
     [(JStr ''s1'', JStr ''e1'')]
     empty_state
     \<lparr>s_id = JStr ''s1'', s_roleNeeded = ''CNA'', s_start = Some (Some 25200000),
      s_end = None, s_hours = 0\<rparr>
   = Inr \<lparr>st_assignments =
            [\<lparr>a_shiftId = JStr ''s1'', a_employeeId = JNull,
              a_reason = Some ''Shift is missing start or end time.''\<rparr>],
          st_issues =
            [\<lparr>i_shiftId = JStr ''s1'', i_employeeId = None,
              i_reason = ''Shift is missing start or end time.''\<rparr>],
          st_totals = [], st_blocks = []\<rparr>"
  using missing_time_first [of
      "\<lparr>s_id = JStr ''s1'', s_roleNeeded = ''CNA'', s_start = Some (Some 25200000),
        s_end = None, s_hours = 0\<rparr>"
      "[(JStr ''s1'', JStr ''e1'')]" "JStr ''e1''" example_platform
      "[(JStr ''e1'', \<lparr>e_id = JStr ''e1'', e_name = JStr ''Ann'', e_role = ''CNA'',
                       e_status = ''active'', e_weeklyCap = 40\<rparr>)]"
      "[(JStr ''e1'', [\<lparr>w_start = Some (Some 0), w_end = Some (Some 86400000),
                        w_preferred = False, w_recordId = JUndefined\<rparr>])]"
      empty_state]
  by (simp add: map_get_def empty_state_def)

section \<open>The tie-break\<close>

subsection \<open>The sort\<close>

lemma insert_sorted_set:
  "insert_sorted cmp x ys = Inr zs \<Longrightarrow> set zs = insert x (set ys) \<and> zs \<noteq> []"
proof (induction ys arbitrary: zs)
  case Nil
  then show ?case by auto
next
  case (Cons y ys)
  from Cons.prems obtain c where c: "cmp x y = Inr c"
    by (cases "cmp x y") auto
  show ?case
  proof (cases "c < 0")
    case True
    with Cons.prems c show ?thesis by auto
  next
    case False
    with Cons.prems c obtain zs' where zs': "insert_sorted cmp x ys = Inr zs'" "zs = y # zs'"
      by (cases "insert_sorted cmp x ys") auto
    from Cons.IH [OF zs'(1)] zs'(2) show ?thesis by auto
  qed
qed

lemma insert_sorted_hd:
  assumes link: "\<And>a b c. cmp a b = Inr c \<Longrightarrow> (c < 0) = lt a b"
    and asym: "\<And>a b. lt a b \<Longrightarrow> \<not> lt b a"
    and trans: "\<And>a b c. lt a b \<Longrightarrow> lt b c \<Longrightarrow> lt a c"
    and ins: "insert_sorted cmp x ys = Inr zs"
    and least: "\<forall>z \<in> set ys. \<not> lt z (hd ys)"
  shows "\<forall>z \<in> set zs. \<not> lt z (hd zs)"
proof (cases ys)
  case Nil
  with ins asym [of x x] show ?thesis by auto
next
  case (Cons y ys')
  from ins Cons obtain c where c: "cmp x y = Inr c"
    by (cases "cmp x y") auto
  show ?thesis
  proof (cases "c < 0")
    case True
    with ins Cons c have zs: "zs = x # y # ys'" by simp
    from True c link have xy: "lt x y" by simp
    have "\<not> lt z x" if "z \<in> set zs" for z
    proof
      assume zx: "lt z x"
      from zx xy have zy: "lt z y" by (rule trans)
      from zx asym [of x x] have "z \<noteq> x" by auto
      with that zs Cons have "z \<in> set ys" by auto
      with least Cons have "\<not> lt z y" by auto
      with zy show False by simp
    qed
    with zs show ?thesis by simp
  next
    case False
    with ins Cons c obtain zs' where zs': "insert_sorted cmp x ys' = Inr zs'" "zs = y # zs'"
      by (cases "insert_sorted cmp x ys'") auto
    from zs'(1) have "set zs' = insert x (set ys')"
      by (simp add: insert_sorted_set)
    moreover from False c link have "\<not> lt x y" by simp
    ultimately show ?thesis
      using zs'(2) least Cons by auto
  qed
qed

lemma js_sort_acc:
  assumes link: "\<And>a b c. cmp a b = Inr c \<Longrightarrow> (c < 0) = lt a b"
    and asym: "\<And>a b. lt a b \<Longrightarrow> \<not> lt b a"
    and trans: "\<And>a b c. lt a b \<Longrightarrow> lt b c \<Longrightarrow> lt a c"
  shows "forEach (\<lambda>sorted x. insert_sorted cmp x sorted) acc xs = Inr ys
    \<Longrightarrow> \<forall>z \<in> set acc. \<not> lt z (hd acc)
    \<Longrightarrow> set ys = set acc \<union> set xs \<and> (\<forall>z \<in> set ys. \<not> lt z (hd ys))"
proof (induction xs arbitrary: acc)
  case Nil
  then show ?case by simp
next
  case (Cons x xs)
  from Cons.prems(1) obtain acc' where acc': "insert_sorted cmp x acc = Inr acc'"
      and rest: "forEach (\<lambda>sorted x. insert_sorted cmp x sorted) acc' xs = Inr ys"
    by (cases "insert_sorted cmp x acc") auto
  from acc' have set_acc': "set acc' = insert x (set acc)"
    by (simp add: insert_sorted_set)
  have "\<forall>z \<in> set acc'. \<not> lt z (hd acc')"
    using link asym trans acc' Cons.prems(2) by (rule insert_sorted_hd)
  from Cons.IH [OF rest this] set_acc' show ?case by auto
qed

lemma js_sort_least:
  assumes link: "\<And>a b c. cmp a b = Inr c \<Longrightarrow> (c < 0) = lt a b"
    and asym: "\<And>a b. lt a b \<Longrightarrow> \<not> lt b a"
    and trans: "\<And>a b c. lt a b \<Longrightarrow> lt b c \<Longrightarrow> lt a c"
    and sorted: "js_sort cmp xs = Inr ys"
  shows "set ys = set xs \<and> (\<forall>z \<in> set ys. \<not> lt z (hd ys))"
proof -
  have start: "\<forall>z \<in> set []. \<not> lt z (hd [])" by simp
  from sorted have run: "forEach (\<lambda>sorted x. insert_sorted cmp x sorted) [] xs = Inr ys"
    by (simp only: js_sort_def)
  have "set ys = set [] \<union> set xs \<and> (\<forall>z \<in> set ys. \<not> lt z (hd ys))"
    using link asym trans run start by (rule js_sort_acc)
  then show ?thesis by simp
qed

lemma forEach_insert_set:
  "forEach (\<lambda>sorted x. insert_sorted cmp x sorted) acc xs = Inr ys
     \<Longrightarrow> set ys = set acc \<union> set xs"
proof (induction xs arbitrary: acc)
  case Nil
  then show ?case by simp
next
  case (Cons x xs)
  from Cons.prems obtain acc' where acc': "insert_sorted cmp x acc = Inr acc'"
      and rest: "forEach (\<lambda>sorted x. insert_sorted cmp x sorted) acc' xs = Inr ys"
    by (cases "insert_sorted cmp x acc") auto
  from acc' have "set acc' = insert x (set acc)"
    by (simp add: insert_sorted_set)
  with Cons.IH [OF rest] show ?case by auto
qed

lemma js_sort_set: "js_sort cmp xs = Inr ys \<Longrightarrow> set ys = set xs"
  using forEach_insert_set [of cmp "[]" xs ys] by (simp add: js_sort_def)

text \<open>The sort raises only if the comparator does.\<close>

lemma insert_sorted_total:
  "\<forall>y \<in> set ys. \<exists>c. cmp x y = Inr c \<Longrightarrow> \<exists>zs. insert_sorted cmp x ys = Inr zs"
proof (induction ys)
  case Nil
  then show ?case by simp
next
  case (Cons y ys)
  then obtain c zs where "cmp x y = Inr c" "insert_sorted cmp x ys = Inr zs"
    by auto
  then show ?case by simp
qed

lemma js_sort_total:
  assumes "\<forall>x \<in> set xs. \<forall>y \<in> set xs. \<exists>c. cmp x y = Inr c"
  shows "\<exists>ys. js_sort cmp xs = Inr ys"
proof -
  have "set acc \<subseteq> set all \<Longrightarrow> set rest \<subseteq> set all
      \<Longrightarrow> \<forall>x \<in> set all. \<forall>y \<in> set all. \<exists>c. cmp x y = Inr c
      \<Longrightarrow> \<exists>ys. forEach (\<lambda>sorted x. insert_sorted cmp x sorted) acc rest = Inr ys"
    for acc rest all
  proof (induction rest arbitrary: acc)
    case Nil
    then show ?case by simp
  next
    case (Cons x rest)
    then have "\<forall>y \<in> set acc. \<exists>c. cmp x y = Inr c" by auto
    then obtain acc' where acc': "insert_sorted cmp x acc = Inr acc'"
      using insert_sorted_total [of acc cmp x] by blast
    then have "set acc' = insert x (set acc)"
      by (simp add: insert_sorted_set)
    then have "set acc' \<subseteq> set all"
      using Cons.prems by auto
    with Cons acc' show ?case by auto
  qed
  from this [of "[]" xs xs] assms show ?thesis
    by (simp add: js_sort_def)
qed

subsection \<open>The comparator and the order\<close>

lemma compareCandidates_before:
  "compareCandidates P st a b = Inr c \<Longrightarrow> (c < 0) = candidate_before P st a b"
  by (auto simp: compareCandidates_def candidate_before_def name_string_def name_of_def
        Let_def split: if_splits jsval.splits sum.splits)

lemma string_name_String: "string_name v \<Longrightarrow> \<exists>s. js_String P (js_or v (JStr [])) = Inr s"
  by (cases "js_or v (JStr [])") (simp_all add: string_name_def)

lemma compareCandidates_total:
  assumes "string_name (e_name (c_employee a))" and "string_name (e_name (c_employee b))"
  shows "\<exists>c. compareCandidates P st a b = Inr c"
proof -
  from assms(1) obtain nameA where "js_or (e_name (c_employee a)) (JStr []) = JStr nameA"
    by (cases "js_or (e_name (c_employee a)) (JStr [])") (simp_all add: string_name_def)
  moreover from string_name_String [OF assms(2)]
  obtain nameB where "js_String P (js_or (e_name (c_employee b)) (JStr [])) = Inr nameB"
    by blast
  ultimately show ?thesis
    by (simp add: compareCandidates_def Let_def)
qed

lemma collation_asym:
  "collation P \<Longrightarrow> locale_compare P a b < 0 \<Longrightarrow> \<not> locale_compare P b a < 0"
  unfolding collation_def by blast

lemma collation_trans:
  assumes "collation P"
    and "locale_compare P a b < 0" and "locale_compare P b c < 0"
  shows "locale_compare P a c < 0"
proof (rule ccontr)
  assume ac: "\<not> locale_compare P a c < 0"
  from assms(1) have "\<not> locale_compare P a c < 0 \<longrightarrow> \<not> locale_compare P b a < 0
      \<longrightarrow> \<not> locale_compare P b c < 0"
    unfolding collation_def by blast
  moreover from assms(1,2) have "\<not> locale_compare P b a < 0"
    by (rule collation_asym)
  ultimately show False using ac assms(3) by blast
qed

text \<open>The order compares four keys in turn.\<close>

lemma candidate_before_keys:
  "candidate_before P st a b \<longleftrightarrow>
     (c_preferred (c_coverage a) \<and> \<not> c_preferred (c_coverage b))
     \<or> (c_preferred (c_coverage a) = c_preferred (c_coverage b)
        \<and> (total_of (st_totals st) (e_id (c_employee a))
              < total_of (st_totals st) (e_id (c_employee b))
           \<or> (total_of (st_totals st) (e_id (c_employee a))
                 = total_of (st_totals st) (e_id (c_employee b))
              \<and> (length (blocks_of (st_blocks st) (e_id (c_employee a)))
                    < length (blocks_of (st_blocks st) (e_id (c_employee b)))
                 \<or> (length (blocks_of (st_blocks st) (e_id (c_employee a)))
                      = length (blocks_of (st_blocks st) (e_id (c_employee b)))
                    \<and> locale_compare P (name_string P a) (name_string P b) < 0)))))"
  unfolding candidate_before_def Let_def by (simp split: if_splits)

lemma lex4_asym:
  fixes h1 h2 :: rat and n1 n2 :: nat
  assumes "(p1 \<and> \<not> p2) \<or> (p1 = p2 \<and> (h1 < h2 \<or> (h1 = h2 \<and> (n1 < n2 \<or> (n1 = n2 \<and> l12)))))"
    and "(p2 \<and> \<not> p1) \<or> (p2 = p1 \<and> (h2 < h1 \<or> (h2 = h1 \<and> (n2 < n1 \<or> (n2 = n1 \<and> l21)))))"
    and "l12 \<Longrightarrow> \<not> l21"
  shows False
  using assms by auto

lemma lex4_trans:
  fixes h1 h2 h3 :: rat and n1 n2 n3 :: nat
  assumes "(p1 \<and> \<not> p2) \<or> (p1 = p2 \<and> (h1 < h2 \<or> (h1 = h2 \<and> (n1 < n2 \<or> (n1 = n2 \<and> l12)))))"
    and "(p2 \<and> \<not> p3) \<or> (p2 = p3 \<and> (h2 < h3 \<or> (h2 = h3 \<and> (n2 < n3 \<or> (n2 = n3 \<and> l23)))))"
    and "l12 \<Longrightarrow> l23 \<Longrightarrow> l13"
  shows "(p1 \<and> \<not> p3) \<or> (p1 = p3 \<and> (h1 < h3 \<or> (h1 = h3 \<and> (n1 < n3 \<or> (n1 = n3 \<and> l13)))))"
  using assms by auto

lemma candidate_before_asym:
  assumes "collation P" and "candidate_before P st a b"
  shows "\<not> candidate_before P st b a"
proof
  assume "candidate_before P st b a"
  from assms(2) [unfolded candidate_before_keys] this [unfolded candidate_before_keys]
  show False
    by (rule lex4_asym) (rule collation_asym [OF assms(1)])
qed

lemma candidate_before_trans:
  assumes "collation P"
    and "candidate_before P st a b" and "candidate_before P st b c"
  shows "candidate_before P st a c"
  unfolding candidate_before_keys
  by (rule lex4_trans [OF assms(2) [unfolded candidate_before_keys]
        assms(3) [unfolded candidate_before_keys]])
     (rule collation_trans [OF assms(1)])

subsection \<open>The fresh assignment takes the least survivor\<close>

lemma free_pool_Nil [simp]: "free_pool P st shift [] = []"
  by (simp add: free_pool_eq)

lemma withinCap_Nil [simp]: "withinCap st shift [] = []"
  by (simp add: withinCap_def)

lemma availabilityCandidates_Nil [simp]: "availabilityCandidates availabilityMap shift [] = []"
  by (simp add: availabilityCandidates_def)

lemma assignFresh_sorted:
  assumes free: "free_pool P st shift
          (withinCap st shift
             (availabilityCandidates availabilityMap shift
                (active_pool P employeeMap needed))) = free"
    and "free \<noteq> []"
  shows "assignFresh P employeeMap availabilityMap st shift needed
     = (case js_sort (compareCandidates P st) free of
          Inl e \<Rightarrow> Inl e
        | Inr [] \<Rightarrow> Inl TypeError
        | Inr (first # _) \<Rightarrow> Inr (commit st (e_id (c_employee first)) shift))"
proof -
  let ?active = "active_pool P employeeMap needed"
  let ?candidates = "availabilityCandidates availabilityMap shift ?active"
  let ?capped = "withinCap st shift ?candidates"
  from assms have "?capped \<noteq> []" by (cases ?capped) auto
  moreover from this have "?candidates \<noteq> []" by (cases ?candidates) auto
  moreover from this have "?active \<noteq> []" by (cases ?active) auto
  ultimately show ?thesis
    using assms by (simp add: assignFresh_eq Let_def)
qed

lemma assignFresh_chosen:
  assumes "collation P"
    and free: "free_pool P st shift
          (withinCap st shift
             (availabilityCandidates availabilityMap shift
                (active_pool P employeeMap needed))) = free"
    and "free \<noteq> []"
    and run: "assignFresh P employeeMap availabilityMap st shift needed = Inr st'"
  shows "\<exists>chosen \<in> set free.
           st' = commit st (e_id (c_employee chosen)) shift
           \<and> (\<forall>other \<in> set free. \<not> candidate_before P st other chosen)"
proof -
  from run assignFresh_sorted [OF free \<open>free \<noteq> []\<close>]
  obtain sorted where sorted: "js_sort (compareCandidates P st) free = Inr sorted"
    and st': "(case sorted of [] \<Rightarrow> Inl TypeError
               | first # _ \<Rightarrow> Inr (commit st (e_id (c_employee first)) shift)) = Inr st'"
    by (cases "js_sort (compareCandidates P st) free") simp_all
  have least: "set sorted = set free \<and> (\<forall>z \<in> set sorted. \<not> candidate_before P st z (hd sorted))"
    using compareCandidates_before candidate_before_asym [OF assms(1)]
      candidate_before_trans [OF assms(1)] sorted
    by (rule js_sort_least)
  with \<open>free \<noteq> []\<close> obtain first rest where fr: "sorted = first # rest"
    by (cases sorted) auto
  with st' have chosen: "st' = commit st (e_id (c_employee first)) shift" by simp
  from least fr have "first \<in> set free"
    and "\<forall>other \<in> set free. \<not> candidate_before P st other first"
    by auto
  with chosen show ?thesis by blast
qed
lemma issues_irrelevant [simp]:
  "withinCap (st\<lparr>st_issues := iss\<rparr>) shift candidates = withinCap st shift candidates"
  "free_pool P (st\<lparr>st_issues := iss\<rparr>) shift candidates
     = free_pool P st shift candidates"
  "candidate_before P (st\<lparr>st_issues := iss\<rparr>) a b = candidate_before P st a b"
  "can_keep P employeeMap availabilityMap (st\<lparr>st_issues := iss\<rparr>) e shift needed
     = can_keep P employeeMap availabilityMap st e shift needed"
  by (simp_all add: withinCap_def free_pool_eq candidate_before_def can_keep_eq
        Let_def split: option.splits)

lemma process_shift_fresh:
  assumes "s_start shift \<noteq> None" and "s_end shift \<noteq> None"
    and "\<not> keeps_existing P employeeMap availabilityMap existing st shift"
  shows "\<exists>iss. process_shift P employeeMap availabilityMap existing st shift
           = assignFresh P employeeMap availabilityMap (st\<lparr>st_issues := iss\<rparr>) shift
               (needed_token P shift)"
proof -
  have same: "st\<lparr>st_issues := st_issues st\<rparr> = st" by simp
  from assms(1,2) obtain t1 t2 where times: "s_start shift = Some t1" "s_end shift = Some t2"
    by auto
  show ?thesis
  proof (cases "map_get existing (s_id shift)")
    case None
    with times have "process_shift P employeeMap availabilityMap existing st shift
        = assignFresh P employeeMap availabilityMap (st\<lparr>st_issues := st_issues st\<rparr>) shift
            (needed_token P shift)"
      unfolding same by (simp add: process_shift_eq Let_def del: needed_token_eq)
    then show ?thesis ..
  next
    case (Some e)
    show ?thesis
    proof (cases "truthy e")
      case True
      with Some assms(3) times have "process_shift P employeeMap availabilityMap existing st shift
        = assignFresh P employeeMap availabilityMap
            (st\<lparr>st_issues := st_issues st @
                [\<lparr>i_shiftId = s_id shift, i_employeeId = Some e,
                  i_reason = reason_released\<rparr>]\<rparr>) shift (needed_token P shift)"
        by (simp add: process_shift_eq keeps_existing_def Let_def del: needed_token_eq)
      then show ?thesis ..
    next
      case False
      with Some times have "process_shift P employeeMap availabilityMap existing st shift
        = assignFresh P employeeMap availabilityMap (st\<lparr>st_issues := st_issues st\<rparr>) shift
            (needed_token P shift)"
        unfolding same by (simp add: process_shift_eq Let_def del: needed_token_eq)
      then show ?thesis ..
    qed
  qed
qed

lemma process_shift_kept:
  assumes "s_start shift \<noteq> None" and "s_end shift \<noteq> None"
    and "keeps_existing P employeeMap availabilityMap existing st shift"
  shows "\<exists>e. map_get existing (s_id shift) = Some e \<and> truthy e
           \<and> can_keep P employeeMap availabilityMap st e shift (needed_token P shift)
           \<and> process_shift P employeeMap availabilityMap existing st shift
               = Inr (commit st e shift)"
proof -
  from assms(1,2) obtain t1 t2 where times: "s_start shift = Some t1" "s_end shift = Some t2"
    by auto
  from assms(3) obtain e where e: "map_get existing (s_id shift) = Some e" "truthy e"
    "can_keep P employeeMap availabilityMap st e shift (needed_token P shift)"
    by (cases "map_get existing (s_id shift)") (simp_all add: keeps_existing_def)
  with times have "process_shift P employeeMap availabilityMap existing st shift
      = Inr (commit st e shift)"
    by (simp add: process_shift_eq Let_def del: needed_token_eq)
  with e show ?thesis by blast
qed

lemma commit_assignments [simp]:
  "st_assignments (commit st e shift)
     = st_assignments st @ [\<lparr>a_shiftId = s_id shift, a_employeeId = e, a_reason = None\<rparr>]"
  by (simp add: commit_def trackAssignment_def)

subsection \<open>The keys of the order, on the windows\<close>

lemma window_covers_spec:
  "s_start shift = Some a \<Longrightarrow> s_end shift = Some b
     \<Longrightarrow> window_covers w a b = covers_spec w shift"
  by (cases "w_start w"; cases "w_end w"; cases a; cases b)
     (auto simp: window_covers_def covers_spec_def getTime_def time_clip_def nan_le_def
        nan_plus_def Let_def split: option.splits)

lemma coverage_fold:
  "c_available (foldl (\<lambda>c w. if covers w
                                then \<lparr>c_available = True,
                                     c_preferred = (if w_preferred w then True else c_preferred c)\<rparr>
                                else c) c0 ws)
     \<longleftrightarrow> c_available c0 \<or> list_ex covers ws"
  by (induction ws arbitrary: c0) auto

lemma preferred_fold:
  "c_preferred (foldl (\<lambda>c w. if covers w
                                then \<lparr>c_available = True,
                                     c_preferred = (if w_preferred w then True else c_preferred c)\<rparr>
                                else c) c0 ws)
     \<longleftrightarrow> c_preferred c0 \<or> list_ex (\<lambda>w. w_preferred w \<and> covers w) ws"
  by (induction ws arbitrary: c0) auto

lemma coverage_covers:
  "c_available (coverageForShift ws (s_start shift) (s_end shift))
     = list_ex (\<lambda>w. covers_spec w shift) ws"
proof (cases "s_start shift")
  case None
  then show ?thesis
    by (simp add: coverageForShift_def covers_spec_def list_ex_iff split: option.splits)
next
  case start: (Some a)
  show ?thesis
  proof (cases "s_end shift")
    case None
    with start show ?thesis
      by (simp add: coverageForShift_def covers_spec_def list_ex_iff split: option.splits)
  next
    case (Some b)
    with start show ?thesis
      by (simp add: coverageForShift_def coverage_fold window_covers_spec)
  qed
qed

lemma coverage_preferred:
  "c_preferred (coverageForShift ws (s_start shift) (s_end shift))
     = list_ex (\<lambda>w. w_preferred w \<and> covers_spec w shift) ws"
proof (cases "s_start shift")
  case None
  then show ?thesis
    by (simp add: coverageForShift_def covers_spec_def list_ex_iff split: option.splits)
next
  case start: (Some a)
  show ?thesis
  proof (cases "s_end shift")
    case None
    with start show ?thesis
      by (simp add: coverageForShift_def covers_spec_def list_ex_iff split: option.splits)
  next
    case (Some b)
    with start show ?thesis
      by (simp add: coverageForShift_def preferred_fold window_covers_spec)
  qed
qed

lemma covered_coverage:
  "x \<in> set (availabilityCandidates availabilityMap shift active)
     \<Longrightarrow> c_coverage x = coverageForShift (windows_of availabilityMap (e_id (c_employee x)))
                            (s_start shift) (s_end shift)"
  by (auto simp: availabilityCandidates_def)

lemma survivor_coverage:
  "x \<in> set (survivors P employeeMap availabilityMap st shift)
     \<Longrightarrow> c_coverage x = coverageForShift (windows_of availabilityMap (e_id (c_employee x)))
                            (s_start shift) (s_end shift)"
  by (rule covered_coverage [of x availabilityMap shift
        "active_pool P employeeMap (needed_token P shift)"])
     (simp add: survivors_def covered_candidates_def free_pool_eq withinCap_def
        del: needed_token_eq)

lemma survivor_preferred:
  "x \<in> set (survivors P employeeMap availabilityMap st shift)
     \<Longrightarrow> c_preferred (c_coverage x) = prefers availabilityMap shift (c_employee x)"
  by (simp add: survivor_coverage coverage_preferred prefers_def)

lemma survivors_before:
  assumes "x \<in> set (survivors P employeeMap availabilityMap st shift)"
    and "y \<in> set (survivors P employeeMap availabilityMap st shift)"
  shows "candidate_before P st x y
     = precedes (collates_before P) P availabilityMap st shift (c_employee x) (c_employee y)"
  by (simp add: candidate_before_def precedes_def collates_before_def name_string_def
        survivor_preferred [OF assms(1)] survivor_preferred [OF assms(2)])

text \<open>The survivors are the employees that pass the five tests.\<close>

lemma survivors_employees:
  "c_employee ` set (survivors P employeeMap availabilityMap st shift)
     = {employee \<in> snd ` set employeeMap.
          e_status employee = ''active''
          \<and> role_accepted P (e_role employee) (needed_token P shift)
          \<and> list_ex (\<lambda>w. covers_spec w shift) (windows_of availabilityMap (e_id employee))
          \<and> total_of (st_totals st) (e_id employee) + s_hours shift \<le> e_weeklyCap employee
          \<and> \<not> clashes P (Some (blocks_of (st_blocks st) (e_id employee)))
                 (s_start shift) (s_end shift)}"
  (is "?left = ?right")
proof (intro set_eqI iffI)
  fix employee
  assume "employee \<in> ?left"
  then show "employee \<in> ?right"
    by (auto simp: survivors_def covered_candidates_def free_pool_eq withinCap_def
          availabilityCandidates_def active_pool_eq coverage_covers
          simp del: needed_token_eq intro: rev_image_eqI)
next
  fix employee
  assume good: "employee \<in> ?right"
  let ?x = "\<lparr>c_employee = employee,
             c_coverage = coverageForShift (windows_of availabilityMap (e_id employee))
                            (s_start shift) (s_end shift)\<rparr>"
  from good have "?x \<in> set (survivors P employeeMap availabilityMap st shift)"
    by (simp add: survivors_def covered_candidates_def free_pool_eq withinCap_def
          availabilityCandidates_def active_pool_eq coverage_covers image_iff
          del: needed_token_eq)
  then have "c_employee ?x \<in> ?left"
    by (rule imageI)
  then show "employee \<in> ?left"
    by simp
qed

text \<open>
  C6, as the code has it. When the scheduler assigns a shift afresh (the shift has its
  times, and no existing assignment is kept), the candidates that survive are the active
  employees with an accepted role, a covering window, hours within their cap and no
  conflicting block; when there is one, the employee that the scheduler commits is a
  survivor that no survivor comes before in the order: an employee with a preferred
  covering window first; among ties, fewer cumulative hours; among ties, fewer committed
  assignments; among ties, the name that \<open>localeCompare\<close> puts first. The last key is the
  collation of the platform, of which the theorem asks that it orders the strings; it is
  not the lexicographic order of the character codes.
\<close>

theorem tie_break_least:
  assumes "collation P"
    and "s_start shift \<noteq> None" and "s_end shift \<noteq> None"
    and "\<not> keeps_existing P employeeMap availabilityMap existing st shift"
    and "survivors P employeeMap availabilityMap st shift \<noteq> []"
    and "process_shift P employeeMap availabilityMap existing st shift = Inr st'"
  shows "c_employee ` set (survivors P employeeMap availabilityMap st shift)
       = {employee \<in> snd ` set employeeMap.
            e_status employee = ''active''
            \<and> role_accepted P (e_role employee) (needed_token P shift)
            \<and> list_ex (\<lambda>w. covers_spec w shift)
                  (windows_of availabilityMap (e_id employee))
            \<and> total_of (st_totals st) (e_id employee) + s_hours shift
                  \<le> e_weeklyCap employee
            \<and> \<not> clashes P (Some (blocks_of (st_blocks st) (e_id employee)))
                   (s_start shift) (s_end shift)}
     \<and> (\<exists>chosen \<in> set (survivors P employeeMap availabilityMap st shift).
           st_assignments st' = st_assignments st @
             [\<lparr>a_shiftId = s_id shift, a_employeeId = e_id (c_employee chosen),
               a_reason = None\<rparr>]
           \<and> (\<forall>other \<in> set (survivors P employeeMap availabilityMap st shift).
                 \<not> precedes (collates_before P) P availabilityMap st shift
                     (c_employee other) (c_employee chosen)))"
proof -
  let ?free = "survivors P employeeMap availabilityMap st shift"
  from process_shift_fresh [OF assms(2,3,4)] assms(6)
  obtain iss where fresh: "assignFresh P employeeMap availabilityMap (st\<lparr>st_issues := iss\<rparr>)
      shift (needed_token P shift) = Inr st'"
    by auto
  have free: "free_pool P (st\<lparr>st_issues := iss\<rparr>) shift
      (withinCap (st\<lparr>st_issues := iss\<rparr>) shift
         (availabilityCandidates availabilityMap shift
            (active_pool P employeeMap (needed_token P shift)))) = ?free"
    by (simp add: survivors_def covered_candidates_def del: needed_token_eq)
  from assignFresh_chosen [OF assms(1) free assms(5) fresh]
  obtain chosen where chosen: "chosen \<in> set ?free"
    and st': "st' = commit (st\<lparr>st_issues := iss\<rparr>) (e_id (c_employee chosen)) shift"
    and least: "\<forall>other \<in> set ?free. \<not> candidate_before P st other chosen"
    by auto
  from least chosen
  have "\<forall>other \<in> set ?free. \<not> precedes (collates_before P) P availabilityMap st shift
      (c_employee other) (c_employee chosen)"
    by (simp add: survivors_before)
  with chosen st' have "\<exists>chosen \<in> set ?free.
           st_assignments st' = st_assignments st @
             [\<lparr>a_shiftId = s_id shift, a_employeeId = e_id (c_employee chosen),
               a_reason = None\<rparr>]
           \<and> (\<forall>other \<in> set ?free.
                 \<not> precedes (collates_before P) P availabilityMap st shift
                     (c_employee other) (c_employee chosen))"
    by auto
  with survivors_employees [of P employeeMap availabilityMap st shift] show ?thesis
    by blast
qed

lemma str_compare_Nil: "\<not> str_compare c [] < 0"
  by (cases c) simp_all

lemma str_compare_asym: "str_compare a b < 0 \<Longrightarrow> \<not> str_compare b a < 0"
  by (induction a b rule: str_compare.induct) (simp_all split: if_splits)

lemma str_compare_Cons:
  "str_compare (x # xs) (y # ys) < 0
     \<longleftrightarrow> (of_char x :: nat) < of_char y \<or> ((of_char x :: nat) = of_char y \<and> str_compare xs ys < 0)"
  by auto

lemma str_compare_trans:
  "\<not> str_compare b a < 0 \<Longrightarrow> \<not> str_compare c b < 0 \<Longrightarrow> \<not> str_compare c a < 0"
proof (induction a arbitrary: b c)
  case Nil
  then show ?case by (simp add: str_compare_Nil)
next
  case (Cons x xs)
  show ?case
  proof (cases b)
    case Nil
    with Cons.prems show ?thesis by simp
  next
    case b: (Cons y ys)
    show ?thesis
    proof (cases c)
      case Nil
      with Cons.prems b show ?thesis by simp
    next
      case c: (Cons z zs)
      from Cons.prems(1) b have 1: "(of_char x :: nat) \<le> of_char y"
        and 2: "(of_char y :: nat) = of_char x \<Longrightarrow> \<not> str_compare ys xs < 0"
        by (simp_all only: str_compare_Cons) auto
      from Cons.prems(2) b c have 3: "(of_char y :: nat) \<le> of_char z"
        and 4: "(of_char z :: nat) = of_char y \<Longrightarrow> \<not> str_compare zs ys < 0"
        by (simp_all only: str_compare_Cons) auto
      have "\<not> str_compare zs xs < 0" if "(of_char z :: nat) = of_char x"
      proof -
        from that 1 3 have "(of_char y :: nat) = of_char x" "(of_char z :: nat) = of_char y"
          by auto
        with 2 4 Cons.IH show ?thesis by blast
      qed
      with 1 3 show ?thesis
        unfolding c str_compare_Cons by auto
    qed
  qed
qed

lemma collation_example: "collation example_platform"
proof -
  have lc: "locale_compare example_platform = str_compare"
    by (simp add: example_platform_def)
  show ?thesis
    unfolding collation_def lc
  proof (intro conjI allI impI)
    fix a b
    assume "str_compare a b < 0"
    then show "\<not> str_compare b a < 0" by (rule str_compare_asym)
  next
    fix a b c
    assume "\<not> str_compare b a < 0" and "\<not> str_compare c b < 0"
    then show "\<not> str_compare c a < 0" by (rule str_compare_trans)
  qed
qed

theorem tie_break_least_witness:
  "(\<exists>chosen \<in> set (survivors example_platform example_staff example_cover_preferred
                      empty_state (example_day_shift ''s1'' 0)).
      e_id (c_employee chosen) = JStr ''e1''
      \<and> (\<forall>other \<in> set (survivors example_platform example_staff example_cover_preferred
                           empty_state (example_day_shift ''s1'' 0)).
            \<not> precedes (collates_before example_platform) example_platform
                example_cover_preferred empty_state (example_day_shift ''s1'' 0)
                (c_employee other) (c_employee chosen)))
   \<and> (\<exists>chosen \<in> set (survivors example_platform example_staff example_cover
                        example_ann_busy (example_day_shift ''s1'' 0)).
        e_id (c_employee chosen) = JStr ''e1''
        \<and> (\<forall>other \<in> set (survivors example_platform example_staff example_cover
                             example_ann_busy (example_day_shift ''s1'' 0)).
              \<not> precedes (collates_before example_platform) example_platform
                  example_cover example_ann_busy (example_day_shift ''s1'' 0)
                  (c_employee other) (c_employee chosen)))
   \<and> (\<exists>chosen \<in> set (survivors example_platform example_staff example_cover
                        example_same_hours (example_day_shift ''s1'' 0)).
        e_id (c_employee chosen) = JStr ''e1''
        \<and> (\<forall>other \<in> set (survivors example_platform example_staff example_cover
                             example_same_hours (example_day_shift ''s1'' 0)).
              \<not> precedes (collates_before example_platform) example_platform
                  example_cover example_same_hours (example_day_shift ''s1'' 0)
                  (c_employee other) (c_employee chosen)))
   \<and> (\<exists>chosen \<in> set (survivors example_platform example_staff example_cover
                        empty_state (example_day_shift ''s1'' 0)).
        e_id (c_employee chosen) = JStr ''e2''
        \<and> (\<forall>other \<in> set (survivors example_platform example_staff example_cover
                             empty_state (example_day_shift ''s1'' 0)).
              \<not> precedes (collates_before example_platform) example_platform
                  example_cover empty_state (example_day_shift ''s1'' 0)
                  (c_employee other) (c_employee chosen)))"
proof -
  let ?shift = "example_day_shift ''s1'' 0"
  let ?block = "\<lparr>b_start = Some (Some 25200000), b_end = Some (Some 68400000),
                  b_shiftId = JStr ''s1''\<rparr>"
  have times: "s_start ?shift \<noteq> None" "s_end ?shift \<noteq> None"
    by (simp_all add: example_day_shift_def)
  note claim = tie_break_least [OF collation_example times]

  have fresh1: "\<not> keeps_existing example_platform example_staff example_cover_preferred []
      empty_state ?shift"
    by code_simp
  have some1: "survivors example_platform example_staff example_cover_preferred empty_state
      ?shift \<noteq> []"
    by code_simp
  have run1: "process_shift example_platform example_staff example_cover_preferred []
      empty_state ?shift
    = Inr \<lparr>st_assignments =
             [\<lparr>a_shiftId = JStr ''s1'', a_employeeId = JStr ''e1'', a_reason = None\<rparr>],
           st_issues = [], st_totals = [(JStr ''e1'', 12)],
           st_blocks = [(JStr ''e1'', [?block])]\<rparr>"
    by code_simp
  from claim [OF fresh1 some1 run1]
  obtain chosenpreferred where
    memberpreferred: "chosenpreferred \<in> set (survivors example_platform example_staff
        example_cover_preferred empty_state ?shift)"
    and assignedpreferred: "[\<lparr>a_shiftId = JStr ''s1'', a_employeeId = JStr ''e1'', a_reason = None\<rparr>]
      = st_assignments empty_state @
          [\<lparr>a_shiftId = s_id ?shift, a_employeeId = e_id (c_employee chosenpreferred),
            a_reason = None\<rparr>]"
    and leastpreferred: "\<forall>other \<in> set (survivors example_platform example_staff
        example_cover_preferred empty_state ?shift).
      \<not> precedes (collates_before example_platform) example_platform example_cover_preferred empty_state ?shift
          (c_employee other) (c_employee chosenpreferred)"
    by auto
  from assignedpreferred have "e_id (c_employee chosenpreferred) = JStr ''e1''"
    by (simp add: empty_state_def example_day_shift_def)
  with memberpreferred leastpreferred
  have preferred: "\<exists>chosen \<in> set (survivors example_platform example_staff
        example_cover_preferred empty_state ?shift).
      e_id (c_employee chosen) = JStr ''e1''
      \<and> (\<forall>other \<in> set (survivors example_platform example_staff example_cover_preferred
                           empty_state ?shift).
            \<not> precedes (collates_before example_platform) example_platform
                example_cover_preferred empty_state ?shift
                (c_employee other) (c_employee chosen))"
    by blast

  have fresh2: "\<not> keeps_existing example_platform example_staff example_cover []
      example_ann_busy ?shift"
    by code_simp
  have some2: "survivors example_platform example_staff example_cover example_ann_busy
      ?shift \<noteq> []"
    by code_simp
  have run2: "process_shift example_platform example_staff example_cover []
      example_ann_busy ?shift
    = Inr \<lparr>st_assignments =
             [\<lparr>a_shiftId = JStr ''s1'', a_employeeId = JStr ''e1'', a_reason = None\<rparr>],
           st_issues = [], st_totals = [(JStr ''e2'', 12), (JStr ''e1'', 12)],
           st_blocks =
             [(JStr ''e2'',
               [\<lparr>b_start = Some (Some 284400000), b_end = Some (Some 327600000),
                 b_shiftId = JStr ''s8''\<rparr>]),
              (JStr ''e1'', [?block])]\<rparr>"
    by code_simp
  from claim [OF fresh2 some2 run2]
  obtain chosenhours where
    memberhours: "chosenhours \<in> set (survivors example_platform example_staff example_cover
        example_ann_busy ?shift)"
    and assignedhours: "[\<lparr>a_shiftId = JStr ''s1'', a_employeeId = JStr ''e1'', a_reason = None\<rparr>]
      = st_assignments example_ann_busy @
          [\<lparr>a_shiftId = s_id ?shift, a_employeeId = e_id (c_employee chosenhours),
            a_reason = None\<rparr>]"
    and leasthours: "\<forall>other \<in> set (survivors example_platform example_staff example_cover
        example_ann_busy ?shift).
      \<not> precedes (collates_before example_platform) example_platform example_cover example_ann_busy ?shift
          (c_employee other) (c_employee chosenhours)"
    by auto
  from assignedhours have "e_id (c_employee chosenhours) = JStr ''e1''"
    by (simp add: example_ann_busy_def example_day_shift_def)
  with memberhours leasthours
  have hours: "\<exists>chosen \<in> set (survivors example_platform example_staff example_cover
        example_ann_busy ?shift).
      e_id (c_employee chosen) = JStr ''e1''
      \<and> (\<forall>other \<in> set (survivors example_platform example_staff example_cover
                           example_ann_busy ?shift).
            \<not> precedes (collates_before example_platform) example_platform
                example_cover example_ann_busy ?shift
                (c_employee other) (c_employee chosen))"
    by blast

  have fresh3: "\<not> keeps_existing example_platform example_staff example_cover []
      example_same_hours ?shift"
    by code_simp
  have some3: "survivors example_platform example_staff example_cover example_same_hours
      ?shift \<noteq> []"
    by code_simp
  have run3: "process_shift example_platform example_staff example_cover []
      example_same_hours ?shift
    = Inr \<lparr>st_assignments =
             [\<lparr>a_shiftId = JStr ''s1'', a_employeeId = JStr ''e1'', a_reason = None\<rparr>],
           st_issues = [], st_totals = [(JStr ''e1'', 24), (JStr ''e2'', 12)],
           st_blocks =
             [(JStr ''e1'',
               [\<lparr>b_start = Some (Some 284400000), b_end = Some (Some 327600000),
                 b_shiftId = JStr ''s8''\<rparr>,
                ?block]),
              (JStr ''e2'',
               [\<lparr>b_start = Some (Some 284400000), b_end = Some (Some 306000000),
                 b_shiftId = JStr ''s6''\<rparr>,
                \<lparr>b_start = Some (Some 306000000), b_end = Some (Some 327600000),
                 b_shiftId = JStr ''s7''\<rparr>])]\<rparr>"
    by code_simp
  from claim [OF fresh3 some3 run3]
  obtain chosencount where
    membercount: "chosencount \<in> set (survivors example_platform example_staff example_cover
        example_same_hours ?shift)"
    and assignedcount: "[\<lparr>a_shiftId = JStr ''s1'', a_employeeId = JStr ''e1'', a_reason = None\<rparr>]
      = st_assignments example_same_hours @
          [\<lparr>a_shiftId = s_id ?shift, a_employeeId = e_id (c_employee chosencount),
            a_reason = None\<rparr>]"
    and leastcount: "\<forall>other \<in> set (survivors example_platform example_staff example_cover
        example_same_hours ?shift).
      \<not> precedes (collates_before example_platform) example_platform example_cover example_same_hours ?shift
          (c_employee other) (c_employee chosencount)"
    by auto
  from assignedcount have "e_id (c_employee chosencount) = JStr ''e1''"
    by (simp add: example_same_hours_def example_day_shift_def)
  with membercount leastcount
  have count: "\<exists>chosen \<in> set (survivors example_platform example_staff example_cover
        example_same_hours ?shift).
      e_id (c_employee chosen) = JStr ''e1''
      \<and> (\<forall>other \<in> set (survivors example_platform example_staff example_cover
                           example_same_hours ?shift).
            \<not> precedes (collates_before example_platform) example_platform
                example_cover example_same_hours ?shift
                (c_employee other) (c_employee chosen))"
    by blast

  have fresh4: "\<not> keeps_existing example_platform example_staff example_cover []
      empty_state ?shift"
    by code_simp
  have some4: "survivors example_platform example_staff example_cover empty_state
      ?shift \<noteq> []"
    by code_simp
  have run4: "process_shift example_platform example_staff example_cover []
      empty_state ?shift
    = Inr \<lparr>st_assignments =
             [\<lparr>a_shiftId = JStr ''s1'', a_employeeId = JStr ''e2'', a_reason = None\<rparr>],
           st_issues = [], st_totals = [(JStr ''e2'', 12)],
           st_blocks = [(JStr ''e2'', [?block])]\<rparr>"
    by code_simp
  from claim [OF fresh4 some4 run4]
  obtain chosenname where
    membername: "chosenname \<in> set (survivors example_platform example_staff example_cover
        empty_state ?shift)"
    and assignedname: "[\<lparr>a_shiftId = JStr ''s1'', a_employeeId = JStr ''e2'', a_reason = None\<rparr>]
      = st_assignments empty_state @
          [\<lparr>a_shiftId = s_id ?shift, a_employeeId = e_id (c_employee chosenname),
            a_reason = None\<rparr>]"
    and leastname: "\<forall>other \<in> set (survivors example_platform example_staff example_cover
        empty_state ?shift).
      \<not> precedes (collates_before example_platform) example_platform example_cover empty_state ?shift
          (c_employee other) (c_employee chosenname)"
    by auto
  from assignedname have "e_id (c_employee chosenname) = JStr ''e2''"
    by (simp add: empty_state_def example_day_shift_def)
  with membername leastname
  have name: "\<exists>chosen \<in> set (survivors example_platform example_staff example_cover
        empty_state ?shift).
      e_id (c_employee chosen) = JStr ''e2''
      \<and> (\<forall>other \<in> set (survivors example_platform example_staff example_cover
                           empty_state ?shift).
            \<not> precedes (collates_before example_platform) example_platform
                example_cover empty_state ?shift
                (c_employee other) (c_employee chosen))"
    by blast

  from preferred hours count name show ?thesis
    by blast
qed

text \<open>
  C6, as the claim states it, fails where the collation of the platform is not the
  order of the character codes. For two aides named \<open>Bob\<close> and \<open>adam\<close>, tied on the
  first three keys, a platform with the collation of a dictionary puts \<open>adam\<close> first and
  the scheduler commits that aide; \<open>Bob\<close> is the lexicographically smaller name (the
  code of \<open>B\<close> is 66, that of \<open>a\<close> is 97), so in the order of the claim the aide named
  \<open>Bob\<close> comes strictly before the one that is chosen.
\<close>

theorem tie_break_lexicographic_counterexample:
  "process_shift dictionary_platform
     [(JStr ''e1'', example_bob), (JStr ''e2'', example_adam)] example_cover []
     empty_state (example_day_shift ''s1'' 0)
   = Inr \<lparr>st_assignments =
            [\<lparr>a_shiftId = JStr ''s1'', a_employeeId = JStr ''e2'', a_reason = None\<rparr>],
          st_issues = [], st_totals = [(JStr ''e2'', 12)],
          st_blocks =
            [(JStr ''e2'',
              [\<lparr>b_start = Some (Some 25200000), b_end = Some (Some 68400000),
                b_shiftId = JStr ''s1''\<rparr>])]\<rparr>
   \<and> map c_employee
       (survivors dictionary_platform
          [(JStr ''e1'', example_bob), (JStr ''e2'', example_adam)] example_cover
          empty_state (example_day_shift ''s1'' 0))
     = [example_bob, example_adam]
   \<and> lexicographically_smaller ''Bob'' ''adam''
   \<and> precedes lexicographically_smaller dictionary_platform example_cover empty_state
       (example_day_shift ''s1'' 0) example_bob example_adam"
  by code_simp

section \<open>Maps and loops\<close>

lemma map_get_map_set [simp]:
  "map_get (map_set m k v) k' = (if k' = k then Some v else map_get m k')"
  by (induction m) (auto simp: map_get_def)

lemma keys_map_set [simp]: "fst ` set (map_set m k v) = insert k (fst ` set m)"
proof (induction m)
  case Nil
  then show ?case by simp
next
  case (Cons p m)
  obtain k' v' where p: "p = (k', v')" by (cases p)
  show ?case
    using Cons p by (cases "k' = k") (simp_all add: insert_commute)
qed

lemma set_map_set: "set (map_set m k v) \<subseteq> insert (k, v) (set m)"
  by (induction m) (auto split: if_splits)

lemma distinct_map_set [simp]:
  "distinct (map fst m) \<Longrightarrow> distinct (map fst (map_set m k v))"
proof (induction m)
  case Nil
  then show ?case by simp
next
  case (Cons p m)
  have "fst ` set (map_set m k v) = insert k (fst ` set m)" by simp
  with Cons show ?case
    by (cases p) (auto simp del: keys_map_set)
qed

lemma map_get_distinct: "distinct (map fst m) \<Longrightarrow> (k, v) \<in> set m \<Longrightarrow> map_get m k = Some v"
  by (simp add: map_get_def)

lemma map_get_SomeD: "map_get m k = Some v \<Longrightarrow> (k, v) \<in> set m"
  by (simp add: map_get_def map_of_SomeD)

lemma map_get_Nil [simp]: "map_get [] k = None"
  by (simp add: map_get_def)

lemma total_of_map_set [simp]:
  "total_of (map_set m k v) k' = (if k' = k then v else total_of m k')"
  by (simp add: total_of_def)

lemma blocks_of_map_set [simp]:
  "blocks_of (map_set m k v) k' = (if k' = k then v else blocks_of m k')"
  by (simp add: blocks_of_def)

lemma forEach_append:
  "forEach f s (xs @ ys) = (case forEach f s xs of Inl e \<Rightarrow> Inl e | Inr s' \<Rightarrow> forEach f s' ys)"
proof (induction xs arbitrary: s)
  case Nil
  then show ?case by simp
next
  case (Cons x xs)
  then show ?case by (cases "f s x") simp_all
qed

text \<open>A loop that ends without an exception keeps what each round keeps; \<open>done\<close> are
  the elements it has been through.\<close>

lemma forEach_rounds:
  assumes "forEach f s xs = Inr s'"
    and "I done s"
    and "set xs \<subseteq> A"
    and "\<And>done x s s'. I done s \<Longrightarrow> x \<in> A \<Longrightarrow> f s x = Inr s' \<Longrightarrow> I (done @ [x]) s'"
  shows "I (done @ xs) s'"
  using assms(1-3)
proof (induction xs arbitrary: s "done")
  case Nil
  then show ?case by simp
next
  case (Cons x xs)
  from Cons.prems(1) obtain s1 where s1: "f s x = Inr s1" and rest: "forEach f s1 xs = Inr s'"
    by (cases "f s x") auto
  from Cons.prems(2,3) s1 have "I (done @ [x]) s1"
    by (auto intro: assms(4))
  from Cons.IH [OF rest this] Cons.prems(3) show ?case by simp
qed

lemma forEach_invariant:
  assumes "forEach f s xs = Inr s'"
    and "I [] s"
    and "\<And>done x s s'. I done s \<Longrightarrow> x \<in> set xs \<Longrightarrow> f s x = Inr s' \<Longrightarrow> I (done @ [x]) s'"
  shows "I xs s'"
  using forEach_rounds [of f s xs s' I "[]" "set xs"] assms by simp

text \<open>Every prefix of a pass that ends without an exception does so too.\<close>

lemma forEach_take:
  "forEach f s xs = Inr s' \<Longrightarrow> \<exists>s1. forEach f s (take n xs) = Inr s1"
proof -
  assume "forEach f s xs = Inr s'"
  then have "forEach f s (take n xs @ drop n xs) = Inr s'" by simp
  then show ?thesis
    unfolding forEach_append by (cases "forEach f s (take n xs)") auto
qed

lemma forEach_total:
  "(\<And>s x. x \<in> set xs \<Longrightarrow> \<exists>s'. f s x = Inr s') \<Longrightarrow> \<exists>s'. forEach f s xs = Inr s'"
proof (induction xs arbitrary: s)
  case Nil
  then show ?case by simp
next
  case (Cons x xs)
  from Cons.prems [of x s] obtain s1 where "f s x = Inr s1" by auto
  moreover from Cons.IH [of s1] Cons.prems obtain s' where "forEach f s1 xs = Inr s'"
    by auto
  ultimately show ?case by simp
qed

section \<open>What the normalisation establishes\<close>

lemma is_space_upper [simp]: "is_space (upper_char c) = is_space c"
  by (simp add: upper_char_def is_space_def)

lemma upper_upper [simp]: "upper_char (upper_char c) = upper_char c"
  by (simp add: upper_char_def)

lemma dropWhile_space_upper:
  "dropWhile is_space (map upper_char s) = map upper_char (dropWhile is_space s)"
  by (induction s) simp_all

lemma trim_upper: "trim (toUpperCase s) = toUpperCase (trim s)"
  by (simp add: trim_def toUpperCase_def dropWhile_space_upper rev_map)

lemma dropWhile_rev_dropWhile:
  "dropWhile Q (rev (dropWhile Q (rev (dropWhile Q s)))) = rev (dropWhile Q (rev (dropWhile Q s)))"
proof (cases "dropWhile Q s")
  case Nil
  show ?thesis unfolding Nil by simp
next
  case (Cons x t)
  then have x: "\<not> Q x"
    by (metis hd_dropWhile list.sel(1) list.simps(3))
  have "dropWhile Q (rev t @ [x]) \<noteq> []"
    using x by (simp add: dropWhile_append)
  moreover have "last (dropWhile Q (rev t @ [x])) = x"
    using x by (induction "rev t" arbitrary: t) (auto simp: dropWhile_append3 dropWhile_append)
  ultimately have "hd (rev (dropWhile Q (rev (x # t)))) = x"
    by (simp add: hd_rev)
  with x Cons show ?thesis
    by (simp add: dropWhile_eq_self_iff)
qed

lemma trim_trim: "trim (trim s) = trim s"
proof -
  let ?u = "rev (dropWhile is_space (rev (dropWhile is_space s)))"
  have "dropWhile is_space ?u = ?u" by (rule dropWhile_rev_dropWhile)
  then have "trim ?u = rev (dropWhile is_space (rev ?u))" by (simp add: trim_def)
  also have "\<dots> = ?u" by simp
  finally show ?thesis by (simp add: trim_def)
qed

lemma toUpperCase_idem: "toUpperCase (toUpperCase s) = toUpperCase s"
  by (simp add: toUpperCase_def)

lemma normal_token_upper_trim [simp]: "normal_token (toUpperCase (trim s))"
  by (simp add: normal_token_def trim_upper trim_trim toUpperCase_idem)

lemma normal_token_Nil [simp]: "normal_token []"
  by (simp add: normal_token_def trim_def toUpperCase_def)

section \<open>What the normalisation establishes\<close>

lemma forEach_entries:
  assumes "forEach f m0 xs = Inr m"
    and "\<And>m1 x m2. f m1 x = Inr m2 \<Longrightarrow> set m2 \<subseteq> set m1 \<union> {y. Q x y}"
    and "y \<in> set m"
  shows "y \<in> set m0 \<or> (\<exists>x \<in> set xs. Q x y)"
  using assms(1,3)
proof (induction xs arbitrary: m0)
  case Nil
  then show ?case by simp
next
  case (Cons x xs)
  from Cons.prems(1) obtain m1 where step: "f m0 x = Inr m1"
    and rest: "forEach f m1 xs = Inr m"
    by (cases "f m0 x") auto
  from Cons.IH [OF rest Cons.prems(2)] assms(2) [OF step] show ?case
    by auto
qed

lemma forEach_keeps:
  assumes "forEach f m0 xs = Inr m"
    and "\<And>m1 x m2. I m1 \<Longrightarrow> f m1 x = Inr m2 \<Longrightarrow> I m2"
    and "I m0"
  shows "I m"
  using assms(1,3)
proof (induction xs arbitrary: m0)
  case Nil
  then show ?case by simp
next
  case (Cons x xs)
  from Cons.prems(1) obtain m1 where step: "f m0 x = Inr m1"
    and rest: "forEach f m1 xs = Inr m"
    by (cases "f m0 x") auto
  from Cons.IH [OF rest assms(2) [OF Cons.prems(2) step]] show ?case .
qed

lemma forEach_filter_skip:
  "(\<And>m x. \<not> p x \<Longrightarrow> g m x = Inr m) \<Longrightarrow> forEach g m (filter p xs) = forEach g m xs"
proof (induction xs arbitrary: m)
  case Nil
  then show ?case by simp
next
  case (Cons x xs)
  show ?case
  proof (cases "p x")
    case True
    with Cons show ?thesis by (cases "g m x") simp_all
  next
    case False
    with Cons.prems [OF False, of m] Cons.IH [OF Cons.prems] show ?thesis by simp
  qed
qed

lemma forEach_filter_idle:
  assumes "forEach g m xs = Inr m'"
    and "\<And>m1 x m2. \<not> p x \<Longrightarrow> g m1 x = Inr m2 \<Longrightarrow> m2 = m1"
  shows "forEach g m (filter p xs) = Inr m'"
  using assms(1)
proof (induction xs arbitrary: m)
  case Nil
  then show ?case by simp
next
  case (Cons x xs)
  from Cons.prems obtain m1 where step: "g m x = Inr m1"
    and rest: "forEach g m1 xs = Inr m'"
    by (cases "g m x") auto
  show ?case
  proof (cases "p x")
    case True
    with step Cons.IH [OF rest] show ?thesis by simp
  next
    case False
    with assms(2) [OF False step] Cons.IH [OF rest] show ?thesis by simp
  qed
qed

lemma collect_Inr_map: "collect rs = Inr xs \<Longrightarrow> rs = map Inr xs"
proof (induction rs arbitrary: xs)
  case Nil
  then show ?case by simp
next
  case (Cons r rs)
  then show ?case
    by (cases r; cases "collect rs") auto
qed

subsection \<open>Employees\<close>

lemma employee_of_fields:
  assumes "employee_of P r k = Inr e"
  shows "e_id e = k"
    and "e_name e = js_or (readField r [''name'', ''Name'']) (JStr [])"
    and "normal_token (e_role e)"
    and "0 < e_weeklyCap e"
  using assms
  by (auto simp: employee_of_def DEFAULT_WEEKLY_CAP_def split: sum.splits option.splits)

lemma add_employee_entries:
  assumes "add_employee P m1 r = Inr m2"
  shows "set m2 \<subseteq> set m1 \<union> {(k, e). truthy k
      \<and> k = readField r [''id'', ''employee_id'', ''employeeId'']
      \<and> employee_of P r k = Inr e}"
proof (cases "truthy (readField r [''id'', ''employee_id'', ''employeeId''])")
  case False
  with assms show ?thesis by (simp add: add_employee_def)
next
  case True
  with assms obtain e
    where e: "employee_of P r (readField r [''id'', ''employee_id'', ''employeeId'']) = Inr e"
      and m2: "m2 = map_set m1 (readField r [''id'', ''employee_id'', ''employeeId'']) e"
    by (cases "employee_of P r (readField r [''id'', ''employee_id'', ''employeeId''])")
       (auto simp: add_employee_def)
  with True set_map_set [of m1 "readField r [''id'', ''employee_id'', ''employeeId'']" e]
  show ?thesis by auto
qed

lemma normalizeEmployees_entries:
  assumes "normalizeEmployees P rs = Inr m" and "(k, e) \<in> set m"
  shows "\<exists>r \<in> set rs. truthy k \<and> k = readField r [''id'', ''employee_id'', ''employeeId'']
                       \<and> employee_of P r k = Inr e"
proof -
  from assms(1) have run: "forEach (add_employee P) [] rs = Inr m"
    by (simp add: normalizeEmployees_def)
  from forEach_entries [OF run, where Q = "\<lambda>r (k, e). truthy k
      \<and> k = readField r [''id'', ''employee_id'', ''employeeId'']
      \<and> employee_of P r k = Inr e", OF _ assms(2)] add_employee_entries
  show ?thesis by fastforce
qed

lemma add_employee_distinct:
  "distinct (map fst m1) \<Longrightarrow> add_employee P m1 r = Inr m2 \<Longrightarrow> distinct (map fst m2)"
  by (auto simp: add_employee_def Let_def split: if_splits sum.splits)

lemma normalizeEmployees_wf:
  assumes "normalizeEmployees P rs = Inr m"
  shows "wf_employees m"
proof -
  from assms have run: "forEach (add_employee P) [] rs = Inr m"
    by (simp add: normalizeEmployees_def)
  have "distinct (map fst m)"
    by (rule forEach_keeps [where I = "\<lambda>m. distinct (map fst m)", OF run])
       (auto intro: add_employee_distinct)
  moreover have "e_id e = k \<and> truthy k \<and> normal_token (e_role e) \<and> 0 < e_weeklyCap e"
    if "(k, e) \<in> set m" for k e
    using normalizeEmployees_entries [OF assms that] employee_of_fields by blast
  ultimately show ?thesis
    by (auto simp: wf_employees_def)
qed

lemma string_name_js_or [simp]: "string_name (js_or v (JStr [])) = string_name v"
  by (simp add: string_name_def js_or_def)

lemma normalizeEmployees_names:
  assumes "\<forall>r \<in> set rs. string_name (readField r [''name'', ''Name''])"
    and "normalizeEmployees P rs = Inr m"
    and "(k, e) \<in> set m"
  shows "string_name (e_name e)"
  using normalizeEmployees_entries [OF assms(2,3)] assms(1) employee_of_fields(2)
  by fastforce

lemma normalizeEmployees_filter:
  "normalizeEmployees P (filter (\<lambda>r. truthy (readField r [''id'', ''employee_id'', ''employeeId''])) rs)
     = normalizeEmployees P rs"
  unfolding normalizeEmployees_def
  by (rule forEach_filter_skip) (simp add: add_employee_def)

subsection \<open>Shifts\<close>

lemma shift_of_Some:
  "shift_of P r = Inr (Some s)
     \<Longrightarrow> truthy (s_id s) \<and> s_id s = readField r [''id'', ''shift_id'', ''Shift Id'', ''shiftId'']
         \<and> normal_token (s_roleNeeded s)"
  by (auto simp: shift_of_def Let_def split: if_splits sum.splits)

lemma set_map_filter: "set (List.map_filter f xs) = {y. \<exists>x \<in> set xs. f x = Some y}"
  by (induction xs) (auto simp: List.map_filter_simps split: option.splits)

lemma normalizeShiftRecords_members:
  assumes "normalizeShiftRecords P rs = Inr shifts" and "s \<in> set shifts"
  shows "\<exists>r \<in> set rs. shift_of P r = Inr (Some s)"
proof -
  from assms(1) obtain found where found: "collect (map (shift_of P) rs) = Inr found"
    and shifts: "shifts = List.map_filter (\<lambda>s. s) found"
    by (cases "collect (map (shift_of P) rs)") (auto simp: normalizeShiftRecords_def)
  from collect_Inr_map [OF found] have "map (shift_of P) rs = map Inr found" .
  moreover from assms(2) shifts have "Some s \<in> set found"
    by (simp add: set_map_filter)
  ultimately have "Inr (Some s) \<in> set (map (shift_of P) rs)"
    by simp
  then show ?thesis by auto
qed

lemma normalizeShiftRecords_wf:
  "normalizeShiftRecords P rs = Inr shifts \<Longrightarrow> s \<in> set shifts \<Longrightarrow> wf_shift s"
  using normalizeShiftRecords_members [of P rs shifts s] shift_of_Some [of P _ s]
  by (auto simp: wf_shift_def)

lemma collect_filter_skip:
  "(\<And>x. \<not> p x \<Longrightarrow> f x = Inr None)
     \<Longrightarrow> (case collect (map f (filter p xs)) of
            Inl e \<Rightarrow> Inl e
          | Inr found \<Rightarrow> Inr (List.map_filter (\<lambda>s. s) found))
         = (case collect (map f xs) of
              Inl e \<Rightarrow> Inl e
            | Inr found \<Rightarrow> Inr (List.map_filter (\<lambda>s. s) found))"
proof (induction xs)
  case Nil
  then show ?case by simp
next
  case (Cons x xs)
  show ?case
  proof (cases "p x")
    case True
    with Cons show ?thesis
      by (cases "f x"; cases "collect (map f (filter p xs))"; cases "collect (map f xs)")
         (auto simp: List.map_filter_simps split: option.splits)
  next
    case False
    with Cons show ?thesis
      by (cases "collect (map f xs)") (simp_all add: List.map_filter_simps)
  qed
qed

lemma normalizeShiftRecords_filter:
  "normalizeShiftRecords P
     (filter (\<lambda>r. truthy (readField r [''id'', ''shift_id'', ''Shift Id'', ''shiftId''])) rs)
     = normalizeShiftRecords P rs"
  unfolding normalizeShiftRecords_def
  by (rule collect_filter_skip) (simp add: shift_of_def Let_def)

subsection \<open>Availability windows\<close>

lemma parsed_windows_push:
  assumes "parsed_windows m"
    and "case w_start w of Some d \<Rightarrow> getTime d \<noteq> None | None \<Rightarrow> False"
    and "w_end w \<noteq> None"
  shows "parsed_windows (map_set m k (windows_of m k @ [w]))"
proof -
  let ?ok = "\<lambda>w. (case w_start w of Some d \<Rightarrow> getTime d \<noteq> None | None \<Rightarrow> False)
      \<and> w_end w \<noteq> None"
  have old: "\<forall>w' \<in> set (windows_of m k). ?ok w'"
  proof (cases "map_get m k")
    case None
    then show ?thesis by (simp add: windows_of_def)
  next
    case (Some ws)
    then have "(k, ws) \<in> set m" by (rule map_get_SomeD)
    with assms(1) Some show ?thesis
      by (auto simp: windows_of_def parsed_windows_def)
  qed
  show ?thesis
    unfolding parsed_windows_def
  proof (intro ballI, clarify)
    fix k' ws w'
    assume "(k', ws) \<in> set (map_set m k (windows_of m k @ [w]))" and w': "w' \<in> set ws"
    with set_map_set [of m k "windows_of m k @ [w]"]
    consider "(k', ws) \<in> set m" | "ws = windows_of m k @ [w]" by auto
    then show "?ok w'"
    proof cases
      case 1
      with assms(1) w' show ?thesis by (auto simp: parsed_windows_def)
    next
      case 2
      with old assms(2,3) w' show ?thesis by auto
    qed
  qed
qed

lemma parsed_windows_pushes:
  assumes "case w_start w of Some d \<Rightarrow> getTime d \<noteq> None | None \<Rightarrow> False"
    and "w_end w \<noteq> None"
  shows "parsed_windows m
    \<Longrightarrow> parsed_windows (foldl (\<lambda>av k. map_set av k (windows_of av k @ [w])) m ks)"
  by (induction ks arbitrary: m) (simp_all add: parsed_windows_push assms)

lemma normalizeRange_start_valid:
  assumes "normalizeRange P start end' = Inr r" and "r_start r = Some d"
  shows "getTime d \<noteq> None"
proof -
  from assms obtain s where "toDate P start = Inr (Some s)" and "d = Some s"
    by (cases "toDate P start"; cases "toDate P end'")
       (auto simp: normalizeRange_def split: option.splits if_splits)
  with toDate_valid [of P start s] show ?thesis
    by (simp add: getTime_Some time_clip_def)
qed

lemma add_availability_parsed:
  assumes "parsed_windows m" and "add_availability P m r = Inr m'"
  shows "parsed_windows m'"
  using assms unfolding add_availability_def Let_def
  by (auto split: if_splits sum.splits option.splits
        intro!: parsed_windows_pushes dest: normalizeRange_start_valid)

lemma normalizeAvailability_parsed:
  assumes "normalizeAvailability P rs = Inr m"
  shows "parsed_windows m"
proof -
  from assms have run: "forEach (add_availability P) [] rs = Inr m"
    by (simp add: normalizeAvailability_def)
  have start: "parsed_windows []"
    by (simp add: parsed_windows_def)
  show ?thesis
    by (rule forEach_keeps [where I = parsed_windows, OF run])
       (rule add_availability_parsed, assumption+, rule start)
qed

text \<open>A record whose combined start or end does not parse adds no window.\<close>

lemma add_availability_unparsable:
  assumes "\<not> window_parses P r" and "add_availability P m r = Inr m'"
  shows "m' = m"
proof -
  let ?fields = "fields_of r"
  let ?start = "combineDateTime P (readField ?fields [''date'', ''Date''])
      (readField ?fields [''start_time'', ''start'', ''Start''])"
  let ?end = "combineDateTime P (readField ?fields [''date'', ''Date''])
      (readField ?fields [''end_time'', ''end'', ''End''])"
  have null: "normalizeRange P (date_val s) (date_val e) = Inr \<lparr>r_start = None, r_end = None\<rparr>"
    if "?start = Inr s" "?end = Inr e" for s e
  proof -
    from assms(1) that have "(case s of None \<Rightarrow> None | Some x \<Rightarrow> getTime x) = None
        \<or> (case e of None \<Rightarrow> None | Some x \<Rightarrow> getTime x) = None"
      by (auto simp: window_parses_def parses_def split: option.splits)
    then show ?thesis
      by (auto simp: normalizeRange_def toDate_date_val split: option.splits)
  qed
  from assms(2) show ?thesis
    unfolding add_availability_def Let_def
    by (auto split: if_splits sum.splits simp: null)
qed

lemma normalizeAvailability_filter:
  assumes "normalizeAvailability P rs = Inr m"
  shows "normalizeAvailability P (filter (window_parses P) rs) = Inr m"
  using assms unfolding normalizeAvailability_def
  by (rule forEach_filter_idle) (rule add_availability_unparsable)

section \<open>One round of the pass\<close>

lemma overlaps_blocks_of:
  "clashes P (Some (blocks_of blocks e)) start end' = clashes P (map_get blocks e) start end'"
  by (cases "map_get blocks e") (simp_all add: blocks_of_def)

lemma survivor_can_keep:
  assumes wf: "wf_employees employeeMap"
    and chosen: "chosen \<in> set (free_pool P st shift
        (withinCap st shift
           (availabilityCandidates availabilityMap shift
              (active_pool P employeeMap needed))))"
  shows "can_keep P employeeMap availabilityMap st (e_id (c_employee chosen)) shift needed
    \<and> truthy (e_id (c_employee chosen))"
proof -
  let ?emp = "c_employee chosen"
  from chosen have conflict: "\<not> clashes P (Some (blocks_of (st_blocks st) (e_id ?emp)))
      (s_start shift) (s_end shift)"
    and cap: "total_of (st_totals st) (e_id ?emp) + s_hours shift \<le> e_weeklyCap ?emp"
    and cand: "chosen \<in> set (availabilityCandidates availabilityMap shift
        (active_pool P employeeMap needed))"
    by (simp_all add: free_pool_eq withinCap_def)
  from cand have covered: "c_available (c_coverage chosen)"
    and cov: "c_coverage chosen = coverageForShift (windows_of availabilityMap (e_id ?emp))
        (s_start shift) (s_end shift)"
    and active: "?emp \<in> set (active_pool P employeeMap needed)"
    by (auto simp: availabilityCandidates_def)
  from active obtain k where k: "(k, ?emp) \<in> set employeeMap"
    and status: "e_status ?emp = ''active''"
    and role: "role_accepted P (e_role ?emp) needed"
    by (auto simp: active_pool_eq)
  from wf k have id: "e_id ?emp = k" "truthy k" and "distinct (map fst employeeMap)"
    by (auto simp: wf_employees_def)
  with k have "map_get employeeMap (e_id ?emp) = Some ?emp"
    by (simp add: map_get_distinct)
  with status role covered cov cap conflict id show ?thesis
    by (simp add: can_keep_eq Let_def overlaps_blocks_of)
qed

lemma assignFresh_cases:
  assumes "assignFresh P employeeMap availabilityMap st shift needed = Inr st'"
  shows "(\<exists>reason. st' = unfilled st shift reason)
    \<or> (\<exists>chosen \<in> set (free_pool P st shift
          (withinCap st shift
             (availabilityCandidates availabilityMap shift
                (active_pool P employeeMap needed)))).
         st' = commit st (e_id (c_employee chosen)) shift)"
proof -
  let ?active = "active_pool P employeeMap needed"
  let ?candidates = "availabilityCandidates availabilityMap shift ?active"
  let ?capped = "withinCap st shift ?candidates"
  let ?free = "free_pool P st shift ?capped"
  show ?thesis
  proof (cases "?free = []")
    case True
    with assms have "\<exists>reason. st' = unfilled st shift reason"
      by (auto simp: assignFresh_eq Let_def split: if_splits)
    then show ?thesis ..
  next
    case False
    from assms assignFresh_sorted [OF refl False]
    obtain sorted where sorted: "js_sort (compareCandidates P st) ?free = Inr sorted"
      and st': "(case sorted of [] \<Rightarrow> Inl TypeError
                 | first # _ \<Rightarrow> Inr (commit st (e_id (c_employee first)) shift)) = Inr st'"
      by (cases "js_sort (compareCandidates P st) ?free") simp_all
    from st' obtain first rest where fr: "sorted = first # rest"
      by (cases sorted) auto
    with st' have "st' = commit st (e_id (c_employee first)) shift" by simp
    moreover have "set sorted = set ?free"
      using sorted by (rule js_sort_set)
    then have "first \<in> set ?free"
      unfolding fr by auto
    ultimately show ?thesis by blast
  qed
qed

text \<open>What one round does to the state: it adds one assignment, either without an
  employee and with a reason, or of an employee that passes every test of \<open>can_keep\<close>,
  whose hours and block it then records.\<close>

lemma process_shift_step:
  assumes run: "process_shift P employeeMap availabilityMap existing st shift = Inr st'"
    and wf: "wf_employees employeeMap"
  shows "(\<exists>reason iss.
            st' = st\<lparr>st_assignments := st_assignments st @
                       [\<lparr>a_shiftId = s_id shift, a_employeeId = JNull,
                         a_reason = Some reason\<rparr>],
                     st_issues := iss\<rparr>)
    \<or> (\<exists>e iss. s_start shift \<noteq> None \<and> s_end shift \<noteq> None \<and> truthy e
          \<and> can_keep P employeeMap availabilityMap st e shift (needed_token P shift)
          \<and> st' = commit (st\<lparr>st_issues := iss\<rparr>) e shift)"
proof (cases "s_start shift = None \<or> s_end shift = None")
  case True
  with run have "st' = unfilled st shift reason_missing_time"
    by (auto simp: process_shift_eq)
  then show ?thesis
    by (auto simp: unfilled_def)
next
  case False
  then have times: "s_start shift \<noteq> None" "s_end shift \<noteq> None" by simp_all
  show ?thesis
  proof (cases "keeps_existing P employeeMap availabilityMap existing st shift")
    case True
    from process_shift_kept [OF times True] run
    obtain e where "truthy e"
      and "can_keep P employeeMap availabilityMap st e shift (needed_token P shift)"
      and "st' = commit st e shift"
      by auto
    then have "truthy e
        \<and> can_keep P employeeMap availabilityMap st e shift (needed_token P shift)
        \<and> st' = commit (st\<lparr>st_issues := st_issues st\<rparr>) e shift"
      by simp
    with times show ?thesis by blast
  next
    case False
    from process_shift_fresh [OF times False] run
    obtain iss where fresh: "assignFresh P employeeMap availabilityMap (st\<lparr>st_issues := iss\<rparr>)
        shift (needed_token P shift) = Inr st'"
      by auto
    from assignFresh_cases [OF fresh]
    show ?thesis
    proof
      assume "\<exists>reason. st' = unfilled (st\<lparr>st_issues := iss\<rparr>) shift reason"
      then show ?thesis
        by (auto simp: unfilled_def)
    next
      assume "\<exists>chosen \<in> set (free_pool P (st\<lparr>st_issues := iss\<rparr>) shift
          (withinCap (st\<lparr>st_issues := iss\<rparr>) shift
             (availabilityCandidates availabilityMap shift
                (active_pool P employeeMap (needed_token P shift))))).
         st' = commit (st\<lparr>st_issues := iss\<rparr>) (e_id (c_employee chosen)) shift"
      then obtain chosen where chosen: "chosen \<in> set (free_pool P st shift
          (withinCap st shift
             (availabilityCandidates availabilityMap shift
                (active_pool P employeeMap (needed_token P shift)))))"
        and st': "st' = commit (st\<lparr>st_issues := iss\<rparr>) (e_id (c_employee chosen)) shift"
        by auto
      from survivor_can_keep [OF wf chosen] st' times show ?thesis by blast
    qed
  qed
qed

section \<open>What the pass keeps\<close>

lemma commit_totals [simp]:
  "st_totals (commit st e shift)
     = map_set (st_totals st) e (total_of (st_totals st) e + s_hours shift)"
  by (simp add: commit_def trackAssignment_def)

lemma commit_blocks [simp]:
  "st_blocks (commit st e shift)
     = map_set (st_blocks st) e (blocks_of (st_blocks st) e @ [block_of shift])"
  by (simp add: commit_def trackAssignment_def block_of_def)

lemma committed_to_snoc:
  "length asgs = length seen
     \<Longrightarrow> committed_to (seen @ [s]) (asgs @ [a]) e
         = committed_to seen asgs e @ (if a_employeeId a = e then [s] else [])"
  by (simp add: committed_to_def)

lemma committed_hours_snoc:
  "length asgs = length seen
     \<Longrightarrow> committed_hours (seen @ [s]) (asgs @ [a]) e
         = committed_hours seen asgs e + (if a_employeeId a = e then s_hours s else 0)"
  by (simp add: committed_hours_def committed_to_snoc)

lemma tracked_empty: "tracked [] empty_state"
  by (simp add: tracked_def empty_state_def committed_hours_def committed_to_def
        total_of_def blocks_of_def)

lemma tracked_unfilled:
  assumes "tracked seen st"
  shows "tracked (seen @ [s])
     (st\<lparr>st_assignments := st_assignments st @
           [\<lparr>a_shiftId = s_id s, a_employeeId = JNull, a_reason = Some reason\<rparr>],
         st_issues := iss\<rparr>)"
proof -
  from assms have len: "length (st_assignments st) = length seen"
    by (simp add: tracked_def)
  have "e \<noteq> JNull" if "truthy e" for e
    using that by auto
  with assms len show ?thesis
    by (auto simp: tracked_def committed_hours_snoc committed_to_snoc)
qed

lemma tracked_commit:
  assumes "tracked seen st" and "truthy e"
  shows "tracked (seen @ [s]) (commit (st\<lparr>st_issues := iss\<rparr>) e s)"
proof -
  from assms have len: "length (st_assignments st) = length seen"
    by (simp add: tracked_def)
  with assms show ?thesis
    by (auto simp: tracked_def committed_hours_snoc committed_to_snoc)
qed

lemma within_caps_commit:
  assumes "within_caps employeeMap st"
    and "can_keep P employeeMap availabilityMap st e s needed"
  shows "within_caps employeeMap (commit (st\<lparr>st_issues := iss\<rparr>) e s)"
proof -
  from assms(2) obtain employee where "map_get employeeMap e = Some employee"
    and "total_of (st_totals st) e + s_hours s \<le> e_weeklyCap employee"
    by (cases "map_get employeeMap e") (simp_all add: can_keep_eq Let_def)
  with assms(1) show ?thesis
    by (auto simp: within_caps_def)
qed

lemma block_pairs_snoc:
  "set (block_pairs (xs @ [x])) = set (block_pairs xs) \<union> (\<lambda>y. (y, x)) ` set xs"
  by (induction xs) auto

lemma overlaps_single:
  "clashes P (Some bs) start end' \<longleftrightarrow> (\<exists>b \<in> set bs. clashes P (Some [b]) start end')"
  by (simp add: clashes_eq list_ex_iff)

lemma conflict_free_commit:
  assumes "conflict_free P (st_blocks st)"
    and "can_keep P employeeMap availabilityMap st e s needed"
  shows "conflict_free P (st_blocks (commit (st\<lparr>st_issues := iss\<rparr>) e s))"
proof -
  from assms(2) have "\<not> clashes P (map_get (st_blocks st) e)
      (s_start s) (s_end s)"
    by (cases "map_get employeeMap e") (simp_all add: can_keep_eq Let_def)
  then have free: "\<not> clashes P (Some (blocks_of (st_blocks st) e))
      (b_start (block_of s)) (b_end (block_of s))"
    by (simp add: overlaps_blocks_of block_of_def)
  have old: "\<forall>(bi, bj) \<in> set (block_pairs (blocks_of (st_blocks st) e)).
      \<not> clashes P (Some [bi]) (b_start bj) (b_end bj)"
  proof (cases "map_get (st_blocks st) e")
    case None
    then show ?thesis by (simp add: blocks_of_def)
  next
    case (Some bs)
    with assms(1) show ?thesis
      by (simp add: conflict_free_def blocks_of_def)
  qed
  have new: "\<forall>(bi, bj) \<in> set (block_pairs (blocks_of (st_blocks st) e @ [block_of s])).
      \<not> clashes P (Some [bi]) (b_start bj) (b_end bj)"
    using old free
    by (auto simp: block_pairs_snoc overlaps_single [of P "blocks_of (st_blocks st) e"])
  show ?thesis
    unfolding conflict_free_def
  proof (intro allI impI)
    fix k bs
    assume "map_get (st_blocks (commit (st\<lparr>st_issues := iss\<rparr>) e s)) k = Some bs"
    then have "(k = e \<and> bs = blocks_of (st_blocks st) e @ [block_of s])
        \<or> map_get (st_blocks st) k = Some bs"
      by (auto split: if_splits)
    then show "\<forall>(bi, bj) \<in> set (block_pairs bs).
        \<not> clashes P (Some [bi]) (b_start bj) (b_end bj)"
    proof
      assume "k = e \<and> bs = blocks_of (st_blocks st) e @ [block_of s]"
      with new show ?thesis by simp
    next
      assume "map_get (st_blocks st) k = Some bs"
      with assms(1) show ?thesis
        unfolding conflict_free_def by blast
    qed
  qed
qed

lemma pass_keeps:
  assumes pass: "schedule_pass P employeeMap availabilityMap existing shifts = Inr st"
    and wf: "wf_employees employeeMap"
  shows "tracked shifts st \<and> within_caps employeeMap st \<and> conflict_free P (st_blocks st)"
proof -
  let ?I = "\<lambda>seen st. tracked seen st \<and> within_caps employeeMap st
      \<and> conflict_free P (st_blocks st)"
  have start: "?I [] empty_state"
    using tracked_empty by (simp add: within_caps_def conflict_free_def empty_state_def)
  have round: "?I (seen @ [x]) s'"
    if inv: "?I seen s"
      and run: "process_shift P employeeMap availabilityMap existing s x = Inr s'"
    for seen x s s'
    using process_shift_step [OF run wf]
  proof
    assume "\<exists>reason iss.
        s' = s\<lparr>st_assignments := st_assignments s @
                 [\<lparr>a_shiftId = s_id x, a_employeeId = JNull, a_reason = Some reason\<rparr>],
               st_issues := iss\<rparr>"
    then obtain reason iss where s': "s' = s\<lparr>st_assignments := st_assignments s @
                 [\<lparr>a_shiftId = s_id x, a_employeeId = JNull, a_reason = Some reason\<rparr>],
               st_issues := iss\<rparr>"
      by auto
    from inv have "tracked (seen @ [x]) s'"
      unfolding s' by (simp add: tracked_unfilled)
    moreover from inv have "within_caps employeeMap s'" "conflict_free P (st_blocks s')"
      unfolding s' by (simp_all add: within_caps_def)
    ultimately show ?thesis by simp
  next
    assume "\<exists>e iss. s_start x \<noteq> None \<and> s_end x \<noteq> None \<and> truthy e
        \<and> can_keep P employeeMap availabilityMap s e x (needed_token P x)
        \<and> s' = commit (s\<lparr>st_issues := iss\<rparr>) e x"
    then obtain e iss where e: "truthy e"
      and can: "can_keep P employeeMap availabilityMap s e x (needed_token P x)"
      and s': "s' = commit (s\<lparr>st_issues := iss\<rparr>) e x"
      by auto
    from inv e have "tracked (seen @ [x]) s'"
      unfolding s' by (simp add: tracked_commit)
    moreover from inv can have "within_caps employeeMap s'"
      unfolding s' by (simp add: within_caps_commit)
    moreover from inv can have "conflict_free P (st_blocks s')"
      unfolding s' by (simp add: conflict_free_commit del: commit_blocks)
    ultimately show ?thesis by simp
  qed
  from pass have "forEach (process_shift P employeeMap availabilityMap existing)
      empty_state shifts = Inr st"
    by (simp add: schedule_pass_def)
  from this start round show ?thesis
    by (rule forEach_invariant [where I = ?I])
qed

section \<open>The weekly cap\<close>

lemma assignFresh_cap:
  assumes "availabilityCandidates availabilityMap shift
      (active_pool P employeeMap needed) \<noteq> []"
    and "withinCap st shift (availabilityCandidates availabilityMap shift
      (active_pool P employeeMap needed)) = []"
  shows "assignFresh P employeeMap availabilityMap st shift needed
    = Inr (unfilled st shift reason_cap)"
proof -
  from assms(1) have "active_pool P employeeMap needed \<noteq> []"
    by (cases "active_pool P employeeMap needed") auto
  with assms show ?thesis
    by (simp add: assignFresh_eq Let_def)
qed

lemma assignFresh_conflict:
  assumes "withinCap st shift (availabilityCandidates availabilityMap shift
      (active_pool P employeeMap needed)) \<noteq> []"
    and "free_pool P st shift (withinCap st shift
      (availabilityCandidates availabilityMap shift
         (active_pool P employeeMap needed))) = []"
  shows "assignFresh P employeeMap availabilityMap st shift needed
    = Inr (unfilled st shift reason_conflict)"
proof -
  let ?candidates = "availabilityCandidates availabilityMap shift
      (active_pool P employeeMap needed)"
  from assms(1) have "?candidates \<noteq> []"
    by (cases ?candidates) auto
  moreover from this have "active_pool P employeeMap needed \<noteq> []"
    by (cases "active_pool P employeeMap needed") auto
  ultimately show ?thesis
    using assms by (simp add: assignFresh_eq Let_def)
qed

lemma committed_within_cap:
  assumes pass: "schedule_pass P employeeMap availabilityMap existing shifts = Inr st"
    and wf: "wf_employees employeeMap"
    and emp: "map_get employeeMap e = Some employee"
  shows "total_of (st_totals st) e = committed_hours shifts (st_assignments st) e
    \<and> committed_hours shifts (st_assignments st) e \<le> e_weeklyCap employee"
proof -
  from pass_keeps [OF pass wf]
  have tracked: "tracked shifts st" and caps: "within_caps employeeMap st"
    by simp_all
  from emp have "(e, employee) \<in> set employeeMap" by (rule map_get_SomeD)
  with wf have e: "truthy e" and cap: "0 < e_weeklyCap employee"
    by (auto simp: wf_employees_def)
  from tracked e have eq: "total_of (st_totals st) e
      = committed_hours shifts (st_assignments st) e"
    by (simp add: tracked_def)
  have "total_of (st_totals st) e \<le> e_weeklyCap employee"
  proof (cases "map_get (st_totals st) e")
    case None
    with cap show ?thesis by (simp add: total_of_def)
  next
    case (Some h)
    with caps obtain employee' where "map_get employeeMap e = Some employee'"
      and "h \<le> e_weeklyCap employee'"
      unfolding within_caps_def by blast
    with emp Some show ?thesis
      by (simp add: total_of_def)
  qed
  with eq show ?thesis by simp
qed

text \<open>
  C4. At any point of a pass (after any number \<open>n\<close> of its shifts) and for every
  employee, the running total of the employee is the sum of the hours of the shifts
  committed to that employee so far, and it is not above the employee's weekly cap.
  When a shift is assigned afresh, has candidates with a compatible role and a covering
  window, and the cap filter leaves none of them, its assignment has no employee and the
  reason of the weekly cap.
\<close>

theorem weekly_cap_respected:
  assumes "normalizeEmployees P employees = Inr employeeMap"
    and "normalizeAvailability P availabilityRecords = Inr availabilityMap"
    and "normalizeShiftRecords P shiftTemplate = Inr shifts"
    and "schedule_pass P employeeMap availabilityMap
      (normalizeAssignments existingAssignments) (take n shifts) = Inr st"
    and "map_get employeeMap e = Some employee"
  shows "total_of (st_totals st) e = committed_hours (take n shifts) (st_assignments st) e
    \<and> committed_hours (take n shifts) (st_assignments st) e \<le> e_weeklyCap employee
    \<and> (\<forall>st0 shift.
          s_start shift \<noteq> None \<longrightarrow> s_end shift \<noteq> None \<longrightarrow>
          \<not> keeps_existing P employeeMap availabilityMap
              (normalizeAssignments existingAssignments) st0 shift \<longrightarrow>
          covered_candidates P employeeMap availabilityMap shift \<noteq> [] \<longrightarrow>
          withinCap st0 shift
            (covered_candidates P employeeMap availabilityMap shift) = [] \<longrightarrow>
          (\<exists>iss. process_shift P employeeMap availabilityMap
                   (normalizeAssignments existingAssignments) st0 shift
             = Inr (st0\<lparr>st_assignments := st_assignments st0 @
                           [\<lparr>a_shiftId = s_id shift, a_employeeId = JNull,
                             a_reason = Some ''All available employees would exceed their weekly cap.''\<rparr>],
                         st_issues := iss @
                           [\<lparr>i_shiftId = s_id shift, i_employeeId = None,
                             i_reason = ''All available employees would exceed their weekly cap.''\<rparr>]\<rparr>)))"
proof -
  let ?em = employeeMap
  let ?am = availabilityMap
  let ?ex = "normalizeAssignments existingAssignments"
  have "\<exists>iss. process_shift P ?em ?am ?ex st0 shift
      = Inr (st0\<lparr>st_assignments := st_assignments st0 @
                    [\<lparr>a_shiftId = s_id shift, a_employeeId = JNull,
                      a_reason = Some reason_cap\<rparr>],
                  st_issues := iss @
                    [\<lparr>i_shiftId = s_id shift, i_employeeId = None,
                      i_reason = reason_cap\<rparr>]\<rparr>)"
    if times: "s_start shift \<noteq> None" "s_end shift \<noteq> None"
      and fresh: "\<not> keeps_existing P ?em ?am ?ex st0 shift"
      and some: "covered_candidates P ?em ?am shift \<noteq> []"
      and none: "withinCap st0 shift (covered_candidates P ?em ?am shift) = []"
    for st0 shift
  proof -
    from process_shift_fresh [OF times fresh]
    obtain iss where "process_shift P ?em ?am ?ex st0 shift
        = assignFresh P ?em ?am (st0\<lparr>st_issues := iss\<rparr>) shift (needed_token P shift)"
      by auto
    also have "\<dots> = Inr (unfilled (st0\<lparr>st_issues := iss\<rparr>) shift reason_cap)"
      using some none
      by (intro assignFresh_cap) (simp_all add: covered_candidates_def del: needed_token_eq)
    finally show ?thesis
      by (auto simp: unfilled_def)
  qed
  then show ?thesis
    using committed_within_cap [OF assms(4) normalizeEmployees_wf [OF assms(1)] assms(5)]
    by (simp add: reason_cap_def)
qed

theorem weekly_cap_respected_witness:
  "committed_hours (take 4 (result_or [] (normalizeShiftRecords example_platform example_week)))
       (st_assignments (unfilled example_three_days (example_day_shift ''s4'' 3) reason_cap))
       (JStr ''e1'')
     \<le> 40
   \<and> (\<exists>iss. process_shift example_platform
              (result_or [] (normalizeEmployees example_platform example_aide))
              (result_or [] (normalizeAvailability example_platform example_free_week))
              (normalizeAssignments JUndefined) example_three_days
              (example_day_shift ''s4'' 3)
        = Inr (example_three_days
                 \<lparr>st_assignments := st_assignments example_three_days @
                    [\<lparr>a_shiftId = JStr ''s4'', a_employeeId = JNull,
                      a_reason = Some ''All available employees would exceed their weekly cap.''\<rparr>],
                  st_issues := iss @
                    [\<lparr>i_shiftId = JStr ''s4'', i_employeeId = None,
                      i_reason = ''All available employees would exceed their weekly cap.''\<rparr>]\<rparr>))"
proof -
  let ?em = "result_or [] (normalizeEmployees example_platform example_aide)"
  let ?am = "result_or [] (normalizeAvailability example_platform example_free_week)"
  let ?shifts = "result_or [] (normalizeShiftRecords example_platform example_week)"
  let ?shift = "example_day_shift ''s4'' 3"
  have employees: "normalizeEmployees example_platform example_aide = Inr ?em"
    by code_simp
  have windows: "normalizeAvailability example_platform example_free_week = Inr ?am"
    by code_simp
  have shifts: "normalizeShiftRecords example_platform example_week = Inr ?shifts"
    by code_simp
  have pass: "schedule_pass example_platform ?em ?am (normalizeAssignments JUndefined)
      (take 4 ?shifts)
    = Inr (unfilled example_three_days ?shift reason_cap)"
    by code_simp
  have emp: "map_get ?em (JStr ''e1'')
    = Some \<lparr>e_id = JStr ''e1'', e_name = JStr ''Ann'', e_role = ''CNA'',
            e_status = ''active'', e_weeklyCap = 40\<rparr>"
    by code_simp
  have times: "s_start ?shift \<noteq> None" "s_end ?shift \<noteq> None"
    by (simp_all add: example_day_shift_def)
  have fresh: "\<not> keeps_existing example_platform ?em ?am (normalizeAssignments JUndefined)
      example_three_days ?shift"
    by code_simp
  have some: "covered_candidates example_platform ?em ?am ?shift \<noteq> []"
    by code_simp
  have none: "withinCap example_three_days ?shift
      (covered_candidates example_platform ?em ?am ?shift) = []"
    by code_simp
  have id: "s_id ?shift = JStr ''s4''"
    by (simp add: example_day_shift_def)
  note claim = weekly_cap_respected [OF employees windows shifts pass emp]
  from claim have cap: "committed_hours (take 4 ?shifts)
       (st_assignments (unfilled example_three_days ?shift reason_cap)) (JStr ''e1'') \<le> 40"
    by simp
  from claim times fresh some none
  have "\<exists>iss. process_shift example_platform ?em ?am (normalizeAssignments JUndefined)
        example_three_days ?shift
      = Inr (example_three_days
               \<lparr>st_assignments := st_assignments example_three_days @
                  [\<lparr>a_shiftId = s_id ?shift, a_employeeId = JNull,
                    a_reason = Some ''All available employees would exceed their weekly cap.''\<rparr>],
                st_issues := iss @
                  [\<lparr>i_shiftId = s_id ?shift, i_employeeId = None,
                    i_reason = ''All available employees would exceed their weekly cap.''\<rparr>]\<rparr>)"
    by blast
  with cap show ?thesis
    unfolding id by blast
qed

section \<open>No double booking\<close>

lemma block_pairs_map:
  "block_pairs (map f xs) = map (\<lambda>(a, b). (f a, f b)) (block_pairs xs)"
  by (induction xs) simp_all

lemma not_overlaps_disjoint:
  assumes "\<not> clashes P (Some [block_of s1]) (s_start s2) (s_end s2)"
  shows "shift_interval P s1 \<inter> shift_interval P s2 = {}"
proof -
  let ?A = "range_times (the_range P (date_val (s_start s1)) (date_val (s_end s1)))"
  let ?B = "range_times (the_range P (date_val (s_start s2)) (date_val (s_end s2)))"
  from assms have "\<not> hits ?A (map_option extended ?B)"
    by (simp add: clashes_eq block_of_def)
  then show ?thesis
    unfolding shift_interval_def instants_def
    by (cases ?A; cases ?B)
       (auto simp: hits_def in_order_def intersects_def extended_def nan_le_def nan_less_def
          nan_plus_def split: option.splits if_splits)
qed

lemma committed_disjoint:
  assumes pass: "schedule_pass P employeeMap availabilityMap existing shifts = Inr st"
    and wf: "wf_employees employeeMap"
    and e: "e \<noteq> JNull"
    and pair: "(s1, s2) \<in> set (block_pairs (committed_to shifts (st_assignments st) e))"
  shows "shift_interval P s1 \<inter> shift_interval P s2 = {}"
proof -
  from pass_keeps [OF pass wf]
  have tracked: "tracked shifts st" and free: "conflict_free P (st_blocks st)"
    by simp_all
  from pair have "committed_to shifts (st_assignments st) e \<noteq> []"
    by auto
  then obtain s a where "(s, a) \<in> set (zip shifts (st_assignments st))" "a_employeeId a = e"
    by (auto simp: committed_to_def filter_empty_conv)
  then have "a \<in> set (st_assignments st)" "a_employeeId a = e"
    by (auto dest: set_zip_rightD)
  with tracked e have "truthy e"
    by (auto simp: tracked_def)
  with tracked have blocks: "blocks_of (st_blocks st) e
      = map block_of (committed_to shifts (st_assignments st) e)"
    by (simp add: tracked_def)
  have "\<forall>(bi, bj) \<in> set (block_pairs (blocks_of (st_blocks st) e)).
      \<not> clashes P (Some [bi]) (b_start bj) (b_end bj)"
  proof (cases "map_get (st_blocks st) e")
    case None
    then show ?thesis by (simp add: blocks_of_def)
  next
    case (Some bs)
    with free show ?thesis
      by (simp add: conflict_free_def blocks_of_def)
  qed
  with pair have "\<not> clashes P (Some [block_of s1]) (b_start (block_of s2)) (b_end (block_of s2))"
    unfolding blocks block_pairs_map by force
  then show ?thesis
    by (intro not_overlaps_disjoint) (simp add: block_of_def)
qed

text \<open>
  C5. At any point of a pass, two shifts committed to the same employee have disjoint
  overnight-normalised intervals (half-open intervals of instants). When a shift is
  assigned afresh, has candidates left by the cap filter, and each of them has an
  occupied block that overlaps the shift, its assignment has no employee and the reason
  of the conflict.
\<close>

theorem no_double_booking:
  assumes "normalizeEmployees P employees = Inr employeeMap"
    and "normalizeAvailability P availabilityRecords = Inr availabilityMap"
    and "normalizeShiftRecords P shiftTemplate = Inr shifts"
    and "schedule_pass P employeeMap availabilityMap
      (normalizeAssignments existingAssignments) (take n shifts) = Inr st"
    and "e \<noteq> JNull"
    and "(s1, s2) \<in> set (block_pairs (committed_to (take n shifts) (st_assignments st) e))"
  shows "shift_interval P s1 \<inter> shift_interval P s2 = {}
    \<and> (\<forall>st0 shift.
          s_start shift \<noteq> None \<longrightarrow> s_end shift \<noteq> None \<longrightarrow>
          \<not> keeps_existing P employeeMap availabilityMap (normalizeAssignments existingAssignments) st0 shift \<longrightarrow>
          withinCap st0 shift
            (covered_candidates P employeeMap availabilityMap shift) \<noteq> [] \<longrightarrow>
          survivors P employeeMap availabilityMap st0 shift = [] \<longrightarrow>
          (\<exists>iss. process_shift P employeeMap availabilityMap (normalizeAssignments existingAssignments) st0 shift
             = Inr (st0\<lparr>st_assignments := st_assignments st0 @
                           [\<lparr>a_shiftId = s_id shift, a_employeeId = JNull,
                             a_reason = Some ''All available employees have conflicting assignments.''\<rparr>],
                         st_issues := iss @
                           [\<lparr>i_shiftId = s_id shift, i_employeeId = None,
                             i_reason = ''All available employees have conflicting assignments.''\<rparr>]\<rparr>)))"
proof -
  let ?em = employeeMap
  let ?am = availabilityMap
  let ?ex = "normalizeAssignments existingAssignments"
  have "\<exists>iss. process_shift P ?em ?am ?ex st0 shift
      = Inr (st0\<lparr>st_assignments := st_assignments st0 @
                    [\<lparr>a_shiftId = s_id shift, a_employeeId = JNull,
                      a_reason = Some reason_conflict\<rparr>],
                  st_issues := iss @
                    [\<lparr>i_shiftId = s_id shift, i_employeeId = None,
                      i_reason = reason_conflict\<rparr>]\<rparr>)"
    if times: "s_start shift \<noteq> None" "s_end shift \<noteq> None"
      and fresh: "\<not> keeps_existing P ?em ?am ?ex st0 shift"
      and some: "withinCap st0 shift (covered_candidates P ?em ?am shift) \<noteq> []"
      and none: "survivors P ?em ?am st0 shift = []"
    for st0 shift
  proof -
    from process_shift_fresh [OF times fresh]
    obtain iss where "process_shift P ?em ?am ?ex st0 shift
        = assignFresh P ?em ?am (st0\<lparr>st_issues := iss\<rparr>) shift (needed_token P shift)"
      by auto
    also have "\<dots> = Inr (unfilled (st0\<lparr>st_issues := iss\<rparr>) shift reason_conflict)"
      using some none
      by (intro assignFresh_conflict)
         (simp_all add: covered_candidates_def survivors_def del: needed_token_eq)
    finally show ?thesis
      by (auto simp: unfilled_def)
  qed
  then show ?thesis
    using committed_disjoint [OF assms(4) normalizeEmployees_wf [OF assms(1)] assms(5,6)]
    by (simp add: reason_conflict_def)
qed

theorem no_double_booking_witness:
  "shift_interval example_platform (example_day_shift ''s1'' 0)
     \<inter> shift_interval example_platform (example_day_shift ''s2'' 1) = {}
   \<and> (\<exists>iss. process_shift example_platform (result_or [] (normalizeEmployees example_platform example_aide))
              (result_or [] (normalizeAvailability example_platform example_free_week))
              (normalizeAssignments JUndefined)
              (commit empty_state (JStr ''e1'') (example_day_shift ''s1'' 0))
              \<lparr>s_id = JStr ''s5'', s_roleNeeded = ''CNA'', s_start = Some (Some 46800000),
               s_end = Some (Some 68400000), s_hours = 6\<rparr>
        = Inr (commit empty_state (JStr ''e1'') (example_day_shift ''s1'' 0)
                 \<lparr>st_assignments :=
                    st_assignments (commit empty_state (JStr ''e1'') (example_day_shift ''s1'' 0)) @
                    [\<lparr>a_shiftId = JStr ''s5'', a_employeeId = JNull,
                      a_reason = Some ''All available employees have conflicting assignments.''\<rparr>],
                  st_issues := iss @
                    [\<lparr>i_shiftId = JStr ''s5'', i_employeeId = None,
                      i_reason = ''All available employees have conflicting assignments.''\<rparr>]\<rparr>))"
proof -
  let ?em = "result_or [] (normalizeEmployees example_platform example_aide)"
  let ?am = "result_or [] (normalizeAvailability example_platform example_free_week)"
  let ?shifts = "result_or [] (normalizeShiftRecords example_platform example_week)"
  let ?st0 = "commit empty_state (JStr ''e1'') (example_day_shift ''s1'' 0)"
  let ?shift = "\<lparr>s_id = JStr ''s5'', s_roleNeeded = ''CNA'', s_start = Some (Some 46800000),
      s_end = Some (Some 68400000), s_hours = 6\<rparr>"
  have employees: "normalizeEmployees example_platform example_aide = Inr ?em"
    by code_simp
  have windows: "normalizeAvailability example_platform example_free_week = Inr ?am"
    by code_simp
  have shifts: "normalizeShiftRecords example_platform example_week = Inr ?shifts"
    by code_simp
  have pass: "schedule_pass example_platform ?em ?am (normalizeAssignments JUndefined)
      (take 3 ?shifts)
    = Inr example_three_days"
    by code_simp
  have e: "JStr ''e1'' \<noteq> JNull" by simp
  have pair: "(example_day_shift ''s1'' 0, example_day_shift ''s2'' 1)
      \<in> set (block_pairs (committed_to (take 3 ?shifts)
            (st_assignments example_three_days) (JStr ''e1'')))"
    by code_simp
  have times: "s_start ?shift \<noteq> None" "s_end ?shift \<noteq> None"
    by simp_all
  have fresh: "\<not> keeps_existing example_platform ?em ?am (normalizeAssignments JUndefined)
      ?st0 ?shift"
    by code_simp
  have some: "withinCap ?st0 ?shift (covered_candidates example_platform ?em ?am ?shift) \<noteq> []"
    by code_simp
  have none: "survivors example_platform ?em ?am ?st0 ?shift = []"
    by code_simp
  note claim = no_double_booking [OF employees windows shifts pass e pair]
  from claim have disjoint: "shift_interval example_platform (example_day_shift ''s1'' 0)
     \<inter> shift_interval example_platform (example_day_shift ''s2'' 1) = {}"
    by simp
  from claim times fresh some none
  have "\<exists>iss. process_shift example_platform ?em ?am (normalizeAssignments JUndefined)
        ?st0 ?shift
      = Inr (?st0\<lparr>st_assignments := st_assignments ?st0 @
                    [\<lparr>a_shiftId = s_id ?shift, a_employeeId = JNull,
                      a_reason = Some ''All available employees have conflicting assignments.''\<rparr>],
                  st_issues := iss @
                    [\<lparr>i_shiftId = s_id ?shift, i_employeeId = None,
                      i_reason = ''All available employees have conflicting assignments.''\<rparr>]\<rparr>)"
    by blast
  with disjoint show ?thesis by simp
qed

section \<open>The validator on the scheduler's assignments\<close>

lemma window_covers_shift_spec: "window_covers_shift w x = covers_spec w x"
  by (cases "w_start w"; cases "w_end w"; cases "s_start x"; cases "s_end x")
     (auto simp: window_covers_shift_def covers_spec_def getTime_def time_clip_def nan_le_def
        nan_plus_def Let_def split: option.splits)

lemma coverage_available:
  "c_available (coverageForShift ws (s_start x) (s_end x))
     = list_ex (\<lambda>w. window_covers_shift w x) ws"
  by (simp add: coverage_covers window_covers_shift_spec)

lemma accepts_exact:
  assumes "role_accepted P role (needed_token P x)"
    and "normal_token role" and "normal_token (s_roleNeeded x)"
    and "s_roleNeeded x \<noteq> ''CNA_OR_CMA''"
  shows "role = s_roleNeeded x"
proof -
  from assms(3) have needed: "needed_token P x = s_roleNeeded x"
    by (simp add: normal_token_def)
  from assms(1,2,3,4) show ?thesis
    unfolding needed by (simp add: role_accepted_iff Let_def normal_token_def split: if_splits)
qed

lemma foldl_map_set_other:
  "k \<notin> key ` set xs \<Longrightarrow> map_get (foldl (\<lambda>m x. map_set m (key x) x) m0 xs) k = map_get m0 k"
  by (induction xs arbitrary: m0) simp_all

lemma shiftMap_lookup:
  "distinct (map key xs) \<Longrightarrow> x \<in> set xs
     \<Longrightarrow> map_get (foldl (\<lambda>m x. map_set m (key x) x) m0 xs) (key x) = Some x"
proof (induction xs arbitrary: m0)
  case Nil
  then show ?case by simp
next
  case (Cons y ys)
  show ?case
  proof (cases "x = y")
    case True
    with Cons.prems have "key y \<notin> key ` set ys" by auto
    with True show ?thesis
      by (simp add: foldl_map_set_other)
  next
    case False
    with Cons show ?thesis by auto
  qed
qed

lemma check_assignment_unfilled:
  "check_assignment P employeeMap availabilityMap shiftMap vs
     (assignment_object \<lparr>a_shiftId = sid, a_employeeId = JNull, a_reason = Some reason\<rparr>)
   = Inr vs"
  by (simp add: check_assignment_def assignment_object_def prop_checked_def js_or_def Let_def)

lemma check_assignment_commit:
  assumes sid: "truthy (s_id x)" and e: "truthy e"
    and shift: "map_get shiftMap (s_id x) = Some x"
    and can: "can_keep P employeeMap availabilityMap st e x (needed_token P x)"
    and wf: "wf_employees employeeMap"
    and token: "normal_token (s_roleNeeded x)"
    and single: "s_roleNeeded x \<noteq> ''CNA_OR_CMA''"
  shows "check_assignment P employeeMap availabilityMap shiftMap
      \<lparr>v_errors = [], hoursByEmployee = st_totals st, blocksByEmployee = st_blocks st\<rparr>
      (assignment_object \<lparr>a_shiftId = s_id x, a_employeeId = e, a_reason = None\<rparr>)
    = Inr \<lparr>v_errors = [],
           hoursByEmployee = st_totals (commit (st\<lparr>st_issues := iss\<rparr>) e x),
           blocksByEmployee = st_blocks (commit (st\<lparr>st_issues := iss\<rparr>) e x)\<rparr>"
proof -
  from can obtain employee where emp: "map_get employeeMap e = Some employee"
    and active: "e_status employee = ''active''"
    and role: "role_accepted P (e_role employee) (needed_token P x)"
    and covered: "c_available (coverageForShift (windows_of availabilityMap e)
        (s_start x) (s_end x))"
    by (cases "map_get employeeMap e") (simp_all add: can_keep_eq Let_def)
  from emp have "(e, employee) \<in> set employeeMap" by (rule map_get_SomeD)
  with wf have "normal_token (e_role employee)"
    by (auto simp: wf_employees_def)
  with role have same: "e_role employee = s_roleNeeded x"
    using token single by (rule accepts_exact)
  from covered have window: "list_ex (\<lambda>w. window_covers_shift w x) (windows_of availabilityMap e)"
    by (simp add: coverage_available)
  have ids: "js_or (s_id x) v = s_id x" "js_or e v = e" for v
    using sid e by (simp_all add: js_or_def)
  show ?thesis
    using shift emp active same window sid e
    by (simp add: check_assignment_def assignment_object_def prop_checked_def ids Let_def
          block_of_def)
qed

lemma cap_errors_none:
  assumes "within_caps employeeMap st" and "distinct (map fst (st_totals st))"
  shows "cap_errors P employeeMap (st_totals st) = Inr []"
proof -
  let ?f = "\<lambda>(employeeId, hours).
      case map_get employeeMap employeeId of
        None \<Rightarrow> Inr []
      | Some employee \<Rightarrow>
          if hours > e_weeklyCap employee
          then report weekly_cap JUndefined employeeId
                 [js_String P (js_or (e_name employee) employeeId),
                  Inr '' exceeds weekly cap ('', Inr (to_fixed2 P hours),
                  Inr '' > '', Inr (num_string P (e_weeklyCap employee)),
                  Inr '').'']
          else Inr []"
  have "?f x = Inr ((\<lambda>x. []) x)" if "x \<in> set (st_totals st)" for x
  proof -
    obtain k h where x: "x = (k, h)" by (cases x)
    from assms(2) that x have "map_get (st_totals st) k = Some h"
      by (simp add: map_get_distinct)
    with assms(1) obtain employee where "map_get employeeMap k = Some employee"
      and "h \<le> e_weeklyCap employee"
      unfolding within_caps_def by blast
    with x show ?thesis by simp
  qed
  then have "collect (map ?f (st_totals st)) = Inr (map (\<lambda>x. []) (st_totals st))"
    by (rule collect_Inr)
  then show ?thesis
    by (simp add: cap_errors_def)
qed

lemma overlap_errors_none:
  assumes "conflict_free P blocks" and "distinct (map fst blocks)"
  shows "overlap_errors P employeeMap blocks = Inr []"
proof -
  let ?pair = "\<lambda>employeeId (bi, bj).
      case overlaps P (Some [block_span bi]) (date_val (b_start bj)) (date_val (b_end bj)) of
        Inl e \<Rightarrow> Inl e
      | Inr conflict \<Rightarrow>
          if conflict
          then overlap_report P (map_get employeeMap employeeId) employeeId bi bj
          else Inr []"
  let ?entry = "\<lambda>(employeeId, blocks).
      case collect (map (?pair employeeId) (block_pairs blocks)) of
        Inl e \<Rightarrow> Inl e
      | Inr errs \<Rightarrow> Inr (concat errs)"
  have free: "\<not> clashes P (Some [bi]) (b_start bj) (b_end bj)"
    if "(k, bs) \<in> set blocks" and "(bi, bj) \<in> set (block_pairs bs)" for k bs bi bj
  proof -
    from assms(2) that(1) have "map_get blocks k = Some bs"
      by (rule map_get_distinct)
    with assms(1) that(2) show ?thesis
      unfolding conflict_free_def by blast
  qed
  have "?entry x = Inr ((\<lambda>x. []) x)" if "x \<in> set blocks" for x
  proof -
    obtain k bs where x: "x = (k, bs)" by (cases x)
    have "?pair k p = Inr ((\<lambda>p. []) p)" if "p \<in> set (block_pairs bs)" for p
    proof -
      obtain bi bj where p: "p = (bi, bj)" by (cases p)
      from free [of k bs bi bj] \<open>x \<in> set blocks\<close> x that p
      have "\<not> clashes P (Some [bi]) (b_start bj) (b_end bj)" by simp
      with p show ?thesis
        using overlaps_dated_Some [of P "[bi]" "b_start bj" "b_end bj"] by simp
    qed
    then have "collect (map (?pair k) (block_pairs bs)) = Inr (map (\<lambda>p. []) (block_pairs bs))"
      by (rule collect_Inr)
    with x show ?thesis by simp
  qed
  then have "collect (map ?entry blocks) = Inr (map (\<lambda>x. []) blocks)"
    by (rule collect_Inr)
  then show ?thesis
    by (simp add: overlap_errors_def)
qed

text \<open>The validator, run on the assignments of a pass, goes through the same totals
  and blocks as the scheduler and finds nothing.\<close>

lemma validator_follows:
  assumes pass: "schedule_pass P employeeMap availabilityMap existing shifts = Inr st"
    and wf: "wf_employees employeeMap"
    and ids: "distinct (map s_id shifts)"
    and wfs: "\<forall>s \<in> set shifts. wf_shift s"
    and single: "\<forall>s \<in> set shifts. s_roleNeeded s \<noteq> ''CNA_OR_CMA''"
  shows "forEach (check_assignment P employeeMap availabilityMap
             (foldl (\<lambda>m shift. map_set m (s_id shift) shift) [] shifts))
           \<lparr>v_errors = [], hoursByEmployee = [], blocksByEmployee = []\<rparr>
           (map assignment_object (st_assignments st))
         = Inr \<lparr>v_errors = [], hoursByEmployee = st_totals st,
                blocksByEmployee = st_blocks st\<rparr>"
proof -
  let ?shiftMap = "foldl (\<lambda>m shift. map_set m (s_id shift) shift) [] shifts"
  let ?check = "check_assignment P employeeMap availabilityMap ?shiftMap"
  let ?I = "\<lambda>(seen :: shift list) st.
      forEach ?check \<lparr>v_errors = [], hoursByEmployee = [], blocksByEmployee = []\<rparr>
        (map assignment_object (st_assignments st))
      = Inr \<lparr>v_errors = [], hoursByEmployee = st_totals st, blocksByEmployee = st_blocks st\<rparr>"
  have start: "?I [] empty_state"
    by (simp add: empty_state_def)
  have round: "?I (seen @ [x]) s'"
    if inv: "?I seen s" and x: "x \<in> set shifts"
      and run: "process_shift P employeeMap availabilityMap existing s x = Inr s'"
    for seen x s s'
    using process_shift_step [OF run wf]
  proof
    assume "\<exists>reason iss.
        s' = s\<lparr>st_assignments := st_assignments s @
                 [\<lparr>a_shiftId = s_id x, a_employeeId = JNull, a_reason = Some reason\<rparr>],
               st_issues := iss\<rparr>"
    then obtain reason iss where s': "s' = s\<lparr>st_assignments := st_assignments s @
                 [\<lparr>a_shiftId = s_id x, a_employeeId = JNull, a_reason = Some reason\<rparr>],
               st_issues := iss\<rparr>"
      by auto
    from inv show ?thesis
      unfolding s' by (simp add: forEach_append check_assignment_unfilled)
  next
    assume "\<exists>e iss. s_start x \<noteq> None \<and> s_end x \<noteq> None \<and> truthy e
        \<and> can_keep P employeeMap availabilityMap s e x (needed_token P x)
        \<and> s' = commit (s\<lparr>st_issues := iss\<rparr>) e x"
    then obtain e iss where e: "truthy e"
      and can: "can_keep P employeeMap availabilityMap s e x (needed_token P x)"
      and s': "s' = commit (s\<lparr>st_issues := iss\<rparr>) e x"
      by auto
    from x wfs have sid: "truthy (s_id x)" and token: "normal_token (s_roleNeeded x)"
      by (auto simp: wf_shift_def)
    from ids x have shift: "map_get ?shiftMap (s_id x) = Some x"
      by (rule shiftMap_lookup)
    from x single have "s_roleNeeded x \<noteq> ''CNA_OR_CMA''" by simp
    from check_assignment_commit [OF sid e shift can wf token this, of iss] inv
    show ?thesis
      unfolding s' by (simp add: forEach_append del: commit_totals commit_blocks)
  qed
  from pass have "forEach (process_shift P employeeMap availabilityMap existing)
      empty_state shifts = Inr st"
    by (simp add: schedule_pass_def)
  from this start round show ?thesis
    by (rule forEach_invariant [where I = ?I])
qed

text \<open>
  C1, as the code has it by design. For raw inputs whose canonical shifts have pairwise
  distinct identifiers and do not require the composite role \<open>CNA_OR_CMA\<close>, the
  validator, given the assignments that the scheduler produces and the same raw inputs,
  returns no error (whether or not every shift was filled).
\<close>

theorem validator_accepts_schedule:
  assumes "schedule P shiftTemplate employees availabilityRecords existingAssignments
      = Inr result"
    and "normalizeShiftRecords P shiftTemplate = Inr shifts"
    and "distinct (map s_id shifts)"
    and "\<forall>s \<in> set shifts. s_roleNeeded s \<noteq> ''CNA_OR_CMA''"
  shows "validate P (map assignment_object (assignments result)) shiftTemplate employees
      availabilityRecords = Inr []"
proof -
  let ?ex = "normalizeAssignments existingAssignments"
  from assms(1) obtain employeeMap
    where employees: "normalizeEmployees P employees = Inr employeeMap"
    by (cases "normalizeEmployees P employees") (auto simp: schedule_def)
  from assms(1) employees obtain availabilityMap
    where windows: "normalizeAvailability P availabilityRecords = Inr availabilityMap"
    by (cases "normalizeAvailability P availabilityRecords") (auto simp: schedule_def)
  from assms(1,2) employees windows obtain st
    where pass: "schedule_pass P employeeMap availabilityMap ?ex shifts = Inr st"
    by (cases "schedule_pass P employeeMap availabilityMap ?ex shifts")
       (auto simp: schedule_def)
  from assms(1,2) employees windows pass
  have result: "assignments result = st_assignments st"
    by (cases "summarizeTotals P employeeMap (st_totals st) (st_blocks st)")
       (auto simp: schedule_def)
  have wf: "wf_employees employeeMap"
    using employees by (rule normalizeEmployees_wf)
  have wfs: "\<forall>s \<in> set shifts. wf_shift s"
    using normalizeShiftRecords_wf [OF assms(2)] by blast
  from pass_keeps [OF pass wf]
  have tracked: "tracked shifts st" and caps: "within_caps employeeMap st"
    and free: "conflict_free P (st_blocks st)"
    by simp_all
  from tracked have distinct: "distinct (map fst (st_totals st))"
    "distinct (map fst (st_blocks st))"
    by (simp_all add: tracked_def)
  from caps distinct(1) have no_cap: "cap_errors P employeeMap (st_totals st) = Inr []"
    by (rule cap_errors_none)
  from free distinct(2)
  have no_overlap: "overlap_errors P employeeMap (st_blocks st) = Inr []"
    by (rule overlap_errors_none)
  from validator_follows [OF pass wf assms(3) wfs assms(4)] no_cap no_overlap
  show ?thesis
    by (simp add: validate_def employees windows assms(2) result)
qed

theorem validator_accepts_schedule_witness:
  "validate example_platform
     (map assignment_object
        [\<lparr>a_shiftId = JStr ''s1'', a_employeeId = JStr ''e1'', a_reason = None\<rparr>,
         \<lparr>a_shiftId = JStr ''s2'', a_employeeId = JStr ''e1'', a_reason = None\<rparr>,
         \<lparr>a_shiftId = JStr ''s3'', a_employeeId = JStr ''e1'', a_reason = None\<rparr>])
     (take 3 example_week) example_aide example_free_week
   = Inr []"
proof -
  let ?shifts = "result_or [] (normalizeShiftRecords example_platform (take 3 example_week))"
  have run: "schedule example_platform (take 3 example_week) example_aide example_free_week
      JUndefined
    = Inr \<lparr>assignments =
             [\<lparr>a_shiftId = JStr ''s1'', a_employeeId = JStr ''e1'', a_reason = None\<rparr>,
              \<lparr>a_shiftId = JStr ''s2'', a_employeeId = JStr ''e1'', a_reason = None\<rparr>,
              \<lparr>a_shiftId = JStr ''s3'', a_employeeId = JStr ''e1'', a_reason = None\<rparr>],
           issues = [],
           totalsByEmployee =
             [(''e1'', \<lparr>t_employeeId = JStr ''e1'', t_name = JStr ''Ann'', t_role = ''CNA'',
                        t_weeklyCap = 40, t_hours = 36, t_assignments = 3\<rparr>)]\<rparr>"
    by code_simp
  have shifts: "normalizeShiftRecords example_platform (take 3 example_week) = Inr ?shifts"
    by code_simp
  have ids: "distinct (map s_id ?shifts)"
    by code_simp
  have single: "\<forall>s \<in> set ?shifts. s_roleNeeded s \<noteq> ''CNA_OR_CMA''"
    by code_simp
  from validator_accepts_schedule [OF run shifts ids single] show ?thesis
    by simp
qed

text \<open>
  C1, as the claim states it, fails when two shifts carry one identifier: the scheduler
  fills both (different days, full coverage, cap respected, no conflict), and the
  validator, which finds a shift by its identifier, takes both assignments for the
  second shift and reports an overlap.
\<close>

theorem validator_duplicate_ids_counterexample:
  "schedule example_platform
     [example_shift ''s1'' ''CNA'' 7 19, example_shift ''s1'' ''CNA'' 31 43]
     example_aide example_free_week JUndefined
   = Inr \<lparr>assignments =
            [\<lparr>a_shiftId = JStr ''s1'', a_employeeId = JStr ''e1'', a_reason = None\<rparr>,
             \<lparr>a_shiftId = JStr ''s1'', a_employeeId = JStr ''e1'', a_reason = None\<rparr>],
          issues = [],
          totalsByEmployee =
            [(''e1'', \<lparr>t_employeeId = JStr ''e1'', t_name = JStr ''Ann'', t_role = ''CNA'',
                       t_weeklyCap = 40, t_hours = 24, t_assignments = 2\<rparr>)]\<rparr>
   \<and> validate example_platform
       (map assignment_object
          [\<lparr>a_shiftId = JStr ''s1'', a_employeeId = JStr ''e1'', a_reason = None\<rparr>,
           \<lparr>a_shiftId = JStr ''s1'', a_employeeId = JStr ''e1'', a_reason = None\<rparr>])
       [example_shift ''s1'' ''CNA'' 7 19, example_shift ''s1'' ''CNA'' 31 43]
       example_aide example_free_week
     = Inr [\<lparr>v_type = overlap, v_shiftId = JStr ''s1,s1'', v_employeeId = JStr ''e1'',
             v_message = ''Ann has overlapping shifts s1 and s1.''\<rparr>]"
  by code_simp

text \<open>
  The composite requirement. The scheduler gives a shift that requires \<open>CNA_OR_CMA\<close> to
  an employee of role \<open>CNA\<close>; the validator compares the two tokens for equality only
  (it has no case for the composite, \<open>roleMatches\<close> has one) and reports a role mismatch.
\<close>

lemma validator_rejects_composite:
  "schedule example_platform [example_shift ''s1'' ''CNA_OR_CMA'' 7 19]
     example_aide example_free_week JUndefined
   = Inr \<lparr>assignments =
            [\<lparr>a_shiftId = JStr ''s1'', a_employeeId = JStr ''e1'', a_reason = None\<rparr>],
          issues = [],
          totalsByEmployee =
            [(''e1'', \<lparr>t_employeeId = JStr ''e1'', t_name = JStr ''Ann'', t_role = ''CNA'',
                       t_weeklyCap = 40, t_hours = 12, t_assignments = 1\<rparr>)]\<rparr>
   \<and> validate example_platform
       (map assignment_object
          [\<lparr>a_shiftId = JStr ''s1'', a_employeeId = JStr ''e1'', a_reason = None\<rparr>])
       [example_shift ''s1'' ''CNA_OR_CMA'' 7 19] example_aide example_free_week
     = Inr [\<lparr>v_type = role_mismatch, v_shiftId = JStr ''s1'', v_employeeId = JStr ''e1'',
             v_message = ''Ann does not match required role CNA_OR_CMA.''\<rparr>]"
  by code_simp

section \<open>A run ends with a result\<close>

subsection \<open>Values that convert without raising\<close>

lemma collect_total:
  "(\<And>r. r \<in> set rs \<Longrightarrow> \<exists>x. r = Inr x) \<Longrightarrow> \<exists>xs. collect rs = Inr xs"
proof (induction rs)
  case Nil
  then show ?case by simp
next
  case (Cons r rs)
  from Cons.prems [of r] obtain x where "r = Inr x" by auto
  moreover from Cons.IH Cons.prems obtain xs where "collect rs = Inr xs" by auto
  ultimately show ?case by simp
qed

lemma collect_map_total:
  "(\<And>x. x \<in> set xs \<Longrightarrow> \<exists>y. f x = Inr y) \<Longrightarrow> \<exists>ys. collect (map f xs) = Inr ys"
  by (rule collect_total) auto

lemma plain_String: "plain v \<Longrightarrow> \<exists>s. js_String P v = Inr s"
proof (induction P v rule: js_String.induct)
  case (7 P xs)
  have "\<exists>s. (if x = JNull \<or> x = JUndefined then Inr [] else js_String P x) = Inr s"
    if "x \<in> set xs" for x
    using that 7 by (auto simp: list_all_iff)
  then have "\<exists>ss. collect (map (\<lambda>x. if x = JNull \<or> x = JUndefined then Inr []
      else js_String P x) xs) = Inr ss"
    by (rule collect_map_total)
  then show ?case by auto
qed simp_all

lemma plain_dateable: "plain v \<Longrightarrow> \<exists>d. toDate P v = Inr d"
  using plain_String [of v P] by (cases v) (auto simp: toDate_def)

lemma plain_js_or: "plain a \<Longrightarrow> plain b \<Longrightarrow> plain (js_or a b)"
  by (simp add: js_or_def)

lemma plain_get_prop: "plain v \<Longrightarrow> plain (get_prop v key)"
proof (cases v)
  case (JObj fs)
  assume "plain v"
  with JObj have all: "\<forall>x \<in> set fs. plain (snd x)"
    by (simp add: list_all_iff)
  show ?thesis
  proof (cases "map_of fs key")
    case None
    with JObj show ?thesis by simp
  next
    case (Some x)
    then have "(key, x) \<in> set fs" by (rule map_of_SomeD)
    with all have "plain x" by auto
    with JObj Some show ?thesis by simp
  qed
qed simp_all

lemma plain_first_own: "plain v \<Longrightarrow> first_own v keys = Some x \<Longrightarrow> plain x"
  by (induction keys) (auto simp: plain_get_prop split: if_splits)

lemma plain_readField: "plain v \<Longrightarrow> plain (readField v keys)"
proof -
  assume v: "plain v"
  let ?fields = "if truthy v then get_prop v ''fields'' else v"
  from v have "plain ?fields"
    by (simp add: plain_get_prop)
  with v show ?thesis
    unfolding readField_def Let_def
    by (auto split: option.splits dest: plain_first_own)
qed

lemma plain_fields_of: "plain v \<Longrightarrow> plain (fields_of v)"
  by (simp add: fields_of_def plain_get_prop)

lemma plain_combine:
  "plain dateValue \<Longrightarrow> plain timeValue \<Longrightarrow> \<exists>d. combineDateTime P dateValue timeValue = Inr d"
  using plain_dateable [of dateValue P] plain_dateable [of timeValue P]
  by (auto simp: combineDateTime_def Let_def split: option.splits)

lemma normalizeRange_dated: "\<exists>r. normalizeRange P (date_val a) (date_val b) = Inr r"
  by (simp add: normalizeRange_dateable)

lemma hoursBetween_dated: "\<exists>h. hoursBetween P (date_val a) (date_val b) = Inr h"
  by (auto simp: hoursBetween_def normalizeRange_dateable split: option.splits)

subsection \<open>The normalisation\<close>

lemma employee_of_total: "plain r \<Longrightarrow> \<exists>e. employee_of P r k = Inr e"
proof -
  assume r: "plain r"
  from r obtain role where "js_String P (js_or (readField r [''role'']) (JStr [])) = Inr role"
    using plain_String [of "js_or (readField r [''role'']) (JStr [])" P]
    by (auto simp: plain_js_or plain_readField)
  moreover from r obtain status
    where "js_String P (js_or (readField r [''status'']) (JStr ''Active'')) = Inr status"
    using plain_String [of "js_or (readField r [''status'']) (JStr ''Active'')" P]
    by (auto simp: plain_js_or plain_readField)
  moreover from r obtain cap
    where "js_String P (readField r [''weekly_cap'', ''weeklyCap'', ''Weekly Cap'']) = Inr cap"
    using plain_String [of "readField r [''weekly_cap'', ''weeklyCap'', ''Weekly Cap'']" P]
    by (auto simp: plain_readField)
  ultimately show ?thesis
    by (simp add: employee_of_def js_parseFloat_def)
qed

lemma normalizeEmployees_total:
  assumes "\<forall>r \<in> set rs. plain r"
  shows "\<exists>m. normalizeEmployees P rs = Inr m"
  unfolding normalizeEmployees_def
proof (rule forEach_total)
  fix m r
  assume "r \<in> set rs"
  with assms employee_of_total [of r P "readField r [''id'', ''employee_id'', ''employeeId'']"]
  show "\<exists>m'. add_employee P m r = Inr m'"
    by (auto simp: add_employee_def Let_def)
qed

lemma add_availability_total:
  assumes "plain r"
  shows "\<exists>m'. add_availability P m r = Inr m'"
proof -
  let ?fields = "fields_of r"
  from assms have fields: "plain ?fields" by (rule plain_fields_of)
  obtain type where type: "js_String P (js_or (readField ?fields [''type'', ''Type''])
      (JStr ''Available'')) = Inr type"
    using plain_String [of "js_or (readField ?fields [''type'', ''Type'']) (JStr ''Available'')" P]
      fields
    by (auto simp: plain_js_or plain_readField)
  obtain start where start: "combineDateTime P (readField ?fields [''date'', ''Date''])
      (readField ?fields [''start_time'', ''start'', ''Start'']) = Inr start"
    using plain_combine fields plain_readField by blast
  obtain end' where end': "combineDateTime P (readField ?fields [''date'', ''Date''])
      (readField ?fields [''end_time'', ''end'', ''End'']) = Inr end'"
    using plain_combine fields plain_readField by blast
  obtain normalized where "normalizeRange P (date_val start) (date_val end') = Inr normalized"
    using normalizeRange_dated by blast
  with type start end' show ?thesis
    by (simp add: add_availability_def Let_def)
qed

lemma normalizeAvailability_total:
  assumes "\<forall>r \<in> set rs. plain r"
  shows "\<exists>m. normalizeAvailability P rs = Inr m"
  unfolding normalizeAvailability_def
  by (rule forEach_total) (use assms add_availability_total in blast)

lemma shift_of_total:
  assumes "plain r"
  shows "\<exists>s. shift_of P r = Inr s"
proof -
  let ?fields = "fields_of r"
  from assms have fields: "plain ?fields" by (rule plain_fields_of)
  obtain role where role: "js_String P (js_or (readField ?fields [''role_needed'', ''role'', ''Role''])
      (JStr ''Either'')) = Inr role"
    using plain_String [of "js_or (readField ?fields [''role_needed'', ''role'', ''Role''])
        (JStr ''Either'')" P] fields
    by (auto simp: plain_js_or plain_readField)
  obtain start where start: "combineDateTime P (readField ?fields [''date'', ''Date''])
      (readField ?fields [''start_time'', ''start'', ''Start'']) = Inr start"
    using plain_combine fields plain_readField by blast
  obtain end' where end': "combineDateTime P (readField ?fields [''date'', ''Date''])
      (readField ?fields [''end_time'', ''end'', ''End'']) = Inr end'"
    using plain_combine fields plain_readField by blast
  obtain normalized
    where range: "normalizeRange P (date_val start) (date_val end') = Inr normalized"
    using normalizeRange_dated by blast
  obtain hours where "hoursBetween P (date_val (r_start normalized))
      (date_val (r_end normalized)) = Inr hours"
    using hoursBetween_dated by blast
  with role start end' range show ?thesis
    by (simp add: shift_of_def Let_def)
qed

lemma normalizeShiftRecords_total:
  assumes "\<forall>r \<in> set rs. plain r"
  shows "\<exists>shifts. normalizeShiftRecords P rs = Inr shifts"
proof -
  have "\<exists>found. collect (map (shift_of P) rs) = Inr found"
    by (rule collect_map_total) (use assms shift_of_total in auto)
  then show ?thesis
    by (auto simp: normalizeShiftRecords_def)
qed

lemma normalizeEmployees_plain:
  assumes "\<forall>r \<in> set rs. plain r"
    and "normalizeEmployees P rs = Inr m" and "(k, e) \<in> set m"
  shows "plain k"
  using normalizeEmployees_entries [OF assms(2,3)] assms(1) plain_readField by blast

subsection \<open>The scheduler\<close>

text \<open>The tie-break is the one place of the pass that can raise: it does not when
  every name is a string or falsy.\<close>

lemma active_names:
  assumes "\<forall>(k, e) \<in> set employeeMap. string_name (e_name e)"
    and "x \<in> set (free_pool P st shift
          (withinCap st shift
             (availabilityCandidates availabilityMap shift
                (active_pool P employeeMap needed))))"
  shows "string_name (e_name (c_employee x))"
  using assms
  by (auto simp: free_pool_eq withinCap_def availabilityCandidates_def
        active_pool_eq)

lemma assignFresh_total:
  assumes names: "\<forall>(k, e) \<in> set employeeMap. string_name (e_name e)"
  shows "\<exists>st'. assignFresh P employeeMap availabilityMap st shift needed = Inr st'"
proof -
  let ?active = "active_pool P employeeMap needed"
  let ?candidates = "availabilityCandidates availabilityMap shift ?active"
  let ?capped = "withinCap st shift ?candidates"
  let ?free = "free_pool P st shift ?capped"
  show ?thesis
  proof (cases "?free = []")
    case True
    then show ?thesis
      by (simp add: assignFresh_eq Let_def)
  next
    case False
    have "\<forall>x \<in> set ?free. \<forall>y \<in> set ?free. \<exists>c. compareCandidates P st x y = Inr c"
      using active_names [OF names] compareCandidates_total by blast
    then obtain ys where sorted: "js_sort (compareCandidates P st) ?free = Inr ys"
      using js_sort_total by blast
    from js_sort_set [OF sorted] False obtain first rest where "ys = first # rest"
      by (cases ys) auto
    with sorted assignFresh_sorted [OF refl False]
    show ?thesis
      by simp
  qed
qed

lemma process_shift_total:
  assumes "\<forall>(k, e) \<in> set employeeMap. string_name (e_name e)"
  shows "\<exists>st'. process_shift P employeeMap availabilityMap existing st shift = Inr st'"
  using assignFresh_total [OF assms]
  by (simp add: process_shift_eq Let_def)

lemma schedule_pass_total:
  assumes "\<forall>(k, e) \<in> set employeeMap. string_name (e_name e)"
  shows "\<exists>st. schedule_pass P employeeMap availabilityMap existing shifts = Inr st"
  unfolding schedule_pass_def
  by (rule forEach_total) (rule process_shift_total [OF assms])

text \<open>The assignments of a pass: one for each shift, in order, either of a known
  employee and without a reason, or of nobody and with a reason.\<close>

lemma can_keep_known:
  "can_keep P employeeMap availabilityMap st e shift needed \<Longrightarrow> e \<in> fst ` set employeeMap"
  by (auto simp: can_keep_eq map_get_def split: option.splits dest!: map_of_SomeD
        intro: rev_image_eqI)

lemma pass_shape:
  assumes pass: "schedule_pass P employeeMap availabilityMap existing shifts = Inr st"
    and wf: "wf_employees employeeMap"
  shows "map a_shiftId (st_assignments st) = map s_id shifts
     \<and> (\<forall>a \<in> set (st_assignments st).
          (a_employeeId a = JNull \<and> a_reason a \<noteq> None)
          \<or> (a_employeeId a \<in> fst ` set employeeMap \<and> a_reason a = None))"
proof -
  let ?ok = "\<lambda>a. (a_employeeId a = JNull \<and> a_reason a \<noteq> None)
          \<or> (a_employeeId a \<in> fst ` set employeeMap \<and> a_reason a = None)"
  let ?I = "\<lambda>seen st. map a_shiftId (st_assignments st) = map s_id seen
      \<and> (\<forall>a \<in> set (st_assignments st). ?ok a)"
  have start: "?I [] empty_state"
    by (simp add: empty_state_def)
  have round: "?I (seen @ [x]) s'"
    if inv: "?I seen s"
      and run: "process_shift P employeeMap availabilityMap existing s x = Inr s'"
    for seen x s s'
    using process_shift_step [OF run wf]
  proof
    assume "\<exists>reason iss.
            s' = s\<lparr>st_assignments := st_assignments s @
                       [\<lparr>a_shiftId = s_id x, a_employeeId = JNull,
                         a_reason = Some reason\<rparr>],
                     st_issues := iss\<rparr>"
    with inv show ?thesis by auto
  next
    assume "\<exists>e iss. s_start x \<noteq> None \<and> s_end x \<noteq> None \<and> truthy e
          \<and> can_keep P employeeMap availabilityMap s e x (needed_token P x)
          \<and> s' = commit (s\<lparr>st_issues := iss\<rparr>) e x"
    then obtain e iss
      where can: "can_keep P employeeMap availabilityMap s e x (needed_token P x)"
        and s': "s' = commit (s\<lparr>st_issues := iss\<rparr>) e x"
      by blast
    from can_keep_known [OF can] inv show ?thesis
      unfolding s' by simp
  qed
  from pass have "forEach (process_shift P employeeMap availabilityMap existing)
      empty_state shifts = Inr st"
    by (simp add: schedule_pass_def)
  then show ?thesis
    using start round by (rule forEach_invariant [where I = ?I])
qed

subsection \<open>The summary\<close>

lemma summarizeTotals_total:
  assumes "\<forall>(k, e) \<in> set employeeMap. plain k"
  shows "\<exists>summary. summarizeTotals P employeeMap totals blocks = Inr summary"
  unfolding summarizeTotals_def
proof (rule forEach_total)
  fix summary :: "(string \<times> summary) list" and x
  assume "x \<in> set employeeMap"
  with assms obtain k e where x: "x = (k, e)" and "plain k" by (cases x) auto
  with plain_String [of k P] obtain key where "js_String P k = Inr key" by auto
  with x show "\<exists>summary'. (case x of
      (employeeId, employee) \<Rightarrow>
        (case js_String P employeeId of
           Inl e \<Rightarrow> Inl e
         | Inr key \<Rightarrow>
             Inr (if key = ''__proto__'' then summary
                  else map_set summary key
                         \<lparr>t_employeeId = employeeId, t_name = e_name employee,
                          t_role = e_role employee, t_weeklyCap = e_weeklyCap employee,
                          t_hours = round2 (total_of totals employeeId),
                          t_assignments = length (blocks_of blocks employeeId)\<rparr>)))
      = Inr summary'"
    by simp
qed

subsection \<open>The validator\<close>

lemma template_total:
  "(\<And>p. p \<in> set pieces \<Longrightarrow> \<exists>s. p = Inr s) \<Longrightarrow> \<exists>message. template pieces = Inr message"
  using collect_total [of pieces] by (auto simp: template_def)

lemma report_total:
  "(\<And>p. p \<in> set pieces \<Longrightarrow> \<exists>s. p = Inr s)
     \<Longrightarrow> \<exists>errs. report type shiftId employeeId pieces = Inr errs"
  using template_total [of pieces] by (auto simp: report_def)

lemma who_total:
  assumes "string_name name" and "plain employeeId"
  shows "\<exists>s. js_String P (js_or name employeeId) = Inr s"
proof (cases "truthy name")
  case True
  with assms(1) show ?thesis
    by (cases name) (simp_all add: string_name_def js_or_def)
next
  case False
  with plain_String [OF assms(2), of P] show ?thesis
    by (simp add: js_or_def)
qed

lemma string_name_String_total: "string_name name \<Longrightarrow> \<exists>s. js_String P name = Inr s"
  by (cases name) (simp_all add: string_name_def js_or_def split: if_splits)

lemma plain_blocks_of:
  "plain_state vs \<Longrightarrow> b \<in> set (blocks_of (blocksByEmployee vs) k) \<Longrightarrow> plain (b_shiftId b)"
proof (cases "map_get (blocksByEmployee vs) k")
  case None
  assume "b \<in> set (blocks_of (blocksByEmployee vs) k)"
  with None show ?thesis by (simp add: blocks_of_def)
next
  case (Some bs)
  assume state: "plain_state vs" and "b \<in> set (blocks_of (blocksByEmployee vs) k)"
  with Some have "b \<in> set bs" by (simp add: blocks_of_def)
  moreover from Some have "(k, bs) \<in> set (blocksByEmployee vs)" by (rule map_get_SomeD)
  ultimately show ?thesis
    using state by (auto simp: plain_state_def)
qed

lemma plain_state_push:
  assumes "plain_state vs" and "plain k" and "plain shiftId"
  shows "plain_state
     \<lparr>v_errors = errs,
      hoursByEmployee = map_set (hoursByEmployee vs) k h,
      blocksByEmployee =
        map_set (blocksByEmployee vs) k
          (blocks_of (blocksByEmployee vs) k @
           [\<lparr>b_start = start, b_end = end', b_shiftId = shiftId\<rparr>])\<rparr>"
proof -
  have hours: "plain k'" if "(k', h') \<in> set (map_set (hoursByEmployee vs) k h)" for k' h'
    using that set_map_set [of "hoursByEmployee vs" k h] assms(1,2)
    by (auto simp: plain_state_def)
  have blocks: "plain k' \<and> (\<forall>b \<in> set bs. plain (b_shiftId b))"
    if "(k', bs) \<in> set (map_set (blocksByEmployee vs) k
          (blocks_of (blocksByEmployee vs) k @
           [\<lparr>b_start = start, b_end = end', b_shiftId = shiftId\<rparr>]))" for k' bs
  proof -
    from that set_map_set [of "blocksByEmployee vs" k]
    consider "(k', bs) \<in> set (blocksByEmployee vs)"
      | "k' = k" "bs = blocks_of (blocksByEmployee vs) k @
           [\<lparr>b_start = start, b_end = end', b_shiftId = shiftId\<rparr>]"
      by auto
    then show ?thesis
    proof cases
      case 1
      with assms(1) show ?thesis by (auto simp: plain_state_def)
    next
      case 2
      with assms plain_blocks_of [OF assms(1)] show ?thesis by auto
    qed
  qed
  from hours blocks show ?thesis
    by (auto simp: plain_state_def)
qed

lemma check_assignment_total:
  assumes entry: "a \<noteq> JNull" "a \<noteq> JUndefined" "plain a"
    and names: "\<forall>(k, e) \<in> set employeeMap. string_name (e_name e)"
    and state: "plain_state vs"
  shows "\<exists>vs'. check_assignment P employeeMap availabilityMap shiftMap vs a = Inr vs'
    \<and> plain_state vs'"
proof -
  let ?sid = "js_or (get_prop a ''shiftId'') (get_prop a ''shift_id'')"
  let ?eid = "js_or (get_prop a ''employeeId'') (get_prop a ''employee_id'')"
  from entry(3) have plain: "plain ?sid" "plain ?eid"
    by (simp_all add: plain_js_or plain_get_prop)
  from plain_String [OF plain(1), of P] obtain sidS where sidS: "js_String P ?sid = Inr sidS"
    by auto
  from plain_String [OF plain(2), of P] obtain eidS where eidS: "js_String P ?eid = Inr eidS"
    by auto
  from entry(1,2) have read: "prop_checked a ''shiftId'' = Inr (get_prop a ''shiftId'')"
    by (simp add: prop_checked_def)
  show ?thesis
  proof (cases "\<not> truthy ?sid \<or> \<not> truthy ?eid")
    case True
    with state show ?thesis
      by (auto simp: check_assignment_def read Let_def)
  next
    case ids: False
    show ?thesis
    proof (cases "map_get shiftMap ?sid")
      case None
      from state have "plain_state (vs\<lparr>v_errors := errs\<rparr>)" for errs
        by (simp add: plain_state_def)
      with None ids sidS show ?thesis
        by (simp add: check_assignment_def read Let_def report_def template_def)
    next
      case shift: (Some shift)
      show ?thesis
      proof (cases "map_get employeeMap ?eid")
        case None
        from state have "plain_state (vs\<lparr>v_errors := errs\<rparr>)" for errs
          by (simp add: plain_state_def)
        with None shift ids eidS show ?thesis
          by (simp add: check_assignment_def read Let_def report_def template_def)
      next
        case (Some employee)
        then have "(?eid, employee) \<in> set employeeMap" by (rule map_get_SomeD)
        with names have "string_name (e_name employee)" by auto
        from who_total [OF this plain(2), of P]
        obtain who where who: "js_String P (js_or (e_name employee) ?eid) = Inr who"
          by auto
        obtain inactive where inactive:
          "(if e_status employee \<noteq> ''active''
            then report inactive_employee ?sid ?eid
                   [js_String P (js_or (e_name employee) ?eid), Inr '' is not active.'']
            else Inr []) = Inr inactive"
          by (cases "e_status employee \<noteq> ''active''")
             (simp_all add: report_def template_def who)
        obtain mismatch where mismatch:
          "(if s_roleNeeded shift \<noteq> ''EITHER'' \<and> e_role employee \<noteq> s_roleNeeded shift
            then report role_mismatch ?sid ?eid
                   [js_String P (js_or (e_name employee) ?eid),
                    Inr '' does not match required role '',
                    Inr (s_roleNeeded shift), Inr ''.'']
            else Inr []) = Inr mismatch"
          by (cases "s_roleNeeded shift \<noteq> ''EITHER'' \<and> e_role employee \<noteq> s_roleNeeded shift")
             (simp_all add: report_def template_def who)
        obtain uncovered where uncovered:
          "(if \<not> list_ex (\<lambda>w. window_covers_shift w shift) (windows_of availabilityMap ?eid)
            then report availability ?sid ?eid
                   [js_String P (js_or (e_name employee) ?eid),
                    Inr '' is not available for shift '', js_String P ?sid, Inr ''.'']
            else Inr []) = Inr uncovered"
          by (cases "list_ex (\<lambda>w. window_covers_shift w shift) (windows_of availabilityMap ?eid)")
             (simp_all add: report_def template_def who sidS)
        have run: "check_assignment P employeeMap availabilityMap shiftMap vs a
          = Inr \<lparr>v_errors = v_errors vs @ inactive @ mismatch @ uncovered,
                 hoursByEmployee =
                   map_set (hoursByEmployee vs) ?eid
                     (total_of (hoursByEmployee vs) ?eid + s_hours shift),
                 blocksByEmployee =
                   map_set (blocksByEmployee vs) ?eid
                     (blocks_of (blocksByEmployee vs) ?eid @
                      [\<lparr>b_start = s_start shift, b_end = s_end shift,
                        b_shiftId = ?sid\<rparr>])\<rparr>"
          using ids shift Some
          by (simp add: check_assignment_def read Let_def inactive mismatch uncovered)
        from plain_state_push [OF state plain(2) plain(1)] run show ?thesis
          by simp
      qed
    qed
  qed
qed

lemma forEach_total_keeps:
  assumes "I s0"
    and "\<And>s x. I s \<Longrightarrow> x \<in> set xs \<Longrightarrow> \<exists>s'. f s x = Inr s' \<and> I s'"
  shows "\<exists>s'. forEach f s0 xs = Inr s' \<and> I s'"
  using assms
proof (induction xs arbitrary: s0)
  case Nil
  then show ?case by simp
next
  case (Cons x xs)
  from Cons.prems(2) [OF Cons.prems(1), of x] obtain s1 where step: "f s0 x = Inr s1"
    and keeps: "I s1"
    by auto
  from Cons.IH [OF keeps] Cons.prems(2) obtain s' where "forEach f s1 xs = Inr s'" "I s'"
    by auto
  with step show ?case by simp
qed

lemma cap_errors_total:
  assumes names: "\<forall>(k, e) \<in> set employeeMap. string_name (e_name e)"
    and keys: "\<forall>(k, h) \<in> set hours_by. plain k"
  shows "\<exists>errs. cap_errors P employeeMap hours_by = Inr errs"
proof -
  let ?f = "\<lambda>(employeeId, hours).
      case map_get employeeMap employeeId of
        None \<Rightarrow> Inr []
      | Some employee \<Rightarrow>
          if hours > e_weeklyCap employee
          then report weekly_cap JUndefined employeeId
                 [js_String P (js_or (e_name employee) employeeId),
                  Inr '' exceeds weekly cap ('', Inr (to_fixed2 P hours),
                  Inr '' > '', Inr (num_string P (e_weeklyCap employee)),
                  Inr '').'']
          else Inr []"
  have "\<exists>errs. ?f x = Inr errs" if "x \<in> set hours_by" for x
  proof -
    obtain k h where x: "x = (k, h)" by (cases x)
    with keys that have k: "plain k" by auto
    show ?thesis
    proof (cases "map_get employeeMap k")
      case None
      with x show ?thesis by simp
    next
      case (Some employee)
      then have "(k, employee) \<in> set employeeMap" by (rule map_get_SomeD)
      with names have "string_name (e_name employee)" by auto
      from who_total [OF this k, of P]
      obtain who where "js_String P (js_or (e_name employee) k) = Inr who" by auto
      with x Some show ?thesis
        by (simp add: report_def template_def)
    qed
  qed
  then have "\<exists>errs. collect (map ?f hours_by) = Inr errs"
    by (rule collect_map_total)
  then show ?thesis
    by (auto simp: cap_errors_def)
qed

lemma overlap_report_total:
  assumes "plain (b_shiftId bi)" and "plain (b_shiftId bj)"
    and "\<exists>s. js_String P (case employee of Some e \<Rightarrow> e_name e | None \<Rightarrow> employeeId) = Inr s"
  shows "\<exists>errs. overlap_report P employee employeeId bi bj = Inr errs"
proof -
  from plain_String [OF assms(1), of P] obtain si where "js_String P (b_shiftId bi) = Inr si"
    by auto
  moreover from plain_String [OF assms(2), of P]
  obtain sj where "js_String P (b_shiftId bj) = Inr sj"
    by auto
  moreover from assms(3)
  obtain who where "js_String P (case employee of Some e \<Rightarrow> e_name e | None \<Rightarrow> employeeId)
      = Inr who"
    by auto
  ultimately show ?thesis
    by (simp add: overlap_report_def report_def template_def)
qed

lemma block_pairs_set: "(a, b) \<in> set (block_pairs xs) \<Longrightarrow> a \<in> set xs \<and> b \<in> set xs"
  by (induction xs) auto

lemma overlap_errors_total:
  assumes names: "\<forall>(k, e) \<in> set employeeMap. string_name (e_name e)"
    and keys: "\<forall>(k, bs) \<in> set blocks_by. plain k \<and> (\<forall>b \<in> set bs. plain (b_shiftId b))"
  shows "\<exists>errs. overlap_errors P employeeMap blocks_by = Inr errs"
proof -
  let ?pair = "\<lambda>employeeId (bi, bj).
      case overlaps P (Some [block_span bi]) (date_val (b_start bj)) (date_val (b_end bj)) of
        Inl e \<Rightarrow> Inl e
      | Inr conflict \<Rightarrow>
          if conflict
          then overlap_report P (map_get employeeMap employeeId) employeeId bi bj
          else Inr []"
  let ?entry = "\<lambda>(employeeId, blocks).
      case collect (map (?pair employeeId) (block_pairs blocks)) of
        Inl e \<Rightarrow> Inl e
      | Inr errs \<Rightarrow> Inr (concat errs)"
  have "\<exists>errs. ?entry x = Inr errs" if "x \<in> set blocks_by" for x
  proof -
    obtain k bs where x: "x = (k, bs)" by (cases x)
    with keys that have k: "plain k" and ids: "\<forall>b \<in> set bs. plain (b_shiftId b)"
      by auto
    have who: "\<exists>s. js_String P (case map_get employeeMap k of
        Some e \<Rightarrow> e_name e | None \<Rightarrow> k) = Inr s"
    proof (cases "map_get employeeMap k")
      case None
      with plain_String [OF k, of P] show ?thesis by simp
    next
      case (Some employee)
      then have "(k, employee) \<in> set employeeMap" by (rule map_get_SomeD)
      with names have "string_name (e_name employee)" by auto
      with Some show ?thesis
        by (simp add: string_name_String_total)
    qed
    have "\<exists>errs. ?pair k p = Inr errs" if "p \<in> set (block_pairs bs)" for p
    proof -
      obtain bi bj where p: "p = (bi, bj)" by (cases p)
      with that ids block_pairs_set [of bi bj bs]
      have "plain (b_shiftId bi)" "plain (b_shiftId bj)" by auto
      from overlap_report_total [OF this who] p show ?thesis
        using overlaps_dated_Some [of P "[bi]" "b_start bj" "b_end bj"] by simp
    qed
    then have "\<exists>errs. collect (map (?pair k) (block_pairs bs)) = Inr errs"
      by (rule collect_map_total)
    with x show ?thesis by auto
  qed
  then have "\<exists>errs. collect (map ?entry blocks_by) = Inr errs"
    by (rule collect_map_total)
  then show ?thesis
    by (auto simp: overlap_errors_def)
qed

text \<open>
  C9, as the code has it by design. The code looks at no types. For all lists of
  records in which no object has a property named \<open>toString\<close> and the name of every
  employee record is a string or falsy, and for every list of assignments with no
  \<open>null\<close> or \<open>undefined\<close> entry and no such object, \<open>schedule\<close> and \<open>validate\<close> return a
  result and raise nothing. The result of \<open>schedule\<close> has one assignment for each
  canonical shift, in order, either of a canonical employee and without a reason, or of
  nobody and with a reason. A record whose identifier is missing (or falsy) under every
  alias is not in the canonical employees or shifts, an availability record whose
  combined start or end does not parse adds no window, and every window kept has a valid
  start and an end.
\<close>

theorem run_completes:
  assumes "\<forall>r \<in> set employees. plain r \<and> string_name (readField r [''name'', ''Name''])"
    and "\<forall>r \<in> set shiftTemplate. plain r"
    and "\<forall>r \<in> set availabilityRecords. plain r"
    and "\<forall>a \<in> set assignments'. a \<noteq> JNull \<and> a \<noteq> JUndefined \<and> plain a"
  shows "\<exists>employeeMap availabilityMap shifts result errors.
      normalizeEmployees P employees = Inr employeeMap
      \<and> normalizeAvailability P availabilityRecords = Inr availabilityMap
      \<and> normalizeShiftRecords P shiftTemplate = Inr shifts
      \<and> schedule P shiftTemplate employees availabilityRecords existingAssignments
          = Inr result
      \<and> map a_shiftId (assignments result) = map s_id shifts
      \<and> (\<forall>a \<in> set (assignments result).
            (a_employeeId a = JNull \<and> a_reason a \<noteq> None)
            \<or> (a_employeeId a \<in> fst ` set employeeMap \<and> a_reason a = None))
      \<and> validate P assignments' shiftTemplate employees availabilityRecords = Inr errors
      \<and> normalizeEmployees P
          (filter (\<lambda>r. truthy (readField r [''id'', ''employee_id'', ''employeeId'']))
             employees)
          = Inr employeeMap
      \<and> normalizeShiftRecords P
          (filter (\<lambda>r. truthy (readField r [''id'', ''shift_id'', ''Shift Id'', ''shiftId'']))
             shiftTemplate)
          = Inr shifts
      \<and> normalizeAvailability P (filter (window_parses P) availabilityRecords)
          = Inr availabilityMap
      \<and> parsed_windows availabilityMap"
proof -
  let ?ex = "normalizeAssignments existingAssignments"
  from assms(1) normalizeEmployees_total [of employees P]
  obtain employeeMap where employees: "normalizeEmployees P employees = Inr employeeMap"
    by auto
  from assms(3) normalizeAvailability_total [of availabilityRecords P]
  obtain availabilityMap
    where windows: "normalizeAvailability P availabilityRecords = Inr availabilityMap"
    by auto
  from assms(2) normalizeShiftRecords_total [of shiftTemplate P]
  obtain shifts where shifts: "normalizeShiftRecords P shiftTemplate = Inr shifts"
    by auto
  have names: "\<forall>(k, e) \<in> set employeeMap. string_name (e_name e)"
    using normalizeEmployees_names [OF _ employees] assms(1) by blast
  have keys: "\<forall>(k, e) \<in> set employeeMap. plain k"
    using normalizeEmployees_plain [OF _ employees] assms(1) by blast
  have wf: "wf_employees employeeMap"
    using employees by (rule normalizeEmployees_wf)
  from schedule_pass_total [OF names]
  obtain st where pass: "schedule_pass P employeeMap availabilityMap ?ex shifts = Inr st"
    by blast
  from summarizeTotals_total [OF keys]
  obtain totals
    where totals: "summarizeTotals P employeeMap (st_totals st) (st_blocks st) = Inr totals"
    by blast
  let ?result = "\<lparr>assignments = st_assignments st, issues = st_issues st,
      totalsByEmployee = totals\<rparr>"
  have run: "schedule P shiftTemplate employees availabilityRecords existingAssignments
      = Inr ?result"
    by (simp add: schedule_def employees windows shifts pass totals)
  note shape = pass_shape [OF pass wf]

  let ?shiftMap = "foldl (\<lambda>m shift. map_set m (s_id shift) shift) [] shifts"
  let ?start = "\<lparr>v_errors = [], hoursByEmployee = [], blocksByEmployee = []\<rparr>"
  have "plain_state ?start"
    by (simp add: plain_state_def)
  then have "\<exists>vs. forEach (check_assignment P employeeMap availabilityMap ?shiftMap) ?start
      assignments' = Inr vs \<and> plain_state vs"
    by (rule forEach_total_keeps) (use assms(4) names in \<open>simp add: check_assignment_total\<close>)
  then obtain vs
    where checked: "forEach (check_assignment P employeeMap availabilityMap ?shiftMap) ?start
        assignments' = Inr vs"
      and state: "plain_state vs"
    by blast
  from state have "\<forall>(k, h) \<in> set (hoursByEmployee vs). plain k"
    by (simp add: plain_state_def)
  from cap_errors_total [OF names this]
  obtain capped where capped: "cap_errors P employeeMap (hoursByEmployee vs) = Inr capped"
    by blast
  from state
  have "\<forall>(k, bs) \<in> set (blocksByEmployee vs). plain k \<and> (\<forall>b \<in> set bs. plain (b_shiftId b))"
    by (simp add: plain_state_def)
  from overlap_errors_total [OF names this]
  obtain overlapping
    where overlapping: "overlap_errors P employeeMap (blocksByEmployee vs) = Inr overlapping"
    by blast
  have checks: "validate P assignments' shiftTemplate employees availabilityRecords
      = Inr (v_errors vs @ capped @ overlapping)"
    by (simp add: validate_def employees windows shifts checked capped overlapping)

  have "normalizeEmployees P employees = Inr employeeMap
      \<and> normalizeAvailability P availabilityRecords = Inr availabilityMap
      \<and> normalizeShiftRecords P shiftTemplate = Inr shifts
      \<and> schedule P shiftTemplate employees availabilityRecords existingAssignments
          = Inr ?result
      \<and> map a_shiftId (assignments ?result) = map s_id shifts
      \<and> (\<forall>a \<in> set (assignments ?result).
            (a_employeeId a = JNull \<and> a_reason a \<noteq> None)
            \<or> (a_employeeId a \<in> fst ` set employeeMap \<and> a_reason a = None))
      \<and> validate P assignments' shiftTemplate employees availabilityRecords
          = Inr (v_errors vs @ capped @ overlapping)
      \<and> normalizeEmployees P
          (filter (\<lambda>r. truthy (readField r [''id'', ''employee_id'', ''employeeId'']))
             employees)
          = Inr employeeMap
      \<and> normalizeShiftRecords P
          (filter (\<lambda>r. truthy (readField r [''id'', ''shift_id'', ''Shift Id'', ''shiftId'']))
             shiftTemplate)
          = Inr shifts
      \<and> normalizeAvailability P (filter (window_parses P) availabilityRecords)
          = Inr availabilityMap
      \<and> parsed_windows availabilityMap"
    using employees windows shifts run shape checks
      normalizeAvailability_filter [OF windows] normalizeAvailability_parsed [OF windows]
    by (simp add: normalizeEmployees_filter normalizeShiftRecords_filter)
  then show ?thesis
    by blast
qed

theorem run_completes_witness:
  "(\<exists>result.
      schedule example_platform
        [example_shift ''s1'' ''CNA'' 7 19, JObj [(''role_needed'', JStr ''CNA'')],
         JObj [(''id'', JStr ''s3''), (''start_time'', JStr ''soon'')]]
        [example_employee ''e1'' (JStr ''Ann'') ''CNA'', JObj [(''name'', JStr ''Zed'')], JNull]
        [example_window ''e1'' ''Available'' 0 96,
         JObj [(''employee_id'', JStr ''e1''), (''start_time'', JStr ''late'')]]
        JUndefined
        = Inr result
      \<and> map a_shiftId (assignments result) = [JStr ''s1'', JStr ''s3''])
   \<and> (\<exists>errors.
        validate example_platform
          [JObj [(''shiftId'', JStr ''s9''), (''employeeId'', JStr ''e1'')], JNum 3]
          [example_shift ''s1'' ''CNA'' 7 19, JObj [(''role_needed'', JStr ''CNA'')],
           JObj [(''id'', JStr ''s3''), (''start_time'', JStr ''soon'')]]
          [example_employee ''e1'' (JStr ''Ann'') ''CNA'', JObj [(''name'', JStr ''Zed'')], JNull]
          [example_window ''e1'' ''Available'' 0 96,
           JObj [(''employee_id'', JStr ''e1''), (''start_time'', JStr ''late'')]]
          = Inr errors)"
proof -
  let ?shifts = "[example_shift ''s1'' ''CNA'' 7 19, JObj [(''role_needed'', JStr ''CNA'')],
         JObj [(''id'', JStr ''s3''), (''start_time'', JStr ''soon'')]]"
  let ?employees = "[example_employee ''e1'' (JStr ''Ann'') ''CNA'',
      JObj [(''name'', JStr ''Zed'')], JNull]"
  let ?windows = "[example_window ''e1'' ''Available'' 0 96,
         JObj [(''employee_id'', JStr ''e1''), (''start_time'', JStr ''late'')]]"
  let ?given = "[JObj [(''shiftId'', JStr ''s9''), (''employeeId'', JStr ''e1'')], JNum 3]"
  have names: "\<forall>r \<in> set ?employees. plain r \<and> string_name (readField r [''name'', ''Name''])"
    by code_simp
  have plain_shifts: "\<forall>r \<in> set ?shifts. plain r"
    by code_simp
  have plain_windows: "\<forall>r \<in> set ?windows. plain r"
    by code_simp
  have entries: "\<forall>a \<in> set ?given. a \<noteq> JNull \<and> a \<noteq> JUndefined \<and> plain a"
    by code_simp
  have ids: "normalizeShiftRecords example_platform ?shifts = Inr shifts
      \<Longrightarrow> map s_id shifts = [JStr ''s1'', JStr ''s3'']" for shifts
  proof -
    assume "normalizeShiftRecords example_platform ?shifts = Inr shifts"
    moreover have "map s_id (result_or [] (normalizeShiftRecords example_platform ?shifts))
        = [JStr ''s1'', JStr ''s3'']"
      by code_simp
    ultimately show ?thesis by simp
  qed
  from run_completes [OF names plain_shifts plain_windows entries,
      of example_platform JUndefined] ids
  show ?thesis
    by metis
qed

text \<open>
  C9, as the claim states it, fails when the tie-break reaches the names of two
  employees and the name of the first is a number: \<open>localeCompare\<close> is not a function of
  a number, and the run ends with a \<open>TypeError\<close>. It fails too for a value that does not
  convert to a primitive value (an object with a property \<open>toString\<close> that is no
  function), as the role of an employee, as the start of a shift, or as the identifier
  in an assignment that names no shift.
\<close>

theorem run_raises_counterexample:
  "schedule example_platform [example_shift ''s1'' ''CNA'' 7 19]
     [example_employee ''e1'' (JNum 5) ''CNA'', example_employee ''e2'' (JNum 6) ''CNA'']
     [example_window ''e1'' ''Available'' 0 96, example_window ''e2'' ''Available'' 0 96]
     JUndefined
   = Inl TypeError
   \<and> schedule example_platform [example_shift ''s1'' ''CNA'' 7 19]
       [JObj [(''id'', JStr ''e1''), (''role'', JObj [(''toString'', JNum 1)])]]
       [] JUndefined
     = Inl TypeError
   \<and> schedule example_platform
       [JObj [(''id'', JStr ''s1''), (''start_time'', JObj [(''toString'', JNum 1)])]]
       example_aide example_free_week JUndefined
     = Inl TypeError
   \<and> validate example_platform
       [JObj [(''shiftId'', JObj [(''toString'', JNum 1)]), (''employeeId'', JStr ''e1'')]]
       example_week example_aide example_free_week
     = Inl TypeError"
  by code_simp

text \<open>An entry \<open>null\<close> in the list of assignments: the validator reads its \<open>shiftId\<close>
  and raises, where the normaliser steps over a record that is \<open>null\<close>.\<close>

lemma validate_null_entry:
  "validate example_platform [JNull] example_week example_aide example_free_week
   = Inl TypeError"
  by code_simp

lemma normalize_null_record:
  "normalizeEmployees example_platform [JNull] = Inr []
   \<and> normalizeShiftRecords example_platform [JNull] = Inr []
   \<and> normalizeAvailability example_platform [JNull] = Inr []
   \<and> normalizeAssignments (JArr [JNull]) = []"
  by code_simp

end
